theory Spec2Isabelle
  imports Complex_Main "HOL-Library.Word"
begin

section \<open>Machine arithmetic and failures\<close>

text \<open>
  The program is C++ (fastSF.cc). Its \<open>int\<close> variables are modelled as mathematical
  integers wherever the values stay far below \<open>2^31\<close> (indices, ranks, list sizes); the one
  place where the 32-bit width decides a result, the pair count \<open>count\<close>, is computed on
  \<open>32 word\<close>. Integer division truncates towards zero and traps on a zero divisor.
  Everything that is undefined behaviour in the source (an access outside an array, the
  use of a cell that was never written, a division by zero) is a value of \<open>error\<close>.
\<close>

datatype error = OutOfBounds | Uninitialised | DivisionByZero | BadExtent

definition thn :: "error + 'a \<Rightarrow> ('a \<Rightarrow> error + 'b) \<Rightarrow> error + 'b" where
  "thn m f = (case m of Inl e \<Rightarrow> Inl e | Inr v \<Rightarrow> f v)"

definition tdiv :: "int \<Rightarrow> int \<Rightarrow> int" where
  "tdiv a b = sgn a * sgn b * (\<bar>a\<bar> div \<bar>b\<bar>)"

definition tmod :: "int \<Rightarrow> int \<Rightarrow> int" where
  "tmod a b = a - b * tdiv a b"

definition idiv :: "int \<Rightarrow> int \<Rightarrow> error + int" where
  "idiv a b = (if b = 0 then Inl DivisionByZero else Inr (tdiv a b))"

definition imod :: "int \<Rightarrow> int \<Rightarrow> error + int" where
  "imod a b = (if b = 0 then Inl DivisionByZero else Inr (tmod a b))"

text \<open>A \<open>for (int i=0; i<n; i++)\<close> loop whose body may fail: the body is run on
  \<open>[0..n-1]\<close> in order and the first failure ends the run.\<close>

fun foldM :: "('a \<Rightarrow> 's \<Rightarrow> error + 's) \<Rightarrow> 'a list \<Rightarrow> 's \<Rightarrow> error + 's" where
  "foldM f [] s = Inr s"
| "foldM f (x # xs) s = thn (f x s) (foldM f xs)"

section \<open>One-dimensional integer arrays\<close>

text \<open>\<open>Array<int,1>\<close>: an extent and the cells written so far. \<open>resize\<close> gives fresh,
  unwritten storage.\<close>

record array1 =
  extent1 :: int
  cells1 :: "int \<rightharpoonup> int"

definition resize1 :: "int \<Rightarrow> error + array1" where
  "resize1 n = (if n < 0 then Inl BadExtent else Inr \<lparr>extent1 = n, cells1 = Map.empty\<rparr>)"

definition store1 :: "array1 \<Rightarrow> int \<Rightarrow> int \<Rightarrow> error + array1" where
  "store1 a i v =
     (if 0 \<le> i \<and> i < extent1 a then Inr (a\<lparr>cells1 := (cells1 a)(i \<mapsto> v)\<rparr>)
      else Inl OutOfBounds)"

definition load1 :: "array1 \<Rightarrow> int \<Rightarrow> error + int" where
  "load1 a i =
     (if 0 \<le> i \<and> i < extent1 a
      then (case cells1 a i of None \<Rightarrow> Inl Uninitialised | Some v \<Rightarrow> Inr v)
      else Inl OutOfBounds)"

section \<open>The per-axis index list\<close>

text \<open>
  \<^verbatim>\<open>void compute_index_list(Array<int,1>& index_list, int Nx, int px, int rank){
    int list_size=Nx/px;
    index_list.resize(list_size);
    for (int i=0; i<list_size; i+=2){
        index_list(i)=rank+i*px;
        if (px!=Nx) {
          index_list(i+1)=Nx-1-index_list(i);
        }
    }
}\<close>
  The parameters are called \<open>Nh\<close> (half the number of points), \<open>pn\<close> and \<open>rnk\<close> here,
  because \<open>Nx\<close> and \<open>px\<close> are also the names of the program's globals. The two overloads
  of \<open>compute_index_list\<close> are told apart by the rank of their array.
\<close>

function index_loop :: "int \<Rightarrow> int \<Rightarrow> int \<Rightarrow> int \<Rightarrow> int \<Rightarrow> array1 \<Rightarrow> error + array1" where
  "index_loop Nh pn rnk list_size i a =
     (if i < list_size then
        (case store1 a i (rnk + i * pn) of
           Inl e \<Rightarrow> Inl e
         | Inr a1 \<Rightarrow>
             if pn \<noteq> Nh then
               (case load1 a1 i of
                  Inl e \<Rightarrow> Inl e
                | Inr v \<Rightarrow>
                    (case store1 a1 (i + 1) (Nh - 1 - v) of
                       Inl e \<Rightarrow> Inl e
                     | Inr a2 \<Rightarrow> index_loop Nh pn rnk list_size (i + 2) a2))
             else index_loop Nh pn rnk list_size (i + 2) a1)
      else Inr a)"
  by pat_completeness auto
termination
  by (relation "measure (\<lambda>(Nh, pn, rnk, list_size, i, a). nat (list_size - i))") auto

definition compute_index_list1 :: "int \<Rightarrow> int \<Rightarrow> int \<Rightarrow> error + array1" where
  "compute_index_list1 Nh pn rnk =
     thn (idiv Nh pn) (\<lambda>list_size.
       thn (resize1 list_size) (\<lambda>a. index_loop Nh pn rnk list_size 0 a))"

text \<open>The closed form of the entries: position \<open>j\<close> holds \<open>rnk + j * pn\<close> when \<open>j\<close> is even
  and the complement of the entry before it when \<open>j\<close> is odd.\<close>

definition entry :: "int \<Rightarrow> int \<Rightarrow> int \<Rightarrow> int \<Rightarrow> int" where
  "entry Nh pn rnk j = (if even j then rnk + j * pn else Nh - 1 - (rnk + (j - 1) * pn))"

section \<open>The program's globals and the pre-run checks\<close>

record config =
  Nx :: int
  Ny :: int
  Nz :: int
  q1 :: int
  q2 :: int
  dx :: real
  dy :: real
  dz :: real
  P :: int
  px :: int
  two_dimension_switch :: bool
  scalar_switch :: bool
  longitudinal :: bool


text \<open>
  \<open>main\<close>, lines 500-533. Each failed check prints its message on rank 0 and leaves with
  \<open>exit(1)\<close>; a run that passes all three goes on to read the fields and compute.
  \<^verbatim>\<open>if (px > P) {... exit(1);}
if (Nx/2%px != 0) {... exit(1);}
int N2; if (two_dimension_switch) {N2 = Nz;} else {N2 = Ny;}
if (N2/2%(P/px) != 0) {... exit(1);}\<close>
\<close>

datatype diagnostic = TooManyProcessorsX | ProcessorsXMismatch | ProcessorsYMismatch

datatype outcome = Aborted diagnostic | Accepted

definition validate :: "config \<Rightarrow> error + outcome" where
  "validate cfg =
     (if px cfg > P cfg then Inr (Aborted TooManyProcessorsX)
      else thn (imod (tdiv (Nx cfg) 2) (px cfg)) (\<lambda>m1.
        if m1 \<noteq> 0 then Inr (Aborted ProcessorsXMismatch)
        else
          let N2 = (if two_dimension_switch cfg then Nz cfg else Ny cfg) in
          thn (idiv (P cfg) (px cfg)) (\<lambda>py.
          thn (imod (tdiv N2 2) py) (\<lambda>m2.
            if m2 \<noteq> 0 then Inr (Aborted ProcessorsYMismatch) else Inr Accepted))))"

text \<open>The spec's word for the quotients it wants: a power of two.\<close>

definition is_pow2 :: "int \<Rightarrow> bool" where
  "is_pow2 n = (\<exists>k::nat. n = 2 ^ k)"

section \<open>The displacement table of all ranks\<close>

text \<open>\<open>Array<int,3>\<close>: the table \<open>index_list(row, column, rank)\<close>.\<close>

record array3 =
  extent3 :: "int \<times> int \<times> int"
  cells3 :: "int \<times> int \<times> int \<rightharpoonup> int"

fun inb3 :: "int \<times> int \<times> int \<Rightarrow> int \<times> int \<times> int \<Rightarrow> bool" where
  "inb3 (e0, e1, e2) (i, j, k) = (0 \<le> i \<and> i < e0 \<and> 0 \<le> j \<and> j < e1 \<and> 0 \<le> k \<and> k < e2)"

definition resize3 :: "int \<times> int \<times> int \<Rightarrow> error + array3" where
  "resize3 e =
     (case e of (e0, e1, e2) \<Rightarrow>
        if e0 < 0 \<or> e1 < 0 \<or> e2 < 0 then Inl BadExtent
        else Inr \<lparr>extent3 = e, cells3 = Map.empty\<rparr>)"

definition load3 :: "array3 \<Rightarrow> int \<times> int \<times> int \<Rightarrow> error + int" where
  "load3 t idx =
     (if inb3 (extent3 t) idx
      then (case cells3 t idx of None \<Rightarrow> Inl Uninitialised | Some v \<Rightarrow> Inr v)
      else Inl OutOfBounds)"

text \<open>Reading one cell to copy it: the cell may be unwritten, and then so is the copy.\<close>

definition peek1 :: "array1 \<Rightarrow> int \<Rightarrow> error + int option" where
  "peek1 a i = (if 0 \<le> i \<and> i < extent1 a then Inr (cells1 a i) else Inl OutOfBounds)"

text \<open>\<open>index_list(Range(lo,hi),col,k) = v\<close>: one value into the rows \<open>lo..hi\<close>.\<close>

definition assign_rows_scalar ::
    "array3 \<Rightarrow> int \<Rightarrow> int \<Rightarrow> int \<Rightarrow> int \<Rightarrow> int option \<Rightarrow> error + array3" where
  "assign_rows_scalar t lo hi col k v =
     (if lo \<le> hi \<and> inb3 (extent3 t) (lo, col, k) \<and> inb3 (extent3 t) (hi, col, k)
      then Inr (t\<lparr>cells3 := (\<lambda>(r, c, q).
                  if lo \<le> r \<and> r \<le> hi \<and> c = col \<and> q = k then v else cells3 t (r, c, q))\<rparr>)
      else Inl OutOfBounds)"

text \<open>\<open>index_list(Range(lo,hi),col,k) = y(Range::all())\<close>: the list \<open>y\<close>, element by element,
  into the rows \<open>lo..hi\<close>; the two sides must have the same length.\<close>

definition assign_rows_array ::
    "array3 \<Rightarrow> int \<Rightarrow> int \<Rightarrow> int \<Rightarrow> int \<Rightarrow> array1 \<Rightarrow> error + array3" where
  "assign_rows_array t lo hi col k y =
     (if lo \<le> hi \<and> inb3 (extent3 t) (lo, col, k) \<and> inb3 (extent3 t) (hi, col, k)
         \<and> hi - lo + 1 = extent1 y
      then Inr (t\<lparr>cells3 := (\<lambda>(r, c, q).
                  if lo \<le> r \<and> r \<le> hi \<and> c = col \<and> q = k then cells1 y (r - lo)
                  else cells3 t (r, c, q))\<rparr>)
      else Inl OutOfBounds)"

text \<open>\<^verbatim>\<open>void get_rank(int rank, int py, int& rankx, int& ranky){
    ranky=rank%py;
    rankx=(rank-ranky)/py;
}\<close>\<close>

definition get_rank :: "int \<Rightarrow> int \<Rightarrow> error + int \<times> int" where
  "get_rank rank py =
     thn (imod rank py) (\<lambda>ranky.
     thn (idiv (rank - ranky) py) (\<lambda>rankx. Inr (rankx, ranky)))"

text \<open>
  \<^verbatim>\<open>void compute_index_list(Array<int,3>& index_list, int Nx, int Ny){
    int list_size=(Nx*Ny)/(4*P);
    index_list.resize(list_size,2,P);
    int py=(P/px);
    Array<int,1> x;
    Array<int,1> y;
    int rankx,ranky;
    int nx=Nx/(2*px),ny=Ny/(2*py);
    for (int rank_id=0; rank_id<P; rank_id++){
        get_rank(rank_id, py, rankx, ranky);
        compute_index_list(x, Nx/2, px, rankx);
        compute_index_list(y, Ny/2, py, ranky);
        for (int i=0; i<nx; i++){
            index_list(Range(ny*i,(i+1)*ny-1),0,rank_id)=x(i);
            index_list(Range(ny*i,(i+1)*ny-1),1,rank_id)=y(Range::all());
        }
    }
}\<close>
  The two size parameters are called \<open>N1\<close> and \<open>N2\<close> here (the callers pass \<open>Nx\<close> and
  \<open>Ny\<close>, or \<open>Nx\<close> and \<open>Nz\<close> in two dimensions).
\<close>

definition fill_rows :: "int \<Rightarrow> int \<Rightarrow> array1 \<Rightarrow> array1 \<Rightarrow> int \<Rightarrow> array3 \<Rightarrow> error + array3" where
  "fill_rows ny rank_id x y i t =
     thn (peek1 x i) (\<lambda>xi.
     thn (assign_rows_scalar t (ny * i) ((i + 1) * ny - 1) 0 rank_id xi) (\<lambda>t1.
       assign_rows_array t1 (ny * i) ((i + 1) * ny - 1) 1 rank_id y))"

definition fill_rank :: "config \<Rightarrow> int \<Rightarrow> int \<Rightarrow> int \<Rightarrow> int \<Rightarrow> int \<Rightarrow> int \<Rightarrow> array3 \<Rightarrow> error + array3" where
  "fill_rank cfg N1 N2 py nx ny rank_id t =
     thn (get_rank rank_id py) (\<lambda>(rankx, ranky).
     thn (compute_index_list1 (tdiv N1 2) (px cfg) rankx) (\<lambda>x.
     thn (compute_index_list1 (tdiv N2 2) py ranky) (\<lambda>y.
       foldM (fill_rows ny rank_id x y) [0..nx - 1] t)))"

definition compute_index_list3 :: "config \<Rightarrow> int \<Rightarrow> int \<Rightarrow> error + array3" where
  "compute_index_list3 cfg N1 N2 =
     thn (idiv (N1 * N2) (4 * P cfg)) (\<lambda>list_size.
     thn (resize3 (list_size, 2, P cfg)) (\<lambda>t0.
     thn (idiv (P cfg) (px cfg)) (\<lambda>py.
     thn (idiv N1 (2 * px cfg)) (\<lambda>nx.
     thn (idiv N2 (2 * py)) (\<lambda>ny.
       foldM (fill_rank cfg N1 N2 py nx ny) [0..P cfg - 1] t0)))))"

text \<open>What a driver reads at iteration \<open>ix\<close> for rank \<open>r\<close>:
  \<open>int x=index_list(ix, 0, rank_mpi); int y=index_list(ix, 1, rank_mpi);\<close>\<close>

definition rank_pair :: "array3 \<Rightarrow> int \<Rightarrow> int \<Rightarrow> error + int \<times> int" where
  "rank_pair t ix r =
     thn (load3 t (ix, 0, r)) (\<lambda>x. thn (load3 t (ix, 1, r)) (\<lambda>y. Inr (x, y)))"

section \<open>The pair count\<close>

text \<open>\<open>int count=(Nx-x)*(Ny-y)*(Nz-z);\<close> (SFunc3D, SFunc_long_3D, SF_scalar_3D) and
  \<open>int count=(Nx-x)*(Nz-z);\<close> (the two-dimensional drivers): products of 32-bit \<open>int\<close>s,
  read back as a signed value.\<close>

definition count3 :: "int \<Rightarrow> int \<Rightarrow> int \<Rightarrow> int \<Rightarrow> int \<Rightarrow> int \<Rightarrow> int" where
  "count3 n1 n2 n3 x y z =
     sint ((word_of_int (n1 - x) * word_of_int (n2 - y) * word_of_int (n3 - z)) :: 32 word)"

definition count2 :: "int \<Rightarrow> int \<Rightarrow> int \<Rightarrow> int \<Rightarrow> int" where
  "count2 n1 n3 x z = sint ((word_of_int (n1 - x) * word_of_int (n3 - z)) :: 32 word)"

section \<open>Floating-point values\<close>

text \<open>
  A \<open>double\<close> is idealised: a finite value is a real number and arithmetic on finite
  values is exact. The one non-finite value stands for IEEE's NaN and infinities, which
  this development never needs to tell apart: it appears when a quotient has the divisor 0
  (\<open>0/0\<close> is NaN, \<open>x/0\<close> an infinity), when \<open>pow\<close> raises 0 to a negative order, or when
  \<open>pow(x, 0.5)\<close> gets a negative \<open>x\<close>, and it is kept by every later operation except
  \<open>pow(x, 0)\<close>, which is 1 for every \<open>x\<close>. Every divisor in the drivers is a finite number
  (the magnitude \<open>r\<close> or the integer \<open>count\<close>), so the divisor of \<open>ddiv\<close> is a real.
\<close>

datatype double = Fin real | NonFin

definition dadd :: "double \<Rightarrow> double \<Rightarrow> double" where
  "dadd a b = (case a of Fin x \<Rightarrow> (case b of Fin y \<Rightarrow> Fin (x + y) | NonFin \<Rightarrow> NonFin)
               | NonFin \<Rightarrow> NonFin)"

definition dsub :: "double \<Rightarrow> double \<Rightarrow> double" where
  "dsub a b = (case a of Fin x \<Rightarrow> (case b of Fin y \<Rightarrow> Fin (x - y) | NonFin \<Rightarrow> NonFin)
               | NonFin \<Rightarrow> NonFin)"

definition dmul :: "double \<Rightarrow> double \<Rightarrow> double" where
  "dmul a b = (case a of Fin x \<Rightarrow> (case b of Fin y \<Rightarrow> Fin (x * y) | NonFin \<Rightarrow> NonFin)
               | NonFin \<Rightarrow> NonFin)"

definition ddiv :: "double \<Rightarrow> real \<Rightarrow> double" where
  "ddiv a d = (case a of Fin x \<Rightarrow> if d = 0 then NonFin else Fin (x / d) | NonFin \<Rightarrow> NonFin)"

definition dsqrt :: "double \<Rightarrow> double" where
  "dsqrt a = (case a of Fin x \<Rightarrow> if x < 0 then NonFin else Fin (sqrt x) | NonFin \<Rightarrow> NonFin)"

definition dpow :: "double \<Rightarrow> int \<Rightarrow> double" where
  "dpow a q =
     (if q = 0 then Fin 1
      else case a of
             Fin x \<Rightarrow> if x = 0 \<and> q < 0 then NonFin else Fin (power_int x q)
           | NonFin \<Rightarrow> NonFin)"

text \<open>\<open>sum(A)\<close> of an array expression: all its elements added up.\<close>

definition dsum :: "double list \<Rightarrow> double" where
  "dsum vs = foldr dadd vs (Fin 0)"

section \<open>Fields and result tensors\<close>

text \<open>The input fields hold finite values on the grid \<open>Nx \<times> Ny \<times> Nz\<close> (\<open>Nx \<times> Nz\<close> in
  two dimensions). A slice \<open>U(Range(x,N-1))\<close> together with \<open>U(Range(0,N-x-1))\<close> lies
  inside an axis of \<open>N\<close> points when \<open>0 \<le> x < N\<close>.\<close>

type_synonym field3 = "int \<Rightarrow> int \<Rightarrow> int \<Rightarrow> real"
type_synonym field2 = "int \<Rightarrow> int \<Rightarrow> real"

definition slices_ok3 :: "config \<Rightarrow> int \<Rightarrow> int \<Rightarrow> int \<Rightarrow> bool" where
  "slices_ok3 cfg x y z =
     (0 \<le> x \<and> x < Nx cfg \<and> 0 \<le> y \<and> y < Ny cfg \<and> 0 \<le> z \<and> z < Nz cfg)"

definition slices_ok2 :: "config \<Rightarrow> int \<Rightarrow> int \<Rightarrow> bool" where
  "slices_ok2 cfg x z = (0 \<le> x \<and> x < Nx cfg \<and> 0 \<le> z \<and> z < Nz cfg)"

text \<open>The index triples (pairs) of an array of extents \<open>a \<times> b \<times> c\<close> (\<open>a \<times> c\<close>), in storage
  order.\<close>

definition points3 :: "int \<Rightarrow> int \<Rightarrow> int \<Rightarrow> (int \<times> int \<times> int) list" where
  "points3 a b c = List.product [0..a - 1] (List.product [0..b - 1] [0..c - 1])"

definition points2 :: "int \<Rightarrow> int \<Rightarrow> (int \<times> int) list" where
  "points2 a c = List.product [0..a - 1] [0..c - 1]"

text \<open>\<open>Array<double,4>\<close> and \<open>Array<double,3>\<close>: the result tensors, which only rank 0
  holds. \<open>resize_SFs\<close> sizes them and sets every element to 0.\<close>

record tensor4 =
  shape4 :: "int \<times> int \<times> int \<times> int"
  elems4 :: "int \<times> int \<times> int \<times> int \<Rightarrow> double"

record tensor3 =
  shape3 :: "int \<times> int \<times> int"
  elems3 :: "int \<times> int \<times> int \<Rightarrow> double"

fun inb4 :: "int \<times> int \<times> int \<times> int \<Rightarrow> int \<times> int \<times> int \<times> int \<Rightarrow> bool" where
  "inb4 (e0, e1, e2, e3) (i, j, k, l) =
     (0 \<le> i \<and> i < e0 \<and> 0 \<le> j \<and> j < e1 \<and> 0 \<le> k \<and> k < e2 \<and> 0 \<le> l \<and> l < e3)"

definition resize_SF4 :: "config \<Rightarrow> error + tensor4" where
  "resize_SF4 cfg =
     (let e0 = tdiv (Nx cfg) 2; e1 = tdiv (Ny cfg) 2; e2 = tdiv (Nz cfg) 2;
          e3 = q2 cfg - q1 cfg + 1
      in if e0 < 0 \<or> e1 < 0 \<or> e2 < 0 \<or> e3 < 0 then Inl BadExtent
         else Inr \<lparr>shape4 = (e0, e1, e2, e3), elems4 = (\<lambda>idx. Fin 0)\<rparr>)"

definition resize_SF3 :: "config \<Rightarrow> error + tensor3" where
  "resize_SF3 cfg =
     (let e0 = tdiv (Nx cfg) 2; e2 = tdiv (Nz cfg) 2; e3 = q2 cfg - q1 cfg + 1
      in if e0 < 0 \<or> e2 < 0 \<or> e3 < 0 then Inl BadExtent
         else Inr \<lparr>shape3 = (e0, e2, e3), elems3 = (\<lambda>idx. Fin 0)\<rparr>)"

definition put4 :: "tensor4 \<Rightarrow> int \<times> int \<times> int \<times> int \<Rightarrow> double \<Rightarrow> error + tensor4" where
  "put4 t idx v =
     (if inb4 (shape4 t) idx then Inr (t\<lparr>elems4 := (elems4 t)(idx := v)\<rparr>)
      else Inl OutOfBounds)"

definition put3 :: "tensor3 \<Rightarrow> int \<times> int \<times> int \<Rightarrow> double \<Rightarrow> error + tensor3" where
  "put3 t idx v =
     (if inb3 (shape3 t) idx then Inr (t\<lparr>elems3 := (elems3 t)(idx := v)\<rparr>)
      else Inl OutOfBounds)"

text \<open>\<open>SF(0,0,0,Range::all())=0\<close> and \<open>SF(0,0,Range::all())=0\<close>: the origin cleanup.\<close>

definition zero_origin4 :: "tensor4 \<Rightarrow> error + tensor4" where
  "zero_origin4 t =
     (case shape4 t of (e0, e1, e2, e3) \<Rightarrow>
        if 0 < e0 \<and> 0 < e1 \<and> 0 < e2
        then Inr (t\<lparr>elems4 := (\<lambda>(i, j, k, l).
                    if i = 0 \<and> j = 0 \<and> k = 0 \<and> 0 \<le> l \<and> l < e3 then Fin 0
                    else elems4 t (i, j, k, l))\<rparr>)
        else Inl OutOfBounds)"

definition zero_origin3 :: "tensor3 \<Rightarrow> error + tensor3" where
  "zero_origin3 t =
     (case shape3 t of (e0, e2, e3) \<Rightarrow>
        if 0 < e0 \<and> 0 < e2
        then Inr (t\<lparr>elems3 := (\<lambda>(i, k, l).
                    if i = 0 \<and> k = 0 \<and> 0 \<le> l \<and> l < e3 then Fin 0
                    else elems3 t (i, k, l))\<rparr>)
        else Inl OutOfBounds)"

section \<open>The kernels\<close>

text \<open>
  SFunc3D, lines 1647-1669, for one displacement \<open>(x, y, z)\<close>, element by element (the
  array expressions of the source act on every element \<open>(i, j, k)\<close> of the difference
  arrays alike):
  \<^verbatim>\<open>double lx=x*dx; double ly=y*dy; double lz=z*dz;
double r=sqrt(lx*lx+ly*ly+lz*lz);
dUx(...)=Ux(Range(x,Nx-1),Range(y,Ny-1),Range(z,Nz-1))-Ux(Range(0,Nx-x-1),Range(0,Ny-y-1),Range(0,Nz-z-1));
(dUy, dUz alike)
dUpll=(lx*dUx+ly*dUy+lz*dUz)/r;
dUx=dUx-dUpll*lx/r; dUy=dUy-dUpll*ly/r; dUz=dUz-dUpll*lz/r;
dUx=pow(dUx*dUx+dUy*dUy+dUz*dUz,0.5);
double Spll = sum(pow(dUpll(...),q1+p))/(count);
double Sperp =sum(pow(dUx(...),q1+p))/(count);\<close>
\<close>

definition rmag3 :: "config \<Rightarrow> int \<Rightarrow> int \<Rightarrow> int \<Rightarrow> real" where
  "rmag3 cfg x y z =
     (let lx = real_of_int x * dx cfg; ly = real_of_int y * dy cfg; lz = real_of_int z * dz cfg
      in sqrt (lx * lx + ly * ly + lz * lz))"

definition dUpll3 ::
    "config \<Rightarrow> field3 \<Rightarrow> field3 \<Rightarrow> field3 \<Rightarrow> int \<Rightarrow> int \<Rightarrow> int \<Rightarrow> int \<times> int \<times> int \<Rightarrow> double" where
  "dUpll3 cfg Ux Uy Uz x y z pt =
     (case pt of (i, j, k) \<Rightarrow>
        let lx = real_of_int x * dx cfg; ly = real_of_int y * dy cfg; lz = real_of_int z * dz cfg;
            r = rmag3 cfg x y z;
            dUx = Ux (x + i) (y + j) (z + k) - Ux i j k;
            dUy = Uy (x + i) (y + j) (z + k) - Uy i j k;
            dUz = Uz (x + i) (y + j) (z + k) - Uz i j k
        in ddiv (Fin (lx * dUx + ly * dUy + lz * dUz)) r)"

definition dUperp3 ::
    "config \<Rightarrow> field3 \<Rightarrow> field3 \<Rightarrow> field3 \<Rightarrow> int \<Rightarrow> int \<Rightarrow> int \<Rightarrow> int \<times> int \<times> int \<Rightarrow> double" where
  "dUperp3 cfg Ux Uy Uz x y z pt =
     (case pt of (i, j, k) \<Rightarrow>
        let lx = real_of_int x * dx cfg; ly = real_of_int y * dy cfg; lz = real_of_int z * dz cfg;
            r = rmag3 cfg x y z;
            dUpll = dUpll3 cfg Ux Uy Uz x y z pt;
            dUx = dsub (Fin (Ux (x + i) (y + j) (z + k) - Ux i j k)) (ddiv (dmul dUpll (Fin lx)) r);
            dUy = dsub (Fin (Uy (x + i) (y + j) (z + k) - Uy i j k)) (ddiv (dmul dUpll (Fin ly)) r);
            dUz = dsub (Fin (Uz (x + i) (y + j) (z + k) - Uz i j k)) (ddiv (dmul dUpll (Fin lz)) r)
        in dsqrt (dadd (dadd (dmul dUx dUx) (dmul dUy dUy)) (dmul dUz dUz)))"

definition Spll3 :: "config \<Rightarrow> field3 \<Rightarrow> field3 \<Rightarrow> field3 \<Rightarrow> int \<Rightarrow> int \<Rightarrow> int \<Rightarrow> int \<Rightarrow> double" where
  "Spll3 cfg Ux Uy Uz x y z p =
     ddiv (dsum (map (\<lambda>pt. dpow (dUpll3 cfg Ux Uy Uz x y z pt) (q1 cfg + p))
                  (points3 (Nx cfg - x) (Ny cfg - y) (Nz cfg - z))))
          (real_of_int (count3 (Nx cfg) (Ny cfg) (Nz cfg) x y z))"

definition Sperp3 :: "config \<Rightarrow> field3 \<Rightarrow> field3 \<Rightarrow> field3 \<Rightarrow> int \<Rightarrow> int \<Rightarrow> int \<Rightarrow> int \<Rightarrow> double" where
  "Sperp3 cfg Ux Uy Uz x y z p =
     ddiv (dsum (map (\<lambda>pt. dpow (dUperp3 cfg Ux Uy Uz x y z pt) (q1 cfg + p))
                  (points3 (Nx cfg - x) (Ny cfg - y) (Nz cfg - z))))
          (real_of_int (count3 (Nx cfg) (Ny cfg) (Nz cfg) x y z))"

text \<open>
  SFunc2D, lines 1822-1833, the same kernel without the y axis:
  \<^verbatim>\<open>double lx=x*dx; double lz=z*dz; double r=sqrt(lx*lx+lz*lz);
dUpll=(lx*dUx+lz*dUz)/r;\<close>
\<close>

definition rmag2 :: "config \<Rightarrow> int \<Rightarrow> int \<Rightarrow> real" where
  "rmag2 cfg x z =
     (let lx = real_of_int x * dx cfg; lz = real_of_int z * dz cfg in sqrt (lx * lx + lz * lz))"

definition dUpll2 :: "config \<Rightarrow> field2 \<Rightarrow> field2 \<Rightarrow> int \<Rightarrow> int \<Rightarrow> int \<times> int \<Rightarrow> double" where
  "dUpll2 cfg Ux Uz x z pt =
     (case pt of (i, k) \<Rightarrow>
        let lx = real_of_int x * dx cfg; lz = real_of_int z * dz cfg;
            r = rmag2 cfg x z;
            dUx = Ux (x + i) (z + k) - Ux i k;
            dUz = Uz (x + i) (z + k) - Uz i k
        in ddiv (Fin (lx * dUx + lz * dUz)) r)"

text \<open>
  SF_scalar_2D, lines 2037-2043:
  \<^verbatim>\<open>int count=(Nx-x)*(Nz-z);
dT(Range::all(),Range::all())=T(Range(x,Nx-1),Range(z,Nz-1))-T(Range(0,Nx-x-1),Range(0,Nz-z-1));
double St = sum(pow(dT(Range::all(),Range::all()),q1+p))/(count);\<close>
\<close>

definition St2 :: "config \<Rightarrow> field2 \<Rightarrow> int \<Rightarrow> int \<Rightarrow> int \<Rightarrow> double" where
  "St2 cfg T x z p =
     ddiv (dsum (map (\<lambda>(i, k). dpow (Fin (T (x + i) (z + k) - T i k)) (q1 cfg + p))
                  (points2 (Nx cfg - x) (Nz cfg - z))))
          (real_of_int (count2 (Nx cfg) (Nz cfg) x z))"

section \<open>The drivers\<close>

text \<open>
  All \<open>P\<close> ranks run the same loops in step. At every \<open>(ix, z, p)\<close> each rank \<open>i\<close> reads its
  displacement from the table, forms its differences and its averages, and the gathers
  hand rank 0 the vectors \<open>X, Y, Z, p_arr, Spll_arr, Sperp_arr\<close>, which it writes into its
  tensors for \<open>i = 0 .. P-1\<close>:
  \<^verbatim>\<open>for (int i=0; i<P; i++) {
    SF_Grid_pll(X(i), Y(i), Z(i), p_arr(i)) = Spll_arr(i);
    SF_Grid_perp(X(i), Y(i), Z(i), p_arr(i)) = Sperp_arr(i);
}\<close>
  \<open>gather_write3D\<close> is the share of rank \<open>i\<close> in one such step, and the state is the pair
  of tensors of rank 0. A failure on any rank is a failure of the run.
\<close>

definition gather_write3D ::
    "config \<Rightarrow> field3 \<Rightarrow> field3 \<Rightarrow> field3 \<Rightarrow> array3 \<Rightarrow> int \<Rightarrow> int \<Rightarrow> int \<Rightarrow> int \<Rightarrow>
     tensor4 \<times> tensor4 \<Rightarrow> error + tensor4 \<times> tensor4" where
  "gather_write3D cfg Ux Uy Uz index_list ix z p i SF =
     (case SF of (pll, perp) \<Rightarrow>
        thn (rank_pair index_list ix i) (\<lambda>(x, y).
        thn (if slices_ok3 cfg x y z then Inr () else Inl OutOfBounds) (\<lambda>u.
        thn (put4 pll (x, y, z, p) (Spll3 cfg Ux Uy Uz x y z p)) (\<lambda>pll'.
        thn (put4 perp (x, y, z, p) (Sperp3 cfg Ux Uy Uz x y z p)) (\<lambda>perp'.
          Inr (pll', perp'))))))"

text \<open>
  \<^verbatim>\<open>void SFunc3D(Array<double,3> Ux, Array<double,3> Uy, Array<double,3> Uz) {
    int c_per_proc = Nx*Ny/(4*P);
    Array<int, 3> index_list;
    compute_index_list(index_list, Nx, Ny);
    for (int ix=0; ix<c_per_proc; ix++){
        int x=index_list(ix, 0, rank_mpi);
        int y=index_list(ix, 1, rank_mpi);
        for(int z=0; z<Nz/2; z++){
            ... for (int p=0; p<=q2-q1; p++){ ... gathers, writes on rank 0 ... }
        }
    }
    if (rank_mpi==0) {
        SF_Grid_pll(0,0,0,Range::all())=0;
        SF_Grid_perp(0,0,0,Range::all())=0;
    }
}\<close>
\<close>

definition SFunc3D ::
    "config \<Rightarrow> field3 \<Rightarrow> field3 \<Rightarrow> field3 \<Rightarrow> tensor4 \<times> tensor4 \<Rightarrow> error + tensor4 \<times> tensor4" where
  "SFunc3D cfg Ux Uy Uz SF =
     thn (idiv (Nx cfg * Ny cfg) (4 * P cfg)) (\<lambda>c_per_proc.
     thn (compute_index_list3 cfg (Nx cfg) (Ny cfg)) (\<lambda>index_list.
     thn (foldM (\<lambda>ix.
            foldM (\<lambda>z.
              foldM (\<lambda>p.
                foldM (gather_write3D cfg Ux Uy Uz index_list ix z p) [0..P cfg - 1])
              [0..q2 cfg - q1 cfg])
            [0..tdiv (Nz cfg) 2 - 1])
          [0..c_per_proc - 1] SF) (\<lambda>(pll, perp).
     thn (zero_origin4 pll) (\<lambda>pll'.
     thn (zero_origin4 perp) (\<lambda>perp'. Inr (pll', perp'))))))"

definition gather_write_scalar_2D ::
    "config \<Rightarrow> field2 \<Rightarrow> array3 \<Rightarrow> int \<Rightarrow> int \<Rightarrow> int \<Rightarrow> tensor3 \<Rightarrow> error + tensor3" where
  "gather_write_scalar_2D cfg T index_list ix p i SF =
     thn (rank_pair index_list ix i) (\<lambda>(x, z).
     thn (if slices_ok2 cfg x z then Inr () else Inl OutOfBounds) (\<lambda>u.
       put3 SF (x, z, p) (St2 cfg T x z p)))"

text \<open>
  \<^verbatim>\<open>void SF_scalar_2D(Array<double,2> T) {
    int p_per_proc = Nx*Nz/(4*P);
    Array<int, 3> index_list;
    compute_index_list(index_list, Nx, Nz);
    for (int ix=0; ix<p_per_proc; ix++){
        int x=index_list(ix, 0, rank_mpi);
        int z=index_list(ix, 1, rank_mpi);
        ... for (int p=0; p<=q2-q1; p++){ ... gathers, writes on rank 0 ... }
    }
    if (rank_mpi==0) { SF_Grid2D_scalar(0,0,Range::all())=0; }
}\<close>
\<close>

definition SF_scalar_2D :: "config \<Rightarrow> field2 \<Rightarrow> tensor3 \<Rightarrow> error + tensor3" where
  "SF_scalar_2D cfg T SF =
     thn (idiv (Nx cfg * Nz cfg) (4 * P cfg)) (\<lambda>p_per_proc.
     thn (compute_index_list3 cfg (Nx cfg) (Nz cfg)) (\<lambda>index_list.
     thn (foldM (\<lambda>ix.
            foldM (\<lambda>p.
              foldM (gather_write_scalar_2D cfg T index_list ix p) [0..P cfg - 1])
            [0..q2 cfg - q1 cfg])
          [0..p_per_proc - 1] SF)
       zero_origin3))"




section \<open>The other four drivers, and the dispatch\<close>

text \<open>
  SFunc2D, lines 1822-1837, and SF_scalar_3D, lines 1971-1978: the remaining kernels.
  \<^verbatim>\<open>dUx=dUx-dUpll*lx/r; dUz=dUz-dUpll*lz/r; dUx=pow(dUx*dUx+dUz*dUz,0.5);
double Spll = sum(pow(dUpll(Range::all(),Range::all()),q1+p))/(count);
double Sperp =sum(pow(dUx(Range::all(),Range::all()),q1+p))/(count);\<close>
\<close>

definition dUperp2 :: "config \<Rightarrow> field2 \<Rightarrow> field2 \<Rightarrow> int \<Rightarrow> int \<Rightarrow> int \<times> int \<Rightarrow> double" where
  "dUperp2 cfg Ux Uz x z pt =
     (case pt of (i, k) \<Rightarrow>
        let lx = real_of_int x * dx cfg; lz = real_of_int z * dz cfg;
            r = rmag2 cfg x z;
            dUpll = dUpll2 cfg Ux Uz x z pt;
            dUx = dsub (Fin (Ux (x + i) (z + k) - Ux i k)) (ddiv (dmul dUpll (Fin lx)) r);
            dUz = dsub (Fin (Uz (x + i) (z + k) - Uz i k)) (ddiv (dmul dUpll (Fin lz)) r)
        in dsqrt (dadd (dmul dUx dUx) (dmul dUz dUz)))"

definition Spll2 :: "config \<Rightarrow> field2 \<Rightarrow> field2 \<Rightarrow> int \<Rightarrow> int \<Rightarrow> int \<Rightarrow> double" where
  "Spll2 cfg Ux Uz x z p =
     ddiv (dsum (map (\<lambda>pt. dpow (dUpll2 cfg Ux Uz x z pt) (q1 cfg + p))
                  (points2 (Nx cfg - x) (Nz cfg - z))))
          (real_of_int (count2 (Nx cfg) (Nz cfg) x z))"

definition Sperp2 :: "config \<Rightarrow> field2 \<Rightarrow> field2 \<Rightarrow> int \<Rightarrow> int \<Rightarrow> int \<Rightarrow> double" where
  "Sperp2 cfg Ux Uz x z p =
     ddiv (dsum (map (\<lambda>pt. dpow (dUperp2 cfg Ux Uz x z pt) (q1 cfg + p))
                  (points2 (Nx cfg - x) (Nz cfg - z))))
          (real_of_int (count2 (Nx cfg) (Nz cfg) x z))"

definition St3 :: "config \<Rightarrow> field3 \<Rightarrow> int \<Rightarrow> int \<Rightarrow> int \<Rightarrow> int \<Rightarrow> double" where
  "St3 cfg T x y z p =
     ddiv (dsum (map (\<lambda>(i, j, k). dpow (Fin (T (x + i) (y + j) (z + k) - T i j k)) (q1 cfg + p))
                  (points3 (Nx cfg - x) (Ny cfg - y) (Nz cfg - z))))
          (real_of_int (count3 (Nx cfg) (Ny cfg) (Nz cfg) x y z))"

text \<open>SFunc_long_3D, lines 1715-1786: SFunc3D without the transverse tensor.\<close>

definition gather_write_long_3D ::
    "config \<Rightarrow> field3 \<Rightarrow> field3 \<Rightarrow> field3 \<Rightarrow> array3 \<Rightarrow> int \<Rightarrow> int \<Rightarrow> int \<Rightarrow> int \<Rightarrow>
     tensor4 \<Rightarrow> error + tensor4" where
  "gather_write_long_3D cfg Ux Uy Uz index_list ix z p i pll =
     thn (rank_pair index_list ix i) (\<lambda>(x, y).
     thn (if slices_ok3 cfg x y z then Inr () else Inl OutOfBounds) (\<lambda>u.
       put4 pll (x, y, z, p) (Spll3 cfg Ux Uy Uz x y z p)))"

definition SFunc_long_3D ::
    "config \<Rightarrow> field3 \<Rightarrow> field3 \<Rightarrow> field3 \<Rightarrow> tensor4 \<Rightarrow> error + tensor4" where
  "SFunc_long_3D cfg Ux Uy Uz SF =
     thn (idiv (Nx cfg * Ny cfg) (4 * P cfg)) (\<lambda>c_per_proc.
     thn (compute_index_list3 cfg (Nx cfg) (Ny cfg)) (\<lambda>index_list.
     thn (foldM (\<lambda>ix.
            foldM (\<lambda>z.
              foldM (\<lambda>p.
                foldM (gather_write_long_3D cfg Ux Uy Uz index_list ix z p) [0..P cfg - 1])
              [0..q2 cfg - q1 cfg])
            [0..tdiv (Nz cfg) 2 - 1])
          [0..c_per_proc - 1] SF)
       zero_origin4))"

text \<open>SF_scalar_3D, lines 1952-2011.\<close>

definition gather_write_scalar_3D ::
    "config \<Rightarrow> field3 \<Rightarrow> array3 \<Rightarrow> int \<Rightarrow> int \<Rightarrow> int \<Rightarrow> int \<Rightarrow> tensor4 \<Rightarrow> error + tensor4" where
  "gather_write_scalar_3D cfg T index_list ix z p i SF =
     thn (rank_pair index_list ix i) (\<lambda>(x, y).
     thn (if slices_ok3 cfg x y z then Inr () else Inl OutOfBounds) (\<lambda>u.
       put4 SF (x, y, z, p) (St3 cfg T x y z p)))"

definition SF_scalar_3D :: "config \<Rightarrow> field3 \<Rightarrow> tensor4 \<Rightarrow> error + tensor4" where
  "SF_scalar_3D cfg T SF =
     thn (idiv (Nx cfg * Ny cfg) (4 * P cfg)) (\<lambda>c_per_proc.
     thn (compute_index_list3 cfg (Nx cfg) (Ny cfg)) (\<lambda>index_list.
     thn (foldM (\<lambda>ix.
            foldM (\<lambda>z.
              foldM (\<lambda>p.
                foldM (gather_write_scalar_3D cfg T index_list ix z p) [0..P cfg - 1])
              [0..q2 cfg - q1 cfg])
            [0..tdiv (Nz cfg) 2 - 1])
          [0..c_per_proc - 1] SF)
       zero_origin4))"

text \<open>SFunc2D, lines 1800-1868, and SFunc_long_2D, lines 1879-1939.\<close>

definition gather_write2D ::
    "config \<Rightarrow> field2 \<Rightarrow> field2 \<Rightarrow> array3 \<Rightarrow> int \<Rightarrow> int \<Rightarrow> int \<Rightarrow>
     tensor3 \<times> tensor3 \<Rightarrow> error + tensor3 \<times> tensor3" where
  "gather_write2D cfg Ux Uz index_list ix p i SF =
     (case SF of (pll, perp) \<Rightarrow>
        thn (rank_pair index_list ix i) (\<lambda>(x, z).
        thn (if slices_ok2 cfg x z then Inr () else Inl OutOfBounds) (\<lambda>u.
        thn (put3 pll (x, z, p) (Spll2 cfg Ux Uz x z p)) (\<lambda>pll'.
        thn (put3 perp (x, z, p) (Sperp2 cfg Ux Uz x z p)) (\<lambda>perp'.
          Inr (pll', perp'))))))"

definition SFunc2D ::
    "config \<Rightarrow> field2 \<Rightarrow> field2 \<Rightarrow> tensor3 \<times> tensor3 \<Rightarrow> error + tensor3 \<times> tensor3" where
  "SFunc2D cfg Ux Uz SF =
     thn (idiv (Nx cfg * Nz cfg) (4 * P cfg)) (\<lambda>p_per_proc.
     thn (compute_index_list3 cfg (Nx cfg) (Nz cfg)) (\<lambda>index_list.
     thn (foldM (\<lambda>ix.
            foldM (\<lambda>p.
              foldM (gather_write2D cfg Ux Uz index_list ix p) [0..P cfg - 1])
            [0..q2 cfg - q1 cfg])
          [0..p_per_proc - 1] SF) (\<lambda>(pll, perp).
     thn (zero_origin3 pll) (\<lambda>pll'.
     thn (zero_origin3 perp) (\<lambda>perp'. Inr (pll', perp'))))))"

definition gather_write_long_2D ::
    "config \<Rightarrow> field2 \<Rightarrow> field2 \<Rightarrow> array3 \<Rightarrow> int \<Rightarrow> int \<Rightarrow> int \<Rightarrow> tensor3 \<Rightarrow> error + tensor3" where
  "gather_write_long_2D cfg Ux Uz index_list ix p i pll =
     thn (rank_pair index_list ix i) (\<lambda>(x, z).
     thn (if slices_ok2 cfg x z then Inr () else Inl OutOfBounds) (\<lambda>u.
       put3 pll (x, z, p) (Spll2 cfg Ux Uz x z p)))"

definition SFunc_long_2D :: "config \<Rightarrow> field2 \<Rightarrow> field2 \<Rightarrow> tensor3 \<Rightarrow> error + tensor3" where
  "SFunc_long_2D cfg Ux Uz SF =
     thn (idiv (Nx cfg * Nz cfg) (4 * P cfg)) (\<lambda>p_per_proc.
     thn (compute_index_list3 cfg (Nx cfg) (Nz cfg)) (\<lambda>index_list.
     thn (foldM (\<lambda>ix.
            foldM (\<lambda>p.
              foldM (gather_write_long_2D cfg Ux Uz index_list ix p) [0..P cfg - 1])
            [0..q2 cfg - q1 cfg])
          [0..p_per_proc - 1] SF)
       zero_origin3))"

text \<open>
  The six result tensors of the program, as rank 0 holds them: a tensor that was never
  resized is absent. \<open>resize_SFs\<close> (lines 681-713) sizes and zeroes the ones the mode of the
  run needs, \<open>calc_SFs\<close> (lines 720-748) calls the driver of that mode, and \<open>main\<close> runs one
  after the other.
\<close>

record outputs =
  SF_Grid_pll :: "tensor4 option"
  SF_Grid_perp :: "tensor4 option"
  SF_Grid_scalar :: "tensor4 option"
  SF_Grid2D_pll :: "tensor3 option"
  SF_Grid2D_perp :: "tensor3 option"
  SF_Grid2D_scalar :: "tensor3 option"

definition no_outputs :: outputs where
  "no_outputs = \<lparr>SF_Grid_pll = None, SF_Grid_perp = None, SF_Grid_scalar = None,
                  SF_Grid2D_pll = None, SF_Grid2D_perp = None, SF_Grid2D_scalar = None\<rparr>"

definition resize_SFs :: "config \<Rightarrow> error + outputs" where
  "resize_SFs cfg =
     (if \<not> two_dimension_switch cfg then
        (if scalar_switch cfg then
           thn (resize_SF4 cfg) (\<lambda>t. Inr (no_outputs\<lparr>SF_Grid_scalar := Some t\<rparr>))
         else
           thn (resize_SF4 cfg) (\<lambda>pll.
             if \<not> longitudinal cfg then
               thn (resize_SF4 cfg) (\<lambda>perp.
                 Inr (no_outputs\<lparr>SF_Grid_pll := Some pll, SF_Grid_perp := Some perp\<rparr>))
             else Inr (no_outputs\<lparr>SF_Grid_pll := Some pll\<rparr>)))
      else
        (if scalar_switch cfg then
           thn (resize_SF3 cfg) (\<lambda>t. Inr (no_outputs\<lparr>SF_Grid2D_scalar := Some t\<rparr>))
         else
           thn (resize_SF3 cfg) (\<lambda>pll.
             if \<not> longitudinal cfg then
               thn (resize_SF3 cfg) (\<lambda>perp.
                 Inr (no_outputs\<lparr>SF_Grid2D_pll := Some pll, SF_Grid2D_perp := Some perp\<rparr>))
             else Inr (no_outputs\<lparr>SF_Grid2D_pll := Some pll\<rparr>))))"

text \<open>A driver that finds its tensor absent would write into an array of no extent: a
  failure.\<close>

definition present :: "'a option \<Rightarrow> error + 'a" where
  "present v = (case v of None \<Rightarrow> Inl OutOfBounds | Some t \<Rightarrow> Inr t)"

definition calc_SFs ::
    "config \<Rightarrow> field3 \<Rightarrow> field3 \<Rightarrow> field3 \<Rightarrow> field3 \<Rightarrow> field2 \<Rightarrow> field2 \<Rightarrow> field2 \<Rightarrow> outputs \<Rightarrow>
     error + outputs" where
  "calc_SFs cfg T V1 V2 V3 T_2D V1_2D V3_2D out =
     (if two_dimension_switch cfg then
        (if scalar_switch cfg then
           thn (present (SF_Grid2D_scalar out)) (\<lambda>S.
           thn (SF_scalar_2D cfg T_2D S) (\<lambda>S'. Inr (out\<lparr>SF_Grid2D_scalar := Some S'\<rparr>)))
         else if longitudinal cfg then
           thn (present (SF_Grid2D_pll out)) (\<lambda>pll.
           thn (SFunc_long_2D cfg V1_2D V3_2D pll) (\<lambda>pll'. Inr (out\<lparr>SF_Grid2D_pll := Some pll'\<rparr>)))
         else
           thn (present (SF_Grid2D_pll out)) (\<lambda>pll.
           thn (present (SF_Grid2D_perp out)) (\<lambda>perp.
           thn (SFunc2D cfg V1_2D V3_2D (pll, perp)) (\<lambda>(pll', perp').
             Inr (out\<lparr>SF_Grid2D_pll := Some pll', SF_Grid2D_perp := Some perp'\<rparr>)))))
      else
        (if scalar_switch cfg then
           thn (present (SF_Grid_scalar out)) (\<lambda>S.
           thn (SF_scalar_3D cfg T S) (\<lambda>S'. Inr (out\<lparr>SF_Grid_scalar := Some S'\<rparr>)))
         else if longitudinal cfg then
           thn (present (SF_Grid_pll out)) (\<lambda>pll.
           thn (SFunc_long_3D cfg V1 V2 V3 pll) (\<lambda>pll'. Inr (out\<lparr>SF_Grid_pll := Some pll'\<rparr>)))
         else
           thn (present (SF_Grid_pll out)) (\<lambda>pll.
           thn (present (SF_Grid_perp out)) (\<lambda>perp.
           thn (SFunc3D cfg V1 V2 V3 (pll, perp)) (\<lambda>(pll', perp').
             Inr (out\<lparr>SF_Grid_pll := Some pll', SF_Grid_perp := Some perp'\<rparr>))))))"

definition main_compute ::
    "config \<Rightarrow> field3 \<Rightarrow> field3 \<Rightarrow> field3 \<Rightarrow> field3 \<Rightarrow> field2 \<Rightarrow> field2 \<Rightarrow> field2 \<Rightarrow> error + outputs" where
  "main_compute cfg T V1 V2 V3 T_2D V1_2D V3_2D =
     thn (resize_SFs cfg) (calc_SFs cfg T V1 V2 V3 T_2D V1_2D V3_2D)"

text \<open>\<open>resize_SFs(); calc_SFs();\<close> for the two drivers SFunc3D and SF_scalar_2D alone.\<close>

definition run_SFunc3D :: "config \<Rightarrow> field3 \<Rightarrow> field3 \<Rightarrow> field3 \<Rightarrow> error + tensor4 \<times> tensor4" where
  "run_SFunc3D cfg Ux Uy Uz =
     thn (resize_SF4 cfg) (\<lambda>pll.
     thn (resize_SF4 cfg) (\<lambda>perp. SFunc3D cfg Ux Uy Uz (pll, perp)))"

definition run_SF_scalar_2D :: "config \<Rightarrow> field2 \<Rightarrow> error + tensor3" where
  "run_SF_scalar_2D cfg T = thn (resize_SF3 cfg) (SF_scalar_2D cfg T)"

section \<open>What the statements below speak of\<close>

text \<open>The pre-run constraints as the spec lists them, for a table built from the sizes
  \<open>N1\<close> and \<open>N2\<close>: \<open>p\<^sub>x\<close> divides \<open>P\<close>, \<open>p\<^sub>x\<close> divides \<open>N1/2\<close>, \<open>P/p\<^sub>x\<close> divides \<open>N2/2\<close>, and
  both quotients are powers of two.\<close>

definition decomposition_ok :: "config \<Rightarrow> int \<Rightarrow> int \<Rightarrow> bool" where
  "decomposition_ok cfg N1 N2 =
     (0 < px cfg \<and> 0 < P cfg \<and> px cfg dvd P cfg \<and> 0 \<le> N1 \<and> 0 \<le> N2 \<and>
      px cfg dvd (N1 div 2) \<and> is_pow2 ((N1 div 2) div px cfg) \<and>
      (P cfg div px cfg) dvd (N2 div 2) \<and> is_pow2 ((N2 div 2) div (P cfg div px cfg)))"

text \<open>The closed form of the table: row \<open>ix\<close>, column \<open>c\<close>, rank \<open>r\<close>.\<close>

definition table_value :: "config \<Rightarrow> int \<Rightarrow> int \<Rightarrow> int \<Rightarrow> int \<Rightarrow> int \<Rightarrow> int" where
  "table_value cfg N1 N2 ix c r =
     (let py = P cfg div px cfg; ny = (N2 div 2) div py in
      if c = 0 then entry (N1 div 2) (px cfg) (r div py) (ix div ny)
      else entry (N2 div 2) py (r mod py) (ix mod ny))"

text \<open>
  The displacement pairs of all ranks, rank by rank and row by row: as the drivers read them
  from the computed table (\<open>gathered_pairs\<close>), and by the closed form (\<open>all_pairs\<close>).
\<close>

definition gathered_pairs :: "config \<Rightarrow> array3 \<Rightarrow> int \<Rightarrow> (error + int \<times> int) list" where
  "gathered_pairs cfg index_list L =
     map (\<lambda>(r, ix). rank_pair index_list ix r) (List.product [0..P cfg - 1] [0..L - 1])"

definition all_pairs :: "config \<Rightarrow> int \<Rightarrow> int \<Rightarrow> (int \<times> int) list" where
  "all_pairs cfg N1 N2 =
     map (\<lambda>(r, ix). (table_value cfg N1 N2 ix 0 r, table_value cfg N1 N2 ix 1 r))
       (List.product [0..P cfg - 1] [0..N1 * N2 div (4 * P cfg) - 1])"

text \<open>What a driver is expected to leave in its tensors: the kernel's value of every
  slot, and the shape the tensors keep.\<close>

definition F2 :: "config \<Rightarrow> field2 \<Rightarrow> int \<times> int \<times> int \<Rightarrow> double" where
  "F2 cfg T k = (case k of (x, z, p) \<Rightarrow> St2 cfg T x z p)"

definition Fpll :: "config \<Rightarrow> field3 \<Rightarrow> field3 \<Rightarrow> field3 \<Rightarrow> int \<times> int \<times> int \<times> int \<Rightarrow> double" where
  "Fpll cfg Ux Uy Uz k = (case k of (x, y, z, p) \<Rightarrow> Spll3 cfg Ux Uy Uz x y z p)"

definition Fperp :: "config \<Rightarrow> field3 \<Rightarrow> field3 \<Rightarrow> field3 \<Rightarrow> int \<times> int \<times> int \<times> int \<Rightarrow> double" where
  "Fperp cfg Ux Uy Uz k = (case k of (x, y, z, p) \<Rightarrow> Sperp3 cfg Ux Uy Uz x y z p)"

definition good3D ::
    "config \<Rightarrow> field3 \<Rightarrow> field3 \<Rightarrow> field3 \<Rightarrow> tensor4 \<times> tensor4 \<Rightarrow> (int \<times> int \<times> int \<times> int) set" where
  "good3D cfg Ux Uy Uz SF =
     {k. elems4 (fst SF) k = Fpll cfg Ux Uy Uz k \<and> elems4 (snd SF) k = Fperp cfg Ux Uy Uz k}"

definition shaped3D :: "int \<times> int \<times> int \<times> int \<Rightarrow> tensor4 \<times> tensor4 \<Rightarrow> bool" where
  "shaped3D shp SF \<longleftrightarrow> shape4 (fst SF) = shp \<and> shape4 (snd SF) = shp"

text \<open>Two sample configurations.\<close>

definition cfg4 :: config where
  "cfg4 = \<lparr>Nx = 4, Ny = 4, Nz = 4, q1 = 1, q2 = 2, dx = 1 / 3, dy = 1 / 3, dz = 1 / 3,
            P = 1, px = 1, two_dimension_switch = False,
            scalar_switch = False, longitudinal = False\<rparr>"










section \<open>Basic facts\<close>


lemma thn_Inl [simp]: "thn (Inl e) f = Inl e"
  by (simp add: thn_def)

lemma thn_Inr [simp]: "thn (Inr v) f = f v"
  by (simp add: thn_def)

lemma tdiv_nonneg: "0 \<le> a \<Longrightarrow> 0 < b \<Longrightarrow> tdiv a b = a div b"
  by (cases "a = 0") (simp_all add: tdiv_def)

lemma tmod_nonneg: "0 \<le> a \<Longrightarrow> 0 < b \<Longrightarrow> tmod a b = a mod b"
  by (simp add: tmod_def tdiv_nonneg minus_mult_div_eq_mod)

declare index_loop.simps [simp del]

lemma index_loop_done: "\<not> i < n \<Longrightarrow> index_loop Nh pn rnk n i a = Inr a"
  by (simp add: index_loop.simps [of Nh pn rnk n i a])

lemma index_loop_single:
  "i < n \<Longrightarrow> store1 a i (rnk + i * Nh) = Inr a1 \<Longrightarrow>
   index_loop Nh Nh rnk n i a = index_loop Nh Nh rnk n (i + 2) a1"
  by (subst index_loop.simps) simp

lemma index_loop_pair:
  "i < n \<Longrightarrow> pn \<noteq> Nh \<Longrightarrow> store1 a i (rnk + i * pn) = Inr a1 \<Longrightarrow> load1 a1 i = Inr v \<Longrightarrow>
   store1 a1 (i + 1) (Nh - 1 - v) = Inr a2 \<Longrightarrow>
   index_loop Nh pn rnk n i a = index_loop Nh pn rnk n (i + 2) a2"
  by (subst index_loop.simps) simp

lemma index_loop_closed:
  assumes "even i" and "0 \<le> i" and "extent1 a = n"
    and "(pn \<noteq> Nh \<and> even n) \<or> (pn = Nh \<and> n \<le> 1)"
  shows "\<exists>a'. index_loop Nh pn rnk n i a = Inr a' \<and> extent1 a' = n \<and>
           (\<forall>j. cells1 a' j = (if i \<le> j \<and> j < n then Some (entry Nh pn rnk j) else cells1 a j))"
  using assms
proof (induction Nh pn rnk n i a rule: index_loop.induct)
  case (1 Nh pn rnk n i a)
  show ?case
  proof (cases "i < n")
    case False
    then show ?thesis
      using "1.prems" by (auto simp: index_loop.simps [of Nh pn rnk n i a])
  next
    case True
    define a1 where "a1 = a\<lparr>cells1 := (cells1 a)(i \<mapsto> rnk + i * pn)\<rparr>"
    have st1: "store1 a i (rnk + i * pn) = Inr a1"
      using True "1.prems" by (simp add: store1_def a1_def)
    show ?thesis
    proof (cases "pn = Nh")
      case True
      with \<open>i < n\<close> "1.prems" have i0: "i = 0" and n1: "n = 1" by auto
      have "index_loop Nh pn rnk n (i + 2) a1 = Inr a1"
        using n1 i0 by (intro index_loop_done) simp
      then have "index_loop Nh pn rnk n i a = Inr a1"
        using True \<open>i < n\<close> st1 by (simp add: index_loop_single)
      moreover have "extent1 a1 = n"
        using "1.prems" by (simp add: a1_def)
      moreover have "\<forall>j. cells1 a1 j = (if i \<le> j \<and> j < n then Some (entry Nh pn rnk j) else cells1 a j)"
        using i0 n1 by (auto simp: a1_def entry_def)
      ultimately show ?thesis by blast
    next
      case False
      with "1.prems" have en: "even n" by auto
      have i1: "i + 1 < n"
        using \<open>i < n\<close> en "1.prems"(1) by presburger
      define a2 where "a2 = a1\<lparr>cells1 := (cells1 a1)(i + 1 \<mapsto> Nh - 1 - (rnk + i * pn))\<rparr>"
      have ld: "load1 a1 i = Inr (rnk + i * pn)"
        using \<open>i < n\<close> "1.prems" by (simp add: load1_def a1_def)
      have st2: "store1 a1 (i + 1) (Nh - 1 - (rnk + i * pn)) = Inr a2"
        using i1 "1.prems" by (simp add: store1_def a1_def a2_def)
      have "\<exists>a'. index_loop Nh pn rnk n (i + 2) a2 = Inr a' \<and> extent1 a' = n \<and>
              (\<forall>j. cells1 a' j = (if i + 2 \<le> j \<and> j < n then Some (entry Nh pn rnk j) else cells1 a2 j))"
      proof (rule "1.IH"(1) [OF \<open>i < n\<close> st1 False ld st2])
        show "even (i + 2)" using "1.prems" by simp
        show "0 \<le> i + 2" using "1.prems" by simp
        show "extent1 a2 = n" using "1.prems" by (simp add: a2_def a1_def)
        show "(pn \<noteq> Nh \<and> even n) \<or> (pn = Nh \<and> n \<le> 1)" using "1.prems" by simp
      qed
      then obtain a' where a': "index_loop Nh pn rnk n (i + 2) a2 = Inr a'" "extent1 a' = n"
        "\<forall>j. cells1 a' j = (if i + 2 \<le> j \<and> j < n then Some (entry Nh pn rnk j) else cells1 a2 j)"
        by blast
      have run: "index_loop Nh pn rnk n i a = Inr a'"
        using index_loop_pair [OF \<open>i < n\<close> False st1 ld st2] a'(1) by simp
      have "cells1 a' j = (if i \<le> j \<and> j < n then Some (entry Nh pn rnk j) else cells1 a j)" for j
      proof -
        consider "j = i" | "j = i + 1" | "j < i" | "i + 2 \<le> j" by linarith
        then show ?thesis
        proof cases
          case 1
          then show ?thesis
            using a'(3) \<open>i < n\<close> "1.prems"(1) by (simp add: a2_def a1_def entry_def)
        next
          case 2
          then show ?thesis
            using a'(3) i1 "1.prems"(1) by (simp add: a2_def a1_def entry_def)
        next
          case 3
          then show ?thesis
            using a'(3) by (simp add: a2_def a1_def)
        next
          case 4
          then show ?thesis
            using a'(3) by (simp add: a2_def a1_def)
        qed
      qed
      with run a'(2) show ?thesis by blast
    qed
  qed
qed

section \<open>The per-axis index list: entries and bounds\<close>

lemma compute_index_list1_ok:
  assumes "0 \<le> Nh" and "0 < pn" and "pn dvd Nh" and "even (Nh div pn) \<or> pn = Nh"
  shows "\<exists>a. compute_index_list1 Nh pn rnk = Inr a \<and> extent1 a = Nh div pn \<and>
           (\<forall>j. cells1 a j = (if 0 \<le> j \<and> j < Nh div pn then Some (entry Nh pn rnk j) else None))"
proof -
  let ?n = "Nh div pn"
  have n0: "0 \<le> ?n" using assms by (simp add: pos_imp_zdiv_nonneg_iff)
  have one: "pn = Nh \<Longrightarrow> ?n = 1" using assms by simp
  define a0 where "a0 = \<lparr>extent1 = ?n, cells1 = Map.empty\<rparr>"
  have cond: "(pn \<noteq> Nh \<and> even ?n) \<or> (pn = Nh \<and> ?n \<le> 1)"
    using assms one by auto
  have "\<exists>a'. index_loop Nh pn rnk ?n 0 a0 = Inr a' \<and> extent1 a' = ?n \<and>
           (\<forall>j. cells1 a' j = (if 0 \<le> j \<and> j < ?n then Some (entry Nh pn rnk j) else cells1 a0 j))"
    by (rule index_loop_closed [OF _ _ _ cond]) (simp_all add: a0_def)
  moreover have "compute_index_list1 Nh pn rnk = index_loop Nh pn rnk ?n 0 a0"
    using assms n0 by (simp add: compute_index_list1_def idiv_def resize1_def tdiv_nonneg a0_def)
  moreover have "cells1 a0 j = None" for j by (simp add: a0_def)
  ultimately show ?thesis by auto
qed

lemma entry_range:
  assumes "0 \<le> c" "c < p" "p dvd H" "0 \<le> j" "j < H div p" "even (H div p) \<or> p = H"
  shows "0 \<le> entry H p c j \<and> entry H p c j \<le> H - 1"
proof -
  obtain n where H: "H = p * n" using assms(3) by (auto simp: dvd_def)
  have p0: "0 < p" using assms by simp
  have n: "H div p = n" using H p0 by simp
  show ?thesis
  proof (cases "even j")
    case True
    have "j + 1 \<le> n" using assms n by simp
    then have "p * (j + 1) \<le> p * n" using p0 by (simp add: mult_le_cancel_left)
    then have "c + j * p \<le> H - 1" using assms(2) H by (simp add: algebra_simps)
    moreover have "0 \<le> j * p" using assms(4) p0 by simp
    ultimately show ?thesis using True assms(1) by (simp add: entry_def)
  next
    case False
    then have j1: "1 \<le> j" using assms(4) by (cases "j = 0") auto
    have "j \<le> n" using assms n by simp
    then have "p * j \<le> p * n" using p0 by (simp add: mult_le_cancel_left)
    then have "c + (j - 1) * p \<le> H - 1" using assms(2) H by (simp add: algebra_simps)
    moreover have "0 \<le> (j - 1) * p" using j1 p0 by simp
    ultimately show ?thesis using False assms(1) by (simp add: entry_def)
  qed
qed

text \<open>
  Claim C7, as amended. For a rank coordinate \<open>c\<close> with \<open>0 \<le> c < p\<close>, a half-size
  \<open>H \<ge> 0\<close> that \<open>p\<close> divides, and a list size \<open>H div p\<close> that is even (or \<open>p = H\<close>, a
  single entry), the per-axis list is produced, has length \<open>H div p\<close>, holds \<open>c + i * p\<close>
  at every even position \<open>i\<close> and \<open>H - 1 - (c + i * p)\<close> at the odd position \<open>i + 1\<close>
  after it; when \<open>p = H\<close> the list is the single entry \<open>c\<close>.
\<close>

theorem index_list_entries:
  assumes "0 \<le> c" and "c < p" and "p dvd H" and "0 \<le> H" and "even (H div p) \<or> p = H"
  shows "\<exists>a. compute_index_list1 H p c = Inr a \<and> extent1 a = H div p \<and>
           (\<forall>i. even i \<and> 0 \<le> i \<and> i < H div p \<longrightarrow> cells1 a i = Some (c + i * p)) \<and>
           (\<forall>i. even i \<and> 0 \<le> i \<and> i + 1 < H div p \<longrightarrow>
                cells1 a (i + 1) = Some (H - 1 - (c + i * p))) \<and>
           (p = H \<longrightarrow> extent1 a = 1 \<and> cells1 a = [0 \<mapsto> c])"
proof -
  have p0: "0 < p" using assms by simp
  obtain a where a: "compute_index_list1 H p c = Inr a" "extent1 a = H div p"
    "\<forall>j. cells1 a j = (if 0 \<le> j \<and> j < H div p then Some (entry H p c j) else None)"
    using compute_index_list1_ok [OF assms(4) p0 assms(3) assms(5)] by blast
  have e: "\<forall>i. even i \<and> 0 \<le> i \<and> i < H div p \<longrightarrow> cells1 a i = Some (c + i * p)"
    using a(3) by (simp add: entry_def)
  have od: "\<forall>i. even i \<and> 0 \<le> i \<and> i + 1 < H div p \<longrightarrow>
                cells1 a (i + 1) = Some (H - 1 - (c + i * p))"
    using a(3) by (simp add: entry_def)
  have one: "p = H \<longrightarrow> extent1 a = 1 \<and> cells1 a = [0 \<mapsto> c]"
  proof
    assume "p = H"
    then have "H div p = 1" using p0 by simp
    then show "extent1 a = 1 \<and> cells1 a = [0 \<mapsto> c]"
      using a(2,3) by (auto simp: entry_def fun_eq_iff)
  qed
  from a(1,2) e od one show ?thesis by blast
qed

theorem index_list_entries_witness:
  "\<exists>a. compute_index_list1 8 2 1 = Inr a \<and> extent1 a = 4 \<and>
      cells1 a 0 = Some 1 \<and> cells1 a 1 = Some 6 \<and> cells1 a 2 = Some 5 \<and> cells1 a 3 = Some 2"
proof -
  have "\<exists>a. compute_index_list1 8 2 1 = Inr a \<and> extent1 a = 8 div 2 \<and>
           (\<forall>i. even i \<and> 0 \<le> i \<and> i < 8 div 2 \<longrightarrow> cells1 a i = Some (1 + i * 2)) \<and>
           (\<forall>i. even i \<and> 0 \<le> i \<and> i + 1 < 8 div 2 \<longrightarrow>
                cells1 a (i + 1) = Some (8 - 1 - (1 + i * 2))) \<and>
           ((2::int) = 8 \<longrightarrow> extent1 a = 1 \<and> cells1 a = [0 \<mapsto> 1])"
    by (rule index_list_entries) simp_all
  then obtain a where a: "compute_index_list1 8 2 1 = Inr a" "extent1 a = 8 div 2"
      "\<forall>i. even i \<and> 0 \<le> i \<and> i < 8 div 2 \<longrightarrow> cells1 a i = Some (1 + i * 2)"
      "\<forall>i. even i \<and> 0 \<le> i \<and> i + 1 < 8 div 2 \<longrightarrow> cells1 a (i + 1) = Some (8 - 1 - (1 + i * 2))"
    by blast
  have "cells1 a 0 = Some 1" using a(3) [rule_format, of 0] by simp
  moreover have "cells1 a 2 = Some 5" using a(3) [rule_format, of 2] by simp
  moreover have "cells1 a 1 = Some 6" using a(4) [rule_format, of 0] by simp
  moreover have "cells1 a 3 = Some 2" using a(4) [rule_format, of 2] by simp
  ultimately show ?thesis using a(1,2) by simp
qed

text \<open>
  Claim C7 as stated asks only that \<open>p\<close> divide \<open>H\<close>. With \<open>H = 6\<close>, \<open>p = 2\<close>, \<open>c = 0\<close> the
  list has three cells; the iteration \<open>i = 2\<close> writes cell 2 and then, because \<open>px != Nx\<close>,
  cell 3, which is outside the list.
\<close>

theorem index_list_odd_size_counterexample:
  "(0::int) \<le> 0 \<and> (0::int) < 2 \<and> (2::int) dvd 6 \<and> compute_index_list1 6 2 0 = Inl OutOfBounds"
  by (simp add: compute_index_list1_def idiv_def tdiv_def resize1_def index_loop.simps store1_def load1_def)

text \<open>
  Claim C10. Under \<open>0 \<le> c < p\<close>, \<open>p\<close> dividing the half-size \<open>H \<ge> 0\<close>, and \<open>H div p\<close>
  even or \<open>p = H\<close>: no store of \<open>compute_index_list\<close> fails its bounds check (every store
  of the model is checked against \<open>[0, H div p)\<close>, so the result \<open>Inr\<close> says so), the cells
  written are exactly \<open>0 .. H div p - 1\<close>, every entry lies in \<open>[0, H - 1]\<close>, and when
  \<open>p = H\<close> the list is the single entry \<open>c\<close> with no complement written.
\<close>

theorem index_list_writes_in_bounds:
  assumes "0 \<le> c" and "c < p" and "p dvd H" and "0 \<le> H" and "even (H div p) \<or> p = H"
  shows "\<exists>a. compute_index_list1 H p c = Inr a \<and> extent1 a = H div p \<and>
           dom (cells1 a) = {0..<H div p} \<and>
           (\<forall>v\<in>ran (cells1 a). 0 \<le> v \<and> v \<le> H - 1) \<and>
           (p = H \<longrightarrow> cells1 a = [0 \<mapsto> c])"
proof -
  have p0: "0 < p" using assms by simp
  obtain a where a: "compute_index_list1 H p c = Inr a" "extent1 a = H div p"
    "\<forall>j. cells1 a j = (if 0 \<le> j \<and> j < H div p then Some (entry H p c j) else None)"
    using compute_index_list1_ok [OF assms(4) p0 assms(3) assms(5)] by blast
  have d: "dom (cells1 a) = {0..<H div p}"
    using a(3) by (auto simp: dom_def)
  have r: "\<forall>v\<in>ran (cells1 a). 0 \<le> v \<and> v \<le> H - 1"
  proof
    fix v assume "v \<in> ran (cells1 a)"
    then obtain j where "cells1 a j = Some v" by (auto simp: ran_def)
    with a(3) have j: "0 \<le> j" "j < H div p" "v = entry H p c j"
      by (auto split: if_splits)
    show "0 \<le> v \<and> v \<le> H - 1"
      unfolding j(3) by (rule entry_range [OF assms(1,2,3) j(1,2) assms(5)])
  qed
  have one: "p = H \<longrightarrow> cells1 a = [0 \<mapsto> c]"
  proof
    assume "p = H"
    then have "H div p = 1" using p0 by simp
    then show "cells1 a = [0 \<mapsto> c]"
      using a(3) by (auto simp: entry_def fun_eq_iff)
  qed
  from a(1,2) d r one show ?thesis by blast
qed

theorem index_list_writes_in_bounds_witness:
  "\<exists>a. compute_index_list1 4 4 3 = Inr a \<and> extent1 a = 1 \<and> dom (cells1 a) = {0..<1} \<and>
       cells1 a = [0 \<mapsto> 3]"
  using index_list_writes_in_bounds [of 3 4 4] by auto

section \<open>The pair count in 32 bits\<close>

lemma count3_eq: "count3 n1 n2 n3 x y z = signed_take_bit 31 ((n1 - x) * (n2 - y) * (n3 - z))"
proof -
  have "(word_of_int (n1 - x) * word_of_int (n2 - y) * word_of_int (n3 - z) :: 32 word)
      = word_of_int ((n1 - x) * (n2 - y) * (n3 - z))"
    by simp
  then show ?thesis unfolding count3_def by (simp only: sint_sbintrunc') simp
qed


lemma wrap32_mod: "signed_take_bit 31 k mod 2 ^ 32 = k mod (2 ^ 32 :: int)"
proof -
  have "take_bit 32 (signed_take_bit 31 k) = take_bit 32 k"
    by (simp add: take_bit_signed_take_bit)
  then show ?thesis by (simp add: take_bit_eq_mod)
qed

lemma wrap32_id: "0 \<le> k \<Longrightarrow> (signed_take_bit 31 k = k) = (k < (2 ^ 31 :: int))"
  by (auto simp: signed_take_bit_int_eq_self_iff)

text \<open>
  Claim C9. The pair count is the 32-bit product of the three extents: it agrees with the
  true product \<open>(Nx-x)*(Ny-y)*(Nz-z)\<close> modulo \<open>2^32\<close>, and for a displacement inside the
  grid it equals the true product exactly when that product is below \<open>2^31\<close>.
\<close>

theorem count3_wraps:
  assumes "0 < n1 - x" and "0 < n2 - y" and "0 < n3 - z"
  shows "count3 n1 n2 n3 x y z mod 2 ^ 32 = ((n1 - x) * (n2 - y) * (n3 - z)) mod 2 ^ 32 \<and>
         (count3 n1 n2 n3 x y z = (n1 - x) * (n2 - y) * (n3 - z)
            \<longleftrightarrow> (n1 - x) * (n2 - y) * (n3 - z) < 2 ^ 31)"
proof -
  have "0 \<le> (n1 - x) * (n2 - y) * (n3 - z)" using assms by simp
  then show ?thesis
    unfolding count3_eq by (simp only: wrap32_mod wrap32_id)
qed

theorem count3_wraps_witness:
  "count3 2048 2048 2048 1 0 0 mod 2 ^ 32 = (2047 * 2048 * 2048) mod 2 ^ 32 \<and>
   count3 2048 2048 2048 1 0 0 \<noteq> 2047 * 2048 * 2048 \<and>
   count3 32 32 32 1 0 0 = 31 * 32 * 32"
proof -
  have a: "count3 2048 2048 2048 1 0 0 mod 2 ^ 32 = ((2048 - 1) * (2048 - 0) * (2048 - 0)) mod 2 ^ 32 \<and>
         (count3 2048 2048 2048 1 0 0 = (2048 - 1) * (2048 - 0) * (2048 - 0)
            \<longleftrightarrow> ((2048 - 1) * (2048 - 0) * (2048 - 0) :: int) < 2 ^ 31)"
    by (rule count3_wraps) simp_all
  have b: "count3 32 32 32 1 0 0 mod 2 ^ 32 = ((32 - 1) * (32 - 0) * (32 - 0)) mod 2 ^ 32 \<and>
         (count3 32 32 32 1 0 0 = (32 - 1) * (32 - 0) * (32 - 0)
            \<longleftrightarrow> ((32 - 1) * (32 - 0) * (32 - 0) :: int) < 2 ^ 31)"
    by (rule count3_wraps) simp_all
  from a b show ?thesis by simp
qed

lemma not_pow2_3: "\<not> is_pow2 3"
proof
  assume "is_pow2 3"
  then obtain k :: nat where k: "(3::int) = 2 ^ k" by (auto simp: is_pow2_def)
  show False
  proof (cases k)
    case 0
    with k show False by simp
  next
    case (Suc m)
    have "even ((2::int) ^ Suc m)" by simp
    with k Suc have "even (3::int)" by metis
    then show False by simp
  qed
qed

text \<open>
  Claim C5 at a failing input: \<open>Nx = 12\<close>, \<open>px = 2\<close>, \<open>P = 2\<close>. \<open>(Nx/2) mod px = 0\<close> and the
  quotient is 3, not a power of two; the three checks of \<open>main\<close> all pass, and the
  per-axis list of rank 0 then stores outside its bounds.
\<close>

theorem validate_accepts_odd_quotient:
  "validate \<lparr>Nx = 12, Ny = 8, Nz = 8, q1 = 1, q2 = 2, dx = 1, dy = 1, dz = 1, P = 2, px = 2,
              two_dimension_switch = False,
              scalar_switch = False, longitudinal = False\<rparr> = Inr Accepted \<and>
   tmod (tdiv 12 2) 2 = 0 \<and> tdiv (tdiv 12 2) 2 = 3 \<and> \<not> is_pow2 3 \<and>
   compute_index_list1 (tdiv 12 2) 2 0 = Inl OutOfBounds"
proof -
  have "compute_index_list1 6 2 0 = Inl OutOfBounds"
    by (simp add: compute_index_list1_def idiv_def tdiv_def resize1_def index_loop.simps
        store1_def load1_def)
  then show ?thesis
    using not_pow2_3 by (simp add: validate_def imod_def idiv_def tmod_def tdiv_def)
qed

section \<open>The displacement table: closed form\<close>


lemma foldM_upto:
  assumes "Inv i s" and "i \<le> n"
    and "\<And>j t. i \<le> j \<Longrightarrow> j < n \<Longrightarrow> Inv j t \<Longrightarrow> \<exists>t'. f j t = Inr t' \<and> Inv (j + 1) t'"
  shows "\<exists>s'. foldM f [i..n - 1] s = Inr s' \<and> Inv n s'"
  using assms
proof (induction "nat (n - i)" arbitrary: i s)
  case 0
  then have "i = n" by simp
  then show ?case using "0.prems"(1) by simp
next
  case (Suc k)
  then have lt: "i < n" by linarith
  obtain t where t: "f i s = Inr t" "Inv (i + 1) t"
    using Suc.prems(3) [of i s] Suc.prems(1) lt by auto
  have "\<exists>s'. foldM f [i + 1..n - 1] t = Inr s' \<and> Inv n s'"
  proof (rule Suc.hyps(1))
    show "k = nat (n - (i + 1))" using Suc.hyps(2) by linarith
    show "Inv (i + 1) t" by (rule t(2))
    show "i + 1 \<le> n" using lt by simp
    show "\<And>j t. i + 1 \<le> j \<Longrightarrow> j < n \<Longrightarrow> Inv j t \<Longrightarrow> \<exists>t'. f j t = Inr t' \<and> Inv (j + 1) t'"
      using Suc.prems(3) by simp
  qed
  moreover have "[i..n - 1] = i # [i + 1..n - 1]"
    using lt by (simp add: upto_rec1)
  ultimately show ?case using t(1) by simp
qed

lemma get_rank_nonneg:
  assumes "0 \<le> r" and "0 < py"
  shows "get_rank r py = Inr (r div py, r mod py)"
proof -
  have "(r - r mod py) div py = r div py"
    by (simp add: minus_mod_eq_mult_div)
   moreover have "0 \<le> r - r mod py"
    using assms by (simp add: zmod_le_nonneg_dividend)
  ultimately show ?thesis
    using assms by (simp add: get_rank_def imod_def idiv_def tmod_nonneg tdiv_nonneg)
qed

lemma pow2_even_or_one: "is_pow2 n \<Longrightarrow> even n \<or> n = 1"
proof -
  assume "is_pow2 n"
  then obtain k :: nat where "n = 2 ^ k" by (auto simp: is_pow2_def)
  then show ?thesis by (cases k) simp_all
qed

lemma pow2_pos: "is_pow2 n \<Longrightarrow> 0 < n"
  by (auto simp: is_pow2_def)


lemma fill_rows_ok:
  assumes ext: "extent3 t = (L, 2, Pn)" and x: "extent1 x = nx" and y: "extent1 y = ny"
    and i: "0 \<le> i" "i < nx" and r: "0 \<le> r" "r < Pn" and ny: "0 < ny" and L: "nx * ny \<le> L"
  shows "\<exists>t'. fill_rows ny r x y i t = Inr t' \<and> extent3 t' = (L, 2, Pn) \<and>
           (\<forall>ix c q. cells3 t' (ix, c, q) =
              (if q = r \<and> ny * i \<le> ix \<and> ix < (i + 1) * ny \<and> (c = 0 \<or> c = 1)
               then (if c = 0 then cells1 x i else cells1 y (ix - ny * i))
               else cells3 t (ix, c, q)))"
proof -
  have lo: "0 \<le> ny * i" using i ny by simp
  have "(i + 1) * ny \<le> nx * ny" using i ny by (simp add: mult_le_cancel_right)
  then have hi: "(i + 1) * ny - 1 < L" using L by simp
  have lohi: "ny * i \<le> (i + 1) * ny - 1" using ny by (simp add: algebra_simps)
  have len: "(i + 1) * ny - 1 - ny * i + 1 = ny" by (simp add: algebra_simps)
  show ?thesis
    using ext x y i r lo hi lohi len
    by (auto simp: fill_rows_def peek1_def assign_rows_scalar_def assign_rows_array_def)
qed


lemma block_div_mod:
  fixes ix :: int
  assumes "0 < ny" and "ny * i \<le> ix" and "ix < (i + 1) * ny"
  shows "ix div ny = i" and "ix mod ny = ix - ny * i"
proof -
  define k where "k = ix - ny * i"
  have a: "ix = ny * i + k" by (simp add: k_def)
  have b: "0 \<le> k" "k < ny" using assms by (simp_all add: k_def algebra_simps)
  have "(ny * i + k) div ny = i"
    using assms(1) b by (simp add: div_pos_pos_trivial)
  then show "ix div ny = i" by (simp add: a)
  have "(ny * i + k) mod ny = k"
    using assms(1) b by (simp add: mod_pos_pos_trivial)
  then show "ix mod ny = ix - ny * i" by (simp add: a)
qed

lemma fill_rank_ok:
  assumes ext: "extent3 t = (L, 2, Pn)" and r: "0 \<le> r" "r < Pn"
    and N: "0 \<le> N1" "0 \<le> N2" and p: "0 < px cfg" "0 < py"
    and d1: "px cfg dvd N1 div 2" "even (N1 div 2 div px cfg) \<or> px cfg = N1 div 2"
    and d2: "py dvd N2 div 2" "even (N2 div 2 div py) \<or> py = N2 div 2"
    and nx: "nx = N1 div 2 div px cfg" and ny: "ny = N2 div 2 div py" "0 < ny"
    and L: "nx * ny \<le> L"
  shows "\<exists>t'. fill_rank cfg N1 N2 py nx ny r t = Inr t' \<and> extent3 t' = (L, 2, Pn) \<and>
           (\<forall>ix c q. cells3 t' (ix, c, q) =
              (if q = r \<and> 0 \<le> ix \<and> ix < nx * ny \<and> (c = 0 \<or> c = 1)
               then Some (if c = 0 then entry (N1 div 2) (px cfg) (r div py) (ix div ny)
                          else entry (N2 div 2) py (r mod py) (ix mod ny))
               else cells3 t (ix, c, q)))"
proof -
  let ?H1 = "N1 div 2" and ?H2 = "N2 div 2"
  let ?rx = "r div py" and ?ry = "r mod py"
  have H: "0 \<le> ?H1" "0 \<le> ?H2" using N by simp_all
  obtain x where x: "compute_index_list1 ?H1 (px cfg) ?rx = Inr x" "extent1 x = nx"
    "\<forall>j. cells1 x j = (if 0 \<le> j \<and> j < nx then Some (entry ?H1 (px cfg) ?rx j) else None)"
    using compute_index_list1_ok [OF H(1) p(1) d1] nx by blast
  obtain y where y: "compute_index_list1 ?H2 py ?ry = Inr y" "extent1 y = ny"
    "\<forall>j. cells1 y j = (if 0 \<le> j \<and> j < ny then Some (entry ?H2 py ?ry j) else None)"
    using compute_index_list1_ok [OF H(2) p(2) d2] ny by blast
  have nx0: "0 \<le> nx" using nx H p by (simp add: pos_imp_zdiv_nonneg_iff)
  define Inv where "Inv i u \<longleftrightarrow> extent3 u = (L, 2, Pn) \<and>
       (\<forall>ix c q. cells3 u (ix, c, q) =
          (if q = r \<and> 0 \<le> ix \<and> ix < i * ny \<and> (c = 0 \<or> c = 1)
           then Some (if c = 0 then entry ?H1 (px cfg) ?rx (ix div ny)
                      else entry ?H2 py ?ry (ix mod ny))
           else cells3 t (ix, c, q)))" for i and u :: array3
  have step: "\<exists>u'. fill_rows ny r x y i u = Inr u' \<and> Inv (i + 1) u'"
    if i: "0 \<le> i" "i < nx" and inv: "Inv i u" for i u
  proof -
    from inv have eu: "extent3 u = (L, 2, Pn)" by (simp add: Inv_def)
    obtain u' where u': "fill_rows ny r x y i u = Inr u'" "extent3 u' = (L, 2, Pn)"
      "\<forall>ix c q. cells3 u' (ix, c, q) =
              (if q = r \<and> ny * i \<le> ix \<and> ix < (i + 1) * ny \<and> (c = 0 \<or> c = 1)
               then (if c = 0 then cells1 x i else cells1 y (ix - ny * i))
               else cells3 u (ix, c, q))"
      using fill_rows_ok [OF eu x(2) y(2) i r ny(2) L] by blast
    have "cells3 u' (ix, c, q) =
          (if q = r \<and> 0 \<le> ix \<and> ix < (i + 1) * ny \<and> (c = 0 \<or> c = 1)
           then Some (if c = 0 then entry ?H1 (px cfg) ?rx (ix div ny)
                      else entry ?H2 py ?ry (ix mod ny))
           else cells3 t (ix, c, q))" for ix c q
    proof (cases "q = r \<and> ny * i \<le> ix \<and> ix < (i + 1) * ny \<and> (c = 0 \<or> c = 1)")
      case True
      then have blk: "ny * i \<le> ix" "ix < (i + 1) * ny" by simp_all
      have dm: "ix div ny = i" "ix mod ny = ix - ny * i"
        using block_div_mod [OF ny(2) blk] by simp_all
      have "0 \<le> ny * i" using i ny(2) by simp
      then have ix0: "0 \<le> ix" using blk by linarith
      have yb: "0 \<le> ix - ny * i" "ix - ny * i < ny" using blk by (simp_all add: algebra_simps)
      show ?thesis
        using True u'(3) x(3) y(3) i yb ix0 dm by auto
    next
      case False
      have "ix < i * ny \<Longrightarrow> ix < (i + 1) * ny" using ny(2) by (simp add: algebra_simps)
      moreover have "ix < (i + 1) * ny \<Longrightarrow> \<not> ny * i \<le> ix \<Longrightarrow> ix < i * ny"
        by (simp add: algebra_simps)
      moreover have "cells3 u' (ix, c, q) = cells3 u (ix, c, q)"
        using False u'(3) by auto
      ultimately show ?thesis
        using False inv by (auto simp: Inv_def algebra_simps)
    qed
    with u'(1,2) show ?thesis by (auto simp: Inv_def)
  qed
  have "Inv 0 t" using ext by (auto simp: Inv_def)
  then have "\<exists>t'. foldM (fill_rows ny r x y) [0..nx - 1] t = Inr t' \<and> Inv nx t'"
    using nx0 step by (rule foldM_upto)
  moreover have "fill_rank cfg N1 N2 py nx ny r t = foldM (fill_rows ny r x y) [0..nx - 1] t"
    using x(1) y(1) r p N by (simp add: fill_rank_def get_rank_nonneg tdiv_nonneg)
  ultimately show ?thesis by (simp add: Inv_def)
qed


lemma decomposition_sizes:
  assumes ok: "decomposition_ok cfg N1 N2" and ev: "even N1" "even N2"
  defines "py \<equiv> P cfg div px cfg"
  defines "nx \<equiv> N1 div 2 div px cfg" and "ny \<equiv> N2 div 2 div py"
  shows "0 < py" and "0 < nx" and "0 < ny" and "N1 * N2 div (4 * P cfg) = nx * ny"
    and "N1 div (2 * px cfg) = nx" and "N2 div (2 * py) = ny"
    and "N1 div 2 = px cfg * nx" and "N2 div 2 = py * ny" and "P cfg = px cfg * py"
    and "even nx \<or> px cfg = N1 div 2" and "even ny \<or> py = N2 div 2"
proof -
  from ok have p: "0 < px cfg" "0 < P cfg" "px cfg dvd P cfg"
    and d1: "px cfg dvd N1 div 2" and d2: "py dvd N2 div 2"
    and w1: "is_pow2 nx" and w2: "is_pow2 ny"
    by (simp_all add: decomposition_ok_def py_def nx_def ny_def)
  show P: "P cfg = px cfg * py" using p(3) by (simp add: py_def)
  show py: "0 < py" using p P by (metis zero_less_mult_pos)
  show nx: "0 < nx" using w1 by (rule pow2_pos)
  show ny: "0 < ny" using w2 by (rule pow2_pos)
  show H1: "N1 div 2 = px cfg * nx" using d1 by (simp add: nx_def)
  show H2: "N2 div 2 = py * ny" using d2 by (simp add: ny_def)
  have N1: "N1 = 2 * (px cfg * nx)" using ev(1) H1 by (metis dvd_mult_div_cancel)
  have N2: "N2 = 2 * (py * ny)" using ev(2) H2 by (metis dvd_mult_div_cancel)
  have "N1 * N2 = (4 * P cfg) * (nx * ny)"
    by (subst N1, subst N2, subst P) (simp add: algebra_simps)
  then show "N1 * N2 div (4 * P cfg) = nx * ny" using p(2) by simp
  show "N1 div (2 * px cfg) = nx"
    using p(1) by (simp add: nx_def zdiv_zmult2_eq)
  show "N2 div (2 * py) = ny"
    using py by (simp add: ny_def zdiv_zmult2_eq)
  show "even nx \<or> px cfg = N1 div 2"
    using pow2_even_or_one [OF w1] H1 by auto
  show "even ny \<or> py = N2 div 2"
    using pow2_even_or_one [OF w2] H2 by auto
qed

lemma compute_index_list3_ok:
  assumes ok: "decomposition_ok cfg N1 N2" and ev: "even N1" "even N2"
  shows "\<exists>t. compute_index_list3 cfg N1 N2 = Inr t \<and>
           extent3 t = (N1 * N2 div (4 * P cfg), 2, P cfg) \<and>
           (\<forall>ix c q. cells3 t (ix, c, q) =
              (if 0 \<le> q \<and> q < P cfg \<and> 0 \<le> ix \<and> ix < N1 * N2 div (4 * P cfg) \<and> (c = 0 \<or> c = 1)
               then Some (table_value cfg N1 N2 ix c q) else None))"
proof -
  define py where "py = P cfg div px cfg"
  define nx where "nx = N1 div 2 div px cfg"
  define ny where "ny = N2 div 2 div py"
  define L where "L = N1 * N2 div (4 * P cfg)"
  have sz: "0 < py" "0 < nx" "0 < ny" "L = nx * ny"
    "N1 div (2 * px cfg) = nx" "N2 div (2 * py) = ny"
    "N1 div 2 = px cfg * nx" "N2 div 2 = py * ny" "P cfg = px cfg * py"
    "even nx \<or> px cfg = N1 div 2" "even ny \<or> py = N2 div 2"
    using decomposition_sizes [OF ok ev] unfolding py_def nx_def ny_def L_def by blast+
  from ok have p: "0 < px cfg" "0 < P cfg" and N: "0 \<le> N1" "0 \<le> N2"
    and d1: "px cfg dvd N1 div 2" and d2: "py dvd N2 div 2"
    by (simp_all add: decomposition_ok_def py_def)
  define t0 where "t0 = \<lparr>extent3 = (L, 2, P cfg), cells3 = Map.empty\<rparr>"
  define Inv where "Inv k u \<longleftrightarrow> extent3 u = (L, 2, P cfg) \<and>
       (\<forall>ix c q. cells3 u (ix, c, q) =
          (if 0 \<le> q \<and> q < k \<and> 0 \<le> ix \<and> ix < L \<and> (c = 0 \<or> c = 1)
           then Some (table_value cfg N1 N2 ix c q) else None))" for k and u :: array3
  have step: "\<exists>u'. fill_rank cfg N1 N2 py nx ny r u = Inr u' \<and> Inv (r + 1) u'"
    if r: "0 \<le> r" "r < P cfg" and inv: "Inv r u" for r u
  proof -
    from inv have eu: "extent3 u = (L, 2, P cfg)" by (simp add: Inv_def)
    have LL: "nx * ny \<le> L" using sz(4) by simp
    obtain u' where u': "fill_rank cfg N1 N2 py nx ny r u = Inr u'" "extent3 u' = (L, 2, P cfg)"
      "\<forall>ix c q. cells3 u' (ix, c, q) =
              (if q = r \<and> 0 \<le> ix \<and> ix < nx * ny \<and> (c = 0 \<or> c = 1)
               then Some (if c = 0 then entry (N1 div 2) (px cfg) (r div py) (ix div ny)
                          else entry (N2 div 2) py (r mod py) (ix mod ny))
               else cells3 u (ix, c, q))"
      using fill_rank_ok [OF eu r N p(1) sz(1) d1 sz(10) [unfolded nx_def] d2
          sz(11) [unfolded ny_def] nx_def ny_def sz(3) LL]
      by blast
    have "cells3 u' (ix, c, q) =
          (if 0 \<le> q \<and> q < r + 1 \<and> 0 \<le> ix \<and> ix < L \<and> (c = 0 \<or> c = 1)
           then Some (table_value cfg N1 N2 ix c q) else None)" for ix c q
    proof (cases "q = r")
      case True
      then show ?thesis
        using u'(3) r inv sz(4)
        by (auto simp: Inv_def table_value_def Let_def py_def ny_def)
    next
      case False
      then show ?thesis
        using u'(3) inv by (auto simp: Inv_def)
    qed
    with u'(1,2) show ?thesis by (auto simp: Inv_def)
  qed
  have "Inv 0 t0" by (auto simp: Inv_def t0_def)
  then have run: "\<exists>t'. foldM (fill_rank cfg N1 N2 py nx ny) [0..P cfg - 1] t0 = Inr t' \<and> Inv (P cfg) t'"
    using _ step by (rule foldM_upto) (use p in simp)
  have a: "idiv (N1 * N2) (4 * P cfg) = Inr L"
    using p N by (simp add: idiv_def tdiv_nonneg L_def)
  have "\<not> L < 0" using sz(2) sz(3) sz(4) by (simp add: not_less)
  then have b: "resize3 (L, 2, P cfg) = Inr t0"
    using p by (simp add: resize3_def t0_def)
  have c: "idiv (P cfg) (px cfg) = Inr py"
    using p by (simp add: idiv_def tdiv_nonneg py_def)
  have d: "idiv N1 (2 * px cfg) = Inr nx"
    using p N sz(5) by (simp add: idiv_def tdiv_nonneg)
  have e: "idiv N2 (2 * py) = Inr ny"
    using sz(1) N sz(6) by (simp add: idiv_def tdiv_nonneg)
  have "compute_index_list3 cfg N1 N2 = foldM (fill_rank cfg N1 N2 py nx ny) [0..P cfg - 1] t0"
    by (simp add: compute_index_list3_def a b c d e)
  with run show ?thesis by (auto simp: Inv_def L_def)
qed

section \<open>The displacement table: range, coverage, ranks\<close>


lemma entry_inj_rank: "entry H p c1 j = entry H p c2 j \<Longrightarrow> c1 = c2"
  by (simp add: entry_def split: if_splits)

lemma idiv_less:
  fixes a b c :: int
  assumes "0 < b" and "a < c * b"
  shows "a div b < c"
proof (rule ccontr)
  assume "\<not> a div b < c"
  then have "c \<le> a div b" by simp
  then have "c * b \<le> (a div b) * b" using assms(1) by (simp add: mult_le_cancel_right)
  moreover have "(a div b) * b \<le> a"
    using div_mult_mod_eq [of a b] pos_mod_sign [OF assms(1), of a] by linarith
  ultimately show False using assms(2) by linarith
qed

lemma entry_cover:
  assumes p: "0 < p" and d: "p dvd H" and e: "even (H div p) \<or> p = H"
    and v: "0 \<le> v" "v < H"
  shows "\<exists>c j. 0 \<le> c \<and> c < p \<and> 0 \<le> j \<and> j < H div p \<and> entry H p c j = v"
proof -
  define n where "n = H div p"
  have H: "H = p * n" using d by (simp add: n_def)
  define b where "b = v div p"
  define c0 where "c0 = v mod p"
  have vb: "v = b * p + c0" by (simp add: b_def c0_def)
  have c0: "0 \<le> c0" "c0 < p" using p by (simp_all add: c0_def)
  have b0: "0 \<le> b" using v p by (simp add: b_def pos_imp_zdiv_nonneg_iff)
  have bn: "b < n"
  proof (rule ccontr)
    assume "\<not> b < n"
    then have "n \<le> b" by simp
    then have "p * n \<le> p * b" using p by (simp add: mult_le_cancel_left)
    then have "H \<le> b * p" using H by (simp add: mult.commute)
    then have "H \<le> v" using vb c0 by linarith
    then show False using v by simp
  qed
  show ?thesis
  proof (cases "even b")
    case True
    then have "entry H p c0 b = v" using vb by (simp add: entry_def)
    then show ?thesis using c0 b0 bn unfolding n_def by blast
  next
    case False
    then have b1: "1 \<le> b" using b0 by (cases "b = 0") auto
    then have "n \<noteq> 1" using bn by simp
    then have "p \<noteq> H" using H p by auto
    then have en: "even n" using e by (simp add: n_def)
    define c where "c = p - 1 - c0"
    define j where "j = n - b"
    have c: "0 \<le> c" "c < p" using c0 by (simp_all add: c_def)
    have j: "0 \<le> j" "j < n" "odd j" using bn b1 en False by (simp_all add: j_def)
    have "H - 1 - (c + (j - 1) * p) = v"
      by (simp add: H c_def j_def vb algebra_simps)
    then have "entry H p c j = v" using j(3) by (simp add: entry_def)
    then show ?thesis using c j unfolding n_def by blast
  qed
qed

lemma table_range:
  assumes ok: "decomposition_ok cfg N1 N2"
    and ix: "0 \<le> ix" "ix < (N1 div 2 div px cfg) * (N2 div 2 div (P cfg div px cfg))"
    and r: "0 \<le> r" "r < P cfg"
  shows "0 \<le> table_value cfg N1 N2 ix 0 r \<and> table_value cfg N1 N2 ix 0 r < N1 div 2 \<and>
         0 \<le> table_value cfg N1 N2 ix 1 r \<and> table_value cfg N1 N2 ix 1 r < N2 div 2"
proof -
  define py where "py = P cfg div px cfg"
  define nx where "nx = N1 div 2 div px cfg"
  define ny where "ny = N2 div 2 div py"
  from ok have p: "0 < px cfg" "0 < P cfg" "px cfg dvd P cfg"
    and d1: "px cfg dvd N1 div 2" and d2: "py dvd N2 div 2"
    and w1: "is_pow2 nx" and w2: "is_pow2 ny"
    by (simp_all add: decomposition_ok_def py_def nx_def ny_def)
  have P: "P cfg = px cfg * py" using p(3) by (simp add: py_def)
  have py: "0 < py" using p P by (metis zero_less_mult_pos)
  have nx: "0 < nx" using w1 by (rule pow2_pos)
  have ny: "0 < ny" using w2 by (rule pow2_pos)
  have e1: "even nx \<or> px cfg = N1 div 2"
    using pow2_even_or_one [OF w1] d1 by (auto simp: nx_def)
  have e2: "even ny \<or> py = N2 div 2"
    using pow2_even_or_one [OF w2] d2 by (auto simp: ny_def)
  have rx: "0 \<le> r div py" "r div py < px cfg"
    using r py P by (simp_all add: pos_imp_zdiv_nonneg_iff idiv_less)
  have ry: "0 \<le> r mod py" "r mod py < py" using py by simp_all
  have jx: "0 \<le> ix div ny" "ix div ny < nx"
    using ix ny by (simp_all add: pos_imp_zdiv_nonneg_iff idiv_less nx_def ny_def py_def)
  have jy: "0 \<le> ix mod ny" "ix mod ny < ny" using ny by simp_all
  have "0 \<le> entry (N1 div 2) (px cfg) (r div py) (ix div ny) \<and>
        entry (N1 div 2) (px cfg) (r div py) (ix div ny) \<le> N1 div 2 - 1"
    using jx e1 by (intro entry_range [OF rx d1]) (simp_all add: nx_def)
  moreover have "0 \<le> entry (N2 div 2) py (r mod py) (ix mod ny) \<and>
        entry (N2 div 2) py (r mod py) (ix mod ny) \<le> N2 div 2 - 1"
    using jy e2 by (intro entry_range [OF ry d2]) (simp_all add: ny_def)
  ultimately show ?thesis
    by (simp add: table_value_def Let_def py_def [symmetric] ny_def [symmetric])
qed

lemma table_cover:
  assumes ok: "decomposition_ok cfg N1 N2"
    and x: "0 \<le> x" "x < N1 div 2" and y: "0 \<le> y" "y < N2 div 2"
  shows "\<exists>ix r. 0 \<le> ix \<and> ix < (N1 div 2 div px cfg) * (N2 div 2 div (P cfg div px cfg)) \<and>
           0 \<le> r \<and> r < P cfg \<and>
           table_value cfg N1 N2 ix 0 r = x \<and> table_value cfg N1 N2 ix 1 r = y"
proof -
  define py where "py = P cfg div px cfg"
  define nx where "nx = N1 div 2 div px cfg"
  define ny where "ny = N2 div 2 div py"
  from ok have p: "0 < px cfg" "0 < P cfg" "px cfg dvd P cfg"
    and d1: "px cfg dvd N1 div 2" and d2: "py dvd N2 div 2"
    and w1: "is_pow2 nx" and w2: "is_pow2 ny"
    by (simp_all add: decomposition_ok_def py_def nx_def ny_def)
  have P: "P cfg = px cfg * py" using p(3) by (simp add: py_def)
  have py: "0 < py" using p P by (metis zero_less_mult_pos)
  have ny: "0 < ny" using w2 by (rule pow2_pos)
  have e1: "even (N1 div 2 div px cfg) \<or> px cfg = N1 div 2"
    using pow2_even_or_one [OF w1] d1 by (auto simp: nx_def)
  have e2: "even (N2 div 2 div py) \<or> py = N2 div 2"
    using pow2_even_or_one [OF w2] d2 by (auto simp: ny_def)
  obtain cx jx where cx: "0 \<le> cx" "cx < px cfg" "0 \<le> jx" "jx < nx"
      "entry (N1 div 2) (px cfg) cx jx = x"
    using entry_cover [OF p(1) d1 e1 x] unfolding nx_def by blast
  obtain cy jy where cy: "0 \<le> cy" "cy < py" "0 \<le> jy" "jy < ny"
      "entry (N2 div 2) py cy jy = y"
    using entry_cover [OF py d2 e2 y] unfolding ny_def by blast
  define r where "r = cx * py + cy"
  define ix where "ix = jx * ny + jy"
  have rdm: "r div py = cx" "r mod py = cy"
    using cy(1,2) py by (simp_all add: r_def div_pos_pos_trivial mod_pos_pos_trivial)
  have idm: "ix div ny = jx" "ix mod ny = jy"
    using cy(3,4) ny by (simp_all add: ix_def div_pos_pos_trivial mod_pos_pos_trivial)
  have r0: "0 \<le> r" using cx(1) cy(1) py by (simp add: r_def)
  have "cx + 1 \<le> px cfg" using cx(2) by simp
  then have "(cx + 1) * py \<le> px cfg * py" using py by (simp add: mult_le_cancel_right)
  then have rP: "r < P cfg" using cy(2) P by (simp add: r_def algebra_simps)
  have i0: "0 \<le> ix" using cx(3) cy(3) ny by (simp add: ix_def)
  have "jx + 1 \<le> nx" using cx(4) by simp
  then have "(jx + 1) * ny \<le> nx * ny" using ny by (simp add: mult_le_cancel_right)
  then have iL: "ix < nx * ny" using cy(4) by (simp add: ix_def algebra_simps)
  have "table_value cfg N1 N2 ix 0 r = x \<and> table_value cfg N1 N2 ix 1 r = y"
    using cx(5) cy(5) rdm idm
    by (simp add: table_value_def Let_def py_def [symmetric] ny_def [symmetric])
  with r0 rP i0 iL show ?thesis unfolding nx_def ny_def py_def by blast
qed

lemma table_distinct_ranks:
  assumes ok: "decomposition_ok cfg N1 N2"
    and r: "0 \<le> r1" "0 \<le> r2" "r1 \<noteq> r2"
  shows "table_value cfg N1 N2 ix 0 r1 \<noteq> table_value cfg N1 N2 ix 0 r2 \<or>
         table_value cfg N1 N2 ix 1 r1 \<noteq> table_value cfg N1 N2 ix 1 r2"
proof (rule ccontr)
  assume "\<not> ?thesis"
  then have "r1 div (P cfg div px cfg) = r2 div (P cfg div px cfg)"
      "r1 mod (P cfg div px cfg) = r2 mod (P cfg div px cfg)"
    by (auto simp: table_value_def Let_def dest: entry_inj_rank)
  then have "r1 = r2" by (metis div_mult_mod_eq)
  with r(3) show False by simp
qed

section \<open>The displacement table on even grids: an exact partition\<close>

lemma half_sizes_pos:
  assumes ok: "decomposition_ok cfg N1 N2"
  shows "0 < N1 div 2" and "0 < N2 div 2"
proof -
  from ok have p: "0 < px cfg" "0 < P cfg" "px cfg dvd P cfg"
    and d1: "px cfg dvd N1 div 2" and d2: "P cfg div px cfg dvd N2 div 2"
    and w1: "is_pow2 (N1 div 2 div px cfg)" and w2: "is_pow2 (N2 div 2 div (P cfg div px cfg))"
    by (simp_all add: decomposition_ok_def)
  have "P cfg = px cfg * (P cfg div px cfg)" using p(3) by simp
  then have py: "0 < P cfg div px cfg" using p by (metis zero_less_mult_pos)
  have "0 < px cfg * (N1 div 2 div px cfg)" using p(1) pow2_pos [OF w1] by simp
  then show "0 < N1 div 2" using d1 by simp
  have "0 < (P cfg div px cfg) * (N2 div 2 div (P cfg div px cfg))" using py pow2_pos [OF w2] by simp
  then show "0 < N2 div 2" using d2 by simp
qed

lemma rank_pair_table:
  assumes "extent3 t = (L, 2, Pn)"
    and "\<forall>ix c q. cells3 t (ix, c, q) =
              (if 0 \<le> q \<and> q < Pn \<and> 0 \<le> ix \<and> ix < L \<and> (c = 0 \<or> c = 1)
               then Some (tv ix c q) else None)"
    and "0 \<le> ix" "ix < L" "0 \<le> r" "r < Pn"
  shows "rank_pair t ix r = Inr (tv ix 0 r, tv ix 1 r)"
  using assms by (simp add: rank_pair_def load3_def)

text \<open>
  On an even grid that meets the pre-run constraints, the pairs of all ranks are exactly the
  half-domain, each once.
\<close>

lemma partition_exact_on_even_grids:
  assumes ok: "decomposition_ok cfg N1 N2" and ev: "even N1" "even N2"
  shows "set (all_pairs cfg N1 N2) = {(x, y). 0 \<le> x \<and> x < N1 div 2 \<and> 0 \<le> y \<and> y < N2 div 2}"
    and "distinct (all_pairs cfg N1 N2)"
proof -
  define L where "L = N1 * N2 div (4 * P cfg)"
  note sz = decomposition_sizes [OF ok ev]
  from ok have p: "0 < px cfg" "0 < P cfg" by (simp_all add: decomposition_ok_def)
  have Lnn: "L = (N1 div 2 div px cfg) * (N2 div 2 div (P cfg div px cfg))"
    using sz(4) by (simp add: L_def)
  have H: "0 < N1 div 2" "0 < N2 div 2" using half_sizes_pos [OF ok] by simp_all
  show set_eq: "set (all_pairs cfg N1 N2) = {(x, y). 0 \<le> x \<and> x < N1 div 2 \<and> 0 \<le> y \<and> y < N2 div 2}"
  proof (intro set_eqI iffI)
    fix v assume "v \<in> set (all_pairs cfg N1 N2)"
    then obtain r ix where v: "v = (table_value cfg N1 N2 ix 0 r, table_value cfg N1 N2 ix 1 r)"
      and b: "0 \<le> r" "r < P cfg" "0 \<le> ix" "ix < L"
      by (auto simp: all_pairs_def L_def)
    show "v \<in> {(x, y). 0 \<le> x \<and> x < N1 div 2 \<and> 0 \<le> y \<and> y < N2 div 2}"
      unfolding v using table_range [OF ok b(3) b(4) [unfolded Lnn] b(1,2)] by simp
  next
    fix v assume "v \<in> {(x, y). 0 \<le> x \<and> x < N1 div 2 \<and> 0 \<le> y \<and> y < N2 div 2}"
    then obtain x y where v: "v = (x, y)" and b: "0 \<le> x" "x < N1 div 2" "0 \<le> y" "y < N2 div 2"
      by auto
    obtain ix r where "0 \<le> ix" "ix < L" "0 \<le> r" "r < P cfg"
        "table_value cfg N1 N2 ix 0 r = x" "table_value cfg N1 N2 ix 1 r = y"
      using table_cover [OF ok b] unfolding Lnn by blast
    then show "v \<in> set (all_pairs cfg N1 N2)"
      unfolding v all_pairs_def L_def [symmetric] by force
  qed
  have "{(x, y). 0 \<le> x \<and> x < N1 div 2 \<and> 0 \<le> y \<and> y < N2 div 2}
          = {0..<N1 div 2} \<times> {0..<N2 div 2}" by auto
  then have "card (set (all_pairs cfg N1 N2)) = nat (N1 div 2) * nat (N2 div 2)"
    unfolding set_eq by (simp add: card_cartesian_product)
  moreover have "length (all_pairs cfg N1 N2) = nat (P cfg) * nat L"
    by (simp add: all_pairs_def L_def)
  moreover have "P cfg * L = (N1 div 2) * (N2 div 2)"
  proof -
    define py where "py = P cfg div px cfg"
    define nx where "nx = N1 div 2 div px cfg"
    define ny where "ny = N2 div 2 div py"
    have e: "P cfg = px cfg * py" "N1 div 2 = px cfg * nx" "N2 div 2 = py * ny" "L = nx * ny"
      using sz(7,8,9) Lnn by (simp_all add: py_def nx_def ny_def)
    show ?thesis unfolding e by (simp add: algebra_simps)
  qed
  then have "nat (P cfg) * nat L = nat (N1 div 2) * nat (N2 div 2)"
    using p H by (metis nat_mult_distrib less_imp_le)
  ultimately have "card (set (all_pairs cfg N1 N2)) = length (all_pairs cfg N1 N2)" by simp
  then show "distinct (all_pairs cfg N1 N2)" by (rule card_distinct)
qed

lemma gathered_pairs_closed_form:
  assumes ok: "decomposition_ok cfg N1 N2" and ev: "even N1" "even N2"
  shows "\<exists>t. compute_index_list3 cfg N1 N2 = Inr t \<and>
           gathered_pairs cfg t (N1 * N2 div (4 * P cfg)) = map Inr (all_pairs cfg N1 N2)"
proof -
  define L where "L = N1 * N2 div (4 * P cfg)"
  define tv where "tv = table_value cfg N1 N2"
  obtain tbl where tbl: "compute_index_list3 cfg N1 N2 = Inr tbl"
      "extent3 tbl = (L, 2, P cfg)"
      "\<forall>ix c q. cells3 tbl (ix, c, q) =
              (if 0 \<le> q \<and> q < P cfg \<and> 0 \<le> ix \<and> ix < L \<and> (c = 0 \<or> c = 1)
               then Some (tv ix c q) else None)"
    using compute_index_list3_ok [OF ok ev] unfolding L_def tv_def by blast
  have "rank_pair tbl ix r = Inr (tv ix 0 r, tv ix 1 r)"
    if "(r, ix) \<in> set (List.product [0..P cfg - 1] [0..L - 1])" for r ix
  proof -
    from that have b: "0 \<le> ix" "ix < L" "0 \<le> r" "r < P cfg" by simp_all
    show ?thesis by (rule rank_pair_table [OF tbl(2,3) b])
  qed
  then have "gathered_pairs cfg tbl L = map Inr (all_pairs cfg N1 N2)"
    unfolding gathered_pairs_def all_pairs_def L_def [symmetric] tv_def [symmetric]
    by (auto simp: o_def split_beta intro!: map_cong)
  with tbl(1) show ?thesis unfolding L_def by blast
qed

section \<open>The displacement table on grids of odd size\<close>


lemmas table_eval =
  compute_index_list3_def idiv_def imod_def tdiv_def tmod_def resize3_def
  fill_rank_def get_rank_def compute_index_list1_def resize1_def index_loop.simps
  store1_def load1_def fill_rows_def peek1_def assign_rows_scalar_def assign_rows_array_def
  rank_pair_def load3_def upto.simps

text \<open>
  Claim C2 at a failing input: \<open>Nx = 3\<close>, \<open>Ny = 4\<close>, \<open>P = 1\<close>, \<open>px = 1\<close>. The constraints
  hold (\<open>px\<close> divides \<open>P\<close>, \<open>Nx/2 = 1\<close> and \<open>Ny/2 = 2\<close> are divisible with quotients 1 and 2), and
  the half-domain has the two displacements (0,0) and (0,1). The table has
  \<open>list_size = (3*4)/(4*1) = 3\<close> rows but only \<open>nx * ny = 1 * 2\<close> of them are written: rows 0
  and 1 already list the half-domain, and row 2, which the drivers read at \<open>ix = 2\<close>, is never
  written.
\<close>

theorem odd_grid_table_has_unwritten_row:
  "decomposition_ok \<lparr>Nx = 3, Ny = 4, Nz = 4, q1 = 1, q2 = 2, dx = 1, dy = 1, dz = 1, P = 1, px = 1,
        two_dimension_switch = False,
        scalar_switch = False, longitudinal = False\<rparr> 3 4 \<and>
   (\<exists>t. compute_index_list3 \<lparr>Nx = 3, Ny = 4, Nz = 4, q1 = 1, q2 = 2, dx = 1, dy = 1, dz = 1,
        P = 1, px = 1, two_dimension_switch = False,
        scalar_switch = False, longitudinal = False\<rparr> 3 4 = Inr t \<and>
      extent3 t = (3, 2, 1) \<and>
      rank_pair t 0 0 = Inr (0, 0) \<and> rank_pair t 1 0 = Inr (0, 1) \<and>
      cells3 t (2, 0, 0) = None \<and> cells3 t (2, 1, 0) = None \<and>
      rank_pair t 2 0 = Inl Uninitialised)"
proof -
  have "is_pow2 1" using is_pow2_def [of 1] by (metis power_0)
  moreover have "is_pow2 2" using is_pow2_def [of 2] by (metis power_one_right)
  ultimately have "decomposition_ok \<lparr>Nx = 3, Ny = 4, Nz = 4, q1 = 1, q2 = 2, dx = 1, dy = 1, dz = 1,
        P = 1, px = 1, two_dimension_switch = False,
        scalar_switch = False, longitudinal = False\<rparr> 3 4"
    by (simp add: decomposition_ok_def)
  then show ?thesis by (simp add: table_eval)
qed

text \<open>
  Claim C8 at a failing input: \<open>Nx = 5\<close>, \<open>Ny = 8\<close>, \<open>P = 2\<close>, \<open>px = 1\<close>. The table has
  \<open>list_size = 40/8 = 5\<close> rows per rank, of which \<open>nx * ny = 2 * 2\<close> are written. At the
  iteration \<open>ix = 4\<close> both ranks read a row that was never written, so the two pairs that go
  into that gather are not two distinct displacements.
\<close>

theorem odd_grid_gather_reads_unwritten_rows:
  "decomposition_ok \<lparr>Nx = 5, Ny = 8, Nz = 4, q1 = 1, q2 = 2, dx = 1, dy = 1, dz = 1, P = 2, px = 1,
        two_dimension_switch = False,
        scalar_switch = False, longitudinal = False\<rparr> 5 8 \<and>
   (\<exists>t. compute_index_list3 \<lparr>Nx = 5, Ny = 8, Nz = 4, q1 = 1, q2 = 2, dx = 1, dy = 1, dz = 1,
        P = 2, px = 1, two_dimension_switch = False,
        scalar_switch = False, longitudinal = False\<rparr> 5 8 = Inr t \<and>
      extent3 t = (5, 2, 2) \<and>
      rank_pair t 3 0 = Inr (1, 3) \<and> rank_pair t 3 1 = Inr (1, 2) \<and>
      cells3 t (4, 0, 0) = cells3 t (4, 0, 1) \<and> cells3 t (4, 1, 0) = cells3 t (4, 1, 1) \<and>
      rank_pair t 4 0 = Inl Uninitialised \<and> rank_pair t 4 1 = Inl Uninitialised)"
proof -
  have "is_pow2 2" using is_pow2_def [of 2] by (metis power_one_right)
  then have "decomposition_ok \<lparr>Nx = 5, Ny = 8, Nz = 4, q1 = 1, q2 = 2, dx = 1, dy = 1, dz = 1,
        P = 2, px = 1, two_dimension_switch = False,
        scalar_switch = False, longitudinal = False\<rparr> 5 8"
    by (simp add: decomposition_ok_def)
  then show ?thesis by (simp add: table_eval)
qed

section \<open>The drivers: what rank 0 holds after the loops\<close>

lemma foldM_grow:
  assumes "Inv s"
    and "\<And>j t. j \<in> set xs \<Longrightarrow> Inv t \<Longrightarrow>
           \<exists>t'. f j t = Inr t' \<and> Inv t' \<and> G t \<subseteq> G t' \<and> W j \<subseteq> G t'"
  shows "\<exists>s'. foldM f xs s = Inr s' \<and> Inv s' \<and> G s \<subseteq> G s' \<and> (\<Union>j\<in>set xs. W j) \<subseteq> G s'"
  using assms
proof (induction xs arbitrary: s)
  case Nil
  then show ?case by simp
next
  case (Cons x xs)
  obtain t where t: "f x s = Inr t" "Inv t" "G s \<subseteq> G t" "W x \<subseteq> G t"
    using Cons.prems(2) [of x s] Cons.prems(1) by auto
  obtain s' where s': "foldM f xs t = Inr s'" "Inv s'" "G t \<subseteq> G s'" "(\<Union>j\<in>set xs. W j) \<subseteq> G s'"
    using Cons.IH [OF t(2)] Cons.prems(2) by (metis list.set_intros(2))
  have "foldM f (x # xs) s = Inr s'" using t(1) s'(1) by simp
  moreover have "G s \<subseteq> G s'" using t(3) s'(3) by blast
  moreover have "(\<Union>j\<in>set (x # xs). W j) \<subseteq> G s'" using t(4) s'(3,4) by auto
  ultimately show ?case using s'(2) by blast
qed

lemma foldM_preserves:
  assumes "foldM f xs s = Inr s'" and "Q s"
    and "\<And>j t t'. f j t = Inr t' \<Longrightarrow> Q t \<Longrightarrow> Q t'"
  shows "Q s'"
  using assms
proof (induction xs arbitrary: s)
  case Nil
  then show ?case by simp
next
  case (Cons x xs)
  from Cons.prems(1) obtain t where t: "f x s = Inr t" "foldM f xs t = Inr s'"
    by (cases "f x s") simp_all
  have "Q t" using Cons.prems(3) [OF t(1) Cons.prems(2)] .
  then show ?case using Cons.IH [OF t(2)] Cons.prems(3) by blast
qed

lemma gather_write_scalar_2D_step:
  assumes sh: "shape3 S = (Nx cfg div 2, Nz cfg div 2, M)"
    and rp: "rank_pair tbl ix i = Inr (x, z)"
    and x: "0 \<le> x" "x < Nx cfg div 2" and z: "0 \<le> z" "z < Nz cfg div 2"
    and p: "0 \<le> p" "p < M"
  shows "\<exists>S'. gather_write_scalar_2D cfg T tbl ix p i S = Inr S' \<and>
           shape3 S' = (Nx cfg div 2, Nz cfg div 2, M) \<and>
           {k. elems3 S k = F2 cfg T k} \<subseteq> {k. elems3 S' k = F2 cfg T k} \<and>
           {(x, z, p)} \<subseteq> {k. elems3 S' k = F2 cfg T k}"
proof -
  have "x < Nx cfg" "z < Nz cfg" using x z by linarith+
  then have "slices_ok2 cfg x z" using x z by (simp add: slices_ok2_def)
  then show ?thesis
    using sh rp x z p
    by (auto simp: gather_write_scalar_2D_def put3_def F2_def)
qed

lemma SF_scalar_2D_ok:
  assumes ok: "decomposition_ok cfg (Nx cfg) (Nz cfg)" and ev: "even (Nx cfg)" "even (Nz cfg)"
    and sh: "shape3 S = (Nx cfg div 2, Nz cfg div 2, q2 cfg - q1 cfg + 1)"
  shows "\<exists>S'. SF_scalar_2D cfg T S = Inr S' \<and>
           shape3 S' = (Nx cfg div 2, Nz cfg div 2, q2 cfg - q1 cfg + 1) \<and>
           (\<forall>x z p. 0 \<le> x \<and> x < Nx cfg div 2 \<and> 0 \<le> z \<and> z < Nz cfg div 2 \<and>
                    0 \<le> p \<and> p \<le> q2 cfg - q1 cfg \<longrightarrow>
              elems3 S' (x, z, p) = (if x = 0 \<and> z = 0 then Fin 0 else St2 cfg T x z p))"
proof -
  define L where "L = Nx cfg * Nz cfg div (4 * P cfg)"
  define M where "M = q2 cfg - q1 cfg + 1"
  define tv where "tv = table_value cfg (Nx cfg) (Nz cfg)"
  note sz = decomposition_sizes [OF ok ev]
  from ok have p: "0 < px cfg" "0 < P cfg" and N: "0 \<le> Nx cfg" "0 \<le> Nz cfg"
    by (simp_all add: decomposition_ok_def)
  have Lnn: "L = (Nx cfg div 2 div px cfg) * (Nz cfg div 2 div (P cfg div px cfg))"
    using sz(4) by (simp add: L_def)
  obtain tbl where tbl: "compute_index_list3 cfg (Nx cfg) (Nz cfg) = Inr tbl"
      "extent3 tbl = (L, 2, P cfg)"
      "\<forall>ix c q. cells3 tbl (ix, c, q) =
              (if 0 \<le> q \<and> q < P cfg \<and> 0 \<le> ix \<and> ix < L \<and> (c = 0 \<or> c = 1)
               then Some (tv ix c q) else None)"
    using compute_index_list3_ok [OF ok ev] unfolding L_def tv_def by blast
  define Inv where "Inv U \<longleftrightarrow> shape3 U = (Nx cfg div 2, Nz cfg div 2, M)" for U :: tensor3
  define G where "G U = {k. elems3 U k = F2 cfg T k}" for U :: tensor3
  have inner: "\<exists>U'. gather_write_scalar_2D cfg T tbl ix q i U = Inr U' \<and> Inv U' \<and> G U \<subseteq> G U' \<and>
                 {(tv ix 0 i, tv ix 1 i, q)} \<subseteq> G U'"
    if "ix \<in> set [0..L - 1]" "q \<in> set [0..q2 cfg - q1 cfg]" "i \<in> set [0..P cfg - 1]" "Inv U"
    for ix q i U
  proof -
    from that have b: "0 \<le> ix" "ix < L" "0 \<le> q" "q < M" "0 \<le> i" "i < P cfg"
      by (simp_all add: M_def)
    have rp: "rank_pair tbl ix i = Inr (tv ix 0 i, tv ix 1 i)"
      by (rule rank_pair_table [OF tbl(2,3) b(1,2,5,6)])
    have rg: "0 \<le> tv ix 0 i \<and> tv ix 0 i < Nx cfg div 2 \<and> 0 \<le> tv ix 1 i \<and> tv ix 1 i < Nz cfg div 2"
      unfolding tv_def using b(1,2,5,6) by (intro table_range [OF ok]) (simp_all add: Lnn)
    show ?thesis
      using gather_write_scalar_2D_step [OF that(4) [unfolded Inv_def] rp _ _ _ _ b(3,4)] rg
      unfolding Inv_def G_def by blast
  qed
  have mid: "\<exists>U'. foldM (gather_write_scalar_2D cfg T tbl ix q) [0..P cfg - 1] U = Inr U' \<and> Inv U' \<and>
               G U \<subseteq> G U' \<and> (\<Union>i\<in>set [0..P cfg - 1]. {(tv ix 0 i, tv ix 1 i, q)}) \<subseteq> G U'"
    if "ix \<in> set [0..L - 1]" "q \<in> set [0..q2 cfg - q1 cfg]" "Inv U" for ix q U
    using that(3) inner [OF that(1,2)] by (rule foldM_grow)
  have outer: "\<exists>U'. foldM (\<lambda>q. foldM (gather_write_scalar_2D cfg T tbl ix q) [0..P cfg - 1])
                  [0..q2 cfg - q1 cfg] U = Inr U' \<and> Inv U' \<and> G U \<subseteq> G U' \<and>
               (\<Union>q\<in>set [0..q2 cfg - q1 cfg]. \<Union>i\<in>set [0..P cfg - 1]. {(tv ix 0 i, tv ix 1 i, q)}) \<subseteq> G U'"
    if "ix \<in> set [0..L - 1]" "Inv U" for ix U
    using that(2) mid [OF that(1)] by (rule foldM_grow)
  have "Inv S" using sh by (simp add: Inv_def M_def)
  then have "\<exists>U'. foldM (\<lambda>ix. foldM (\<lambda>q. foldM (gather_write_scalar_2D cfg T tbl ix q) [0..P cfg - 1])
                  [0..q2 cfg - q1 cfg]) [0..L - 1] S = Inr U' \<and> Inv U' \<and> G S \<subseteq> G U' \<and>
               (\<Union>ix\<in>set [0..L - 1]. \<Union>q\<in>set [0..q2 cfg - q1 cfg]. \<Union>i\<in>set [0..P cfg - 1].
                   {(tv ix 0 i, tv ix 1 i, q)}) \<subseteq> G U'"
    using outer by (rule foldM_grow)
  then obtain U where U: "foldM (\<lambda>ix. foldM (\<lambda>q. foldM (gather_write_scalar_2D cfg T tbl ix q) [0..P cfg - 1])
                  [0..q2 cfg - q1 cfg]) [0..L - 1] S = Inr U" "Inv U"
     "(\<Union>ix\<in>set [0..L - 1]. \<Union>q\<in>set [0..q2 cfg - q1 cfg]. \<Union>i\<in>set [0..P cfg - 1].
                   {(tv ix 0 i, tv ix 1 i, q)}) \<subseteq> G U"
    by blast
  have cov: "elems3 U (x, z, q) = St2 cfg T x z q"
    if c: "0 \<le> x" "x < Nx cfg div 2" "0 \<le> z" "z < Nz cfg div 2" "0 \<le> q" "q \<le> q2 cfg - q1 cfg"
    for x z q
  proof -
    obtain ix r where ir: "0 \<le> ix" "ix < L" "0 \<le> r" "r < P cfg" "tv ix 0 r = x" "tv ix 1 r = z"
      using table_cover [OF ok c(1-4)] unfolding tv_def Lnn by blast
    have "(x, z, q) \<in> (\<Union>ix\<in>set [0..L - 1]. \<Union>q\<in>set [0..q2 cfg - q1 cfg]. \<Union>i\<in>set [0..P cfg - 1].
                   {(tv ix 0 i, tv ix 1 i, q)})"
      using ir c(5,6) by force
    then have "(x, z, q) \<in> G U" using U(3) by blast
    then show ?thesis by (simp add: G_def F2_def)
  qed
  have "0 < px cfg * (Nx cfg div 2 div px cfg)" using p(1) sz(2) by simp
  then have H1: "0 < Nx cfg div 2" using sz(7) by metis
  have "0 < (P cfg div px cfg) * (Nz cfg div 2 div (P cfg div px cfg))" using sz(1) sz(3) by simp
  then have H2: "0 < Nz cfg div 2" using sz(8) by metis
  note H = H1 H2
  define S' where "S' = U\<lparr>elems3 := (\<lambda>(i, k, l).
                    if i = 0 \<and> k = 0 \<and> 0 \<le> l \<and> l < M then Fin 0 else elems3 U (i, k, l))\<rparr>"
  have z: "zero_origin3 U = Inr S'"
    using U(2) H by (simp add: zero_origin3_def Inv_def S'_def)
  have a: "idiv (Nx cfg * Nz cfg) (4 * P cfg) = Inr L"
    using p N by (simp add: idiv_def tdiv_nonneg L_def)
  have "SF_scalar_2D cfg T S = Inr S'"
    by (simp add: SF_scalar_2D_def a tbl(1) U(1) z)
  moreover have "shape3 S' = (Nx cfg div 2, Nz cfg div 2, q2 cfg - q1 cfg + 1)"
    using U(2) by (simp add: S'_def Inv_def M_def)
  moreover have "\<forall>x z p. 0 \<le> x \<and> x < Nx cfg div 2 \<and> 0 \<le> z \<and> z < Nz cfg div 2 \<and>
                    0 \<le> p \<and> p \<le> q2 cfg - q1 cfg \<longrightarrow>
              elems3 S' (x, z, p) = (if x = 0 \<and> z = 0 then Fin 0 else St2 cfg T x z p)"
    using cov by (auto simp: S'_def M_def)
  ultimately show ?thesis by blast
qed

lemma gather_write3D_step:
  assumes sh: "shaped3D (Nx cfg div 2, Ny cfg div 2, Nz cfg div 2, M) SF"
    and rp: "rank_pair tbl ix i = Inr (x, y)"
    and x: "0 \<le> x" "x < Nx cfg div 2" and y: "0 \<le> y" "y < Ny cfg div 2"
    and z: "0 \<le> z" "z < Nz cfg div 2" and p: "0 \<le> p" "p < M"
  shows "\<exists>SF'. gather_write3D cfg Ux Uy Uz tbl ix z p i SF = Inr SF' \<and>
           shaped3D (Nx cfg div 2, Ny cfg div 2, Nz cfg div 2, M) SF' \<and>
           good3D cfg Ux Uy Uz SF \<subseteq> good3D cfg Ux Uy Uz SF' \<and>
           {(x, y, z, p)} \<subseteq> good3D cfg Ux Uy Uz SF'"
proof -
  obtain pll perp where SF: "SF = (pll, perp)" by (cases SF)
  have "x < Nx cfg" "y < Ny cfg" "z < Nz cfg" using x y z by linarith+
  then have "slices_ok3 cfg x y z" using x y z by (simp add: slices_ok3_def)
  then show ?thesis
    using sh rp x y z p unfolding SF
    by (auto simp: gather_write3D_def put4_def Fpll_def Fperp_def good3D_def shaped3D_def)
qed

lemma SFunc3D_ok:
  assumes ok: "decomposition_ok cfg (Nx cfg) (Ny cfg)" and ev: "even (Nx cfg)" "even (Ny cfg)"
    and nz: "2 \<le> Nz cfg"
    and sh: "shaped3D (Nx cfg div 2, Ny cfg div 2, Nz cfg div 2, q2 cfg - q1 cfg + 1) SF"
  shows "\<exists>pll perp. SFunc3D cfg Ux Uy Uz SF = Inr (pll, perp) \<and>
           shaped3D (Nx cfg div 2, Ny cfg div 2, Nz cfg div 2, q2 cfg - q1 cfg + 1) (pll, perp) \<and>
           (\<forall>x y z p. 0 \<le> x \<and> x < Nx cfg div 2 \<and> 0 \<le> y \<and> y < Ny cfg div 2 \<and>
                    0 \<le> z \<and> z < Nz cfg div 2 \<and> 0 \<le> p \<and> p \<le> q2 cfg - q1 cfg \<longrightarrow>
              elems4 pll (x, y, z, p) =
                (if x = 0 \<and> y = 0 \<and> z = 0 then Fin 0 else Spll3 cfg Ux Uy Uz x y z p) \<and>
              elems4 perp (x, y, z, p) =
                (if x = 0 \<and> y = 0 \<and> z = 0 then Fin 0 else Sperp3 cfg Ux Uy Uz x y z p))"
proof -
  define L where "L = Nx cfg * Ny cfg div (4 * P cfg)"
  define M where "M = q2 cfg - q1 cfg + 1"
  define H3 where "H3 = Nz cfg div 2"
  define shp where "shp = (Nx cfg div 2, Ny cfg div 2, H3, M)"
  define tv where "tv = table_value cfg (Nx cfg) (Ny cfg)"
  note sz = decomposition_sizes [OF ok ev]
  from ok have p: "0 < px cfg" "0 < P cfg" and N: "0 \<le> Nx cfg" "0 \<le> Ny cfg"
    by (simp_all add: decomposition_ok_def)
  have Lnn: "L = (Nx cfg div 2 div px cfg) * (Ny cfg div 2 div (P cfg div px cfg))"
    using sz(4) by (simp add: L_def)
  obtain tbl where tbl: "compute_index_list3 cfg (Nx cfg) (Ny cfg) = Inr tbl"
      "extent3 tbl = (L, 2, P cfg)"
      "\<forall>ix c q. cells3 tbl (ix, c, q) =
              (if 0 \<le> q \<and> q < P cfg \<and> 0 \<le> ix \<and> ix < L \<and> (c = 0 \<or> c = 1)
               then Some (tv ix c q) else None)"
    using compute_index_list3_ok [OF ok ev] unfolding L_def tv_def by blast
  define G where "G = good3D cfg Ux Uy Uz"
  define gw where "gw = gather_write3D cfg Ux Uy Uz tbl"
  have l4: "\<exists>U'. gw ix z q i U = Inr U' \<and> shaped3D shp U' \<and> G U \<subseteq> G U' \<and>
                 {(tv ix 0 i, tv ix 1 i, z, q)} \<subseteq> G U'"
    if a: "ix \<in> set [0..L - 1]" "z \<in> set [0..H3 - 1]" "q \<in> set [0..q2 cfg - q1 cfg]"
      "i \<in> set [0..P cfg - 1]" "shaped3D shp U"
    for ix z q i U
  proof -
    from a have b: "0 \<le> ix" "ix < L" "0 \<le> q" "q < M" "0 \<le> i" "i < P cfg" "0 \<le> z" "z < Nz cfg div 2"
      by (simp_all add: M_def H3_def)
    have rp: "rank_pair tbl ix i = Inr (tv ix 0 i, tv ix 1 i)"
      by (rule rank_pair_table [OF tbl(2,3) b(1,2,5,6)])
    have rg: "0 \<le> tv ix 0 i \<and> tv ix 0 i < Nx cfg div 2 \<and> 0 \<le> tv ix 1 i \<and> tv ix 1 i < Ny cfg div 2"
      unfolding tv_def using b(1,2,5,6) by (intro table_range [OF ok]) (simp_all add: Lnn)
    show ?thesis
      using gather_write3D_step [OF a(5) [unfolded shp_def H3_def] rp _ _ _ _ b(7,8) b(3,4)] rg
      unfolding G_def gw_def shp_def H3_def by blast
  qed
  have l3: "\<exists>U'. foldM (gw ix z q) [0..P cfg - 1] U = Inr U' \<and> shaped3D shp U' \<and>
               G U \<subseteq> G U' \<and> (\<Union>i\<in>set [0..P cfg - 1]. {(tv ix 0 i, tv ix 1 i, z, q)}) \<subseteq> G U'"
    if a: "ix \<in> set [0..L - 1]" "z \<in> set [0..H3 - 1]" "q \<in> set [0..q2 cfg - q1 cfg]" "shaped3D shp U"
    for ix z q U
    using a(4) l4 [OF a(1,2,3)] by (rule foldM_grow)
  have l2: "\<exists>U'. foldM (\<lambda>q. foldM (gw ix z q) [0..P cfg - 1]) [0..q2 cfg - q1 cfg] U = Inr U' \<and>
               shaped3D shp U' \<and> G U \<subseteq> G U' \<and>
               (\<Union>q\<in>set [0..q2 cfg - q1 cfg]. \<Union>i\<in>set [0..P cfg - 1].
                    {(tv ix 0 i, tv ix 1 i, z, q)}) \<subseteq> G U'"
    if a: "ix \<in> set [0..L - 1]" "z \<in> set [0..H3 - 1]" "shaped3D shp U" for ix z U
    using a(3) l3 [OF a(1,2)] by (rule foldM_grow)
  have l1: "\<exists>U'. foldM (\<lambda>z. foldM (\<lambda>q. foldM (gw ix z q) [0..P cfg - 1]) [0..q2 cfg - q1 cfg])
                 [0..H3 - 1] U = Inr U' \<and>
               shaped3D shp U' \<and> G U \<subseteq> G U' \<and>
               (\<Union>z\<in>set [0..H3 - 1]. \<Union>q\<in>set [0..q2 cfg - q1 cfg]. \<Union>i\<in>set [0..P cfg - 1].
                    {(tv ix 0 i, tv ix 1 i, z, q)}) \<subseteq> G U'"
    if a: "ix \<in> set [0..L - 1]" "shaped3D shp U" for ix U
    using a(2) l2 [OF a(1)] by (rule foldM_grow)
  have "shaped3D shp SF" using sh by (simp add: shp_def M_def H3_def)
  then have "\<exists>U'. foldM (\<lambda>ix. foldM (\<lambda>z. foldM (\<lambda>q. foldM (gw ix z q) [0..P cfg - 1])
                 [0..q2 cfg - q1 cfg]) [0..H3 - 1]) [0..L - 1] SF = Inr U' \<and>
               shaped3D shp U' \<and> G SF \<subseteq> G U' \<and>
               (\<Union>ix\<in>set [0..L - 1]. \<Union>z\<in>set [0..H3 - 1]. \<Union>q\<in>set [0..q2 cfg - q1 cfg].
                  \<Union>i\<in>set [0..P cfg - 1]. {(tv ix 0 i, tv ix 1 i, z, q)}) \<subseteq> G U'"
    using l1 by (rule foldM_grow)
  then obtain U where U: "foldM (\<lambda>ix. foldM (\<lambda>z. foldM (\<lambda>q. foldM (gw ix z q) [0..P cfg - 1])
                 [0..q2 cfg - q1 cfg]) [0..H3 - 1]) [0..L - 1] SF = Inr U" "shaped3D shp U"
     "(\<Union>ix\<in>set [0..L - 1]. \<Union>z\<in>set [0..H3 - 1]. \<Union>q\<in>set [0..q2 cfg - q1 cfg].
                  \<Union>i\<in>set [0..P cfg - 1]. {(tv ix 0 i, tv ix 1 i, z, q)}) \<subseteq> G U"
    by blast
  obtain pll0 perp0 where U0: "U = (pll0, perp0)" by (cases U)
  have cov: "elems4 pll0 (x, y, z, q) = Spll3 cfg Ux Uy Uz x y z q \<and>
             elems4 perp0 (x, y, z, q) = Sperp3 cfg Ux Uy Uz x y z q"
    if c: "0 \<le> x" "x < Nx cfg div 2" "0 \<le> y" "y < Ny cfg div 2" "0 \<le> z" "z < Nz cfg div 2"
      "0 \<le> q" "q \<le> q2 cfg - q1 cfg"
    for x y z q
  proof -
    obtain ix r where ir: "0 \<le> ix" "ix < L" "0 \<le> r" "r < P cfg" "tv ix 0 r = x" "tv ix 1 r = y"
      using table_cover [OF ok c(1-4)] unfolding tv_def Lnn by blast
    have "(x, y, z, q) \<in> (\<Union>ix\<in>set [0..L - 1]. \<Union>z\<in>set [0..H3 - 1]. \<Union>q\<in>set [0..q2 cfg - q1 cfg].
                  \<Union>i\<in>set [0..P cfg - 1]. {(tv ix 0 i, tv ix 1 i, z, q)})"
      using ir c(5-8) unfolding H3_def by force
    then have "(x, y, z, q) \<in> G U" using U(3) by blast
    then show ?thesis by (simp add: G_def good3D_def U0 Fpll_def Fperp_def)
  qed
  have H: "0 < Nx cfg div 2" "0 < Ny cfg div 2" using half_sizes_pos [OF ok] by simp_all
  have H3: "0 < H3" using nz by (simp add: H3_def)
  define pll where "pll = pll0\<lparr>elems4 := (\<lambda>(i, j, k, l).
                    if i = 0 \<and> j = 0 \<and> k = 0 \<and> 0 \<le> l \<and> l < M then Fin 0
                    else elems4 pll0 (i, j, k, l))\<rparr>"
  define perp where "perp = perp0\<lparr>elems4 := (\<lambda>(i, j, k, l).
                    if i = 0 \<and> j = 0 \<and> k = 0 \<and> 0 \<le> l \<and> l < M then Fin 0
                    else elems4 perp0 (i, j, k, l))\<rparr>"
  have z1: "zero_origin4 pll0 = Inr pll"
    using U(2) H H3 by (simp add: zero_origin4_def shaped3D_def U0 shp_def pll_def)
  have z2: "zero_origin4 perp0 = Inr perp"
    using U(2) H H3 by (simp add: zero_origin4_def shaped3D_def U0 shp_def perp_def)
  have a: "idiv (Nx cfg * Ny cfg) (4 * P cfg) = Inr L"
    using p N by (simp add: idiv_def tdiv_nonneg L_def)
  have t2: "tdiv (Nz cfg) 2 = H3" using nz by (simp add: tdiv_nonneg H3_def)
  have "SFunc3D cfg Ux Uy Uz SF = Inr (pll, perp)"
    using U(1) by (simp add: SFunc3D_def a tbl(1) t2 gw_def U0 z1 z2)
  moreover have "shaped3D (Nx cfg div 2, Ny cfg div 2, Nz cfg div 2, q2 cfg - q1 cfg + 1) (pll, perp)"
    using U(2) by (simp add: pll_def perp_def shaped3D_def U0 shp_def M_def H3_def)
  moreover have "\<forall>x y z p. 0 \<le> x \<and> x < Nx cfg div 2 \<and> 0 \<le> y \<and> y < Ny cfg div 2 \<and>
                    0 \<le> z \<and> z < Nz cfg div 2 \<and> 0 \<le> p \<and> p \<le> q2 cfg - q1 cfg \<longrightarrow>
              elems4 pll (x, y, z, p) =
                (if x = 0 \<and> y = 0 \<and> z = 0 then Fin 0 else Spll3 cfg Ux Uy Uz x y z p) \<and>
              elems4 perp (x, y, z, p) =
                (if x = 0 \<and> y = 0 \<and> z = 0 then Fin 0 else Sperp3 cfg Ux Uy Uz x y z p)"
    using cov by (auto simp: pll_def perp_def M_def)
  ultimately show ?thesis by blast
qed

lemma thn_Inr_iff: "thn m f = Inr v \<longleftrightarrow> (\<exists>u. m = Inr u \<and> f u = Inr v)"
  by (cases m) simp_all

lemma put4_shape: "put4 t idx v = Inr t' \<Longrightarrow> shape4 t' = shape4 t"
  by (auto simp: put4_def split: if_splits)

lemma put3_shape: "put3 t idx v = Inr t' \<Longrightarrow> shape3 t' = shape3 t"
  by (auto simp: put3_def split: if_splits)

lemma gather_write3D_shape:
  assumes "gather_write3D cfg Ux Uy Uz tbl ix z p i SF = Inr SF'" and "shaped3D shp SF"
  shows "shaped3D shp SF'"
proof -
  obtain pll perp where SF: "SF = (pll, perp)" by (cases SF)
  from assms(1) obtain x y pll' perp' where
    "put4 pll (x, y, z, p) (Spll3 cfg Ux Uy Uz x y z p) = Inr pll'"
    "put4 perp (x, y, z, p) (Sperp3 cfg Ux Uy Uz x y z p) = Inr perp'" "SF' = (pll', perp')"
    unfolding SF gather_write3D_def by (auto simp: thn_Inr_iff split: if_splits)
  then show ?thesis
    using assms(2) by (auto simp: shaped3D_def SF dest: put4_shape)
qed

lemma gather_write_scalar_2D_shape:
  assumes "gather_write_scalar_2D cfg T tbl ix p i S = Inr S'"
  shows "shape3 S' = shape3 S"
  using assms unfolding gather_write_scalar_2D_def
  by (auto simp: thn_Inr_iff split: if_splits dest: put3_shape)

lemma zero_origin4_origin:
  assumes "zero_origin4 t = Inr t'" and "shape4 t = (e0, e1, e2, e3)" and "0 \<le> p" and "p < e3"
  shows "elems4 t' (0, 0, 0, p) = Fin 0"
  using assms by (auto simp: zero_origin4_def split: if_splits)

lemma zero_origin3_origin:
  assumes "zero_origin3 t = Inr t'" and "shape3 t = (e0, e2, e3)" and "0 \<le> p" and "p < e3"
  shows "elems3 t' (0, 0, p) = Fin 0"
  using assms by (auto simp: zero_origin3_def split: if_splits)

lemma resize_SF4_shape:
  "resize_SF4 cfg = Inr t \<Longrightarrow>
     shape4 t = (tdiv (Nx cfg) 2, tdiv (Ny cfg) 2, tdiv (Nz cfg) 2, q2 cfg - q1 cfg + 1)"
  by (auto simp: resize_SF4_def Let_def split: if_splits)

lemma resize_SF3_shape:
  "resize_SF3 cfg = Inr t \<Longrightarrow> shape3 t = (tdiv (Nx cfg) 2, tdiv (Nz cfg) 2, q2 cfg - q1 cfg + 1)"
  by (auto simp: resize_SF3_def Let_def split: if_splits)

lemma SFunc3D_origin:
  assumes run: "SFunc3D cfg Ux Uy Uz SF = Inr (pll, perp)"
    and sh: "shaped3D (e0, e1, e2, e3) SF" and p: "0 \<le> p" "p < e3"
  shows "elems4 pll (0, 0, 0, p) = Fin 0 \<and> elems4 perp (0, 0, 0, p) = Fin 0"
proof -
  from run obtain c tbl pll0 perp0 where
    fold: "foldM (\<lambda>ix. foldM (\<lambda>z. foldM (\<lambda>p.
             foldM (gather_write3D cfg Ux Uy Uz tbl ix z p) [0..P cfg - 1])
             [0..q2 cfg - q1 cfg]) [0..tdiv (Nz cfg) 2 - 1]) [0..c - 1] SF = Inr (pll0, perp0)"
    and z: "zero_origin4 pll0 = Inr pll" "zero_origin4 perp0 = Inr perp"
    unfolding SFunc3D_def by (auto simp: thn_Inr_iff)
  have "shaped3D (e0, e1, e2, e3) (pll0, perp0)"
    using fold sh
  proof (rule foldM_preserves)
    fix ix t t'
    assume "foldM (\<lambda>z. foldM (\<lambda>p. foldM (gather_write3D cfg Ux Uy Uz tbl ix z p) [0..P cfg - 1])
             [0..q2 cfg - q1 cfg]) [0..tdiv (Nz cfg) 2 - 1] t = Inr t'"
      and "shaped3D (e0, e1, e2, e3) t"
    then show "shaped3D (e0, e1, e2, e3) t'"
    proof (rule foldM_preserves)
      fix z t t'
      assume "foldM (\<lambda>p. foldM (gather_write3D cfg Ux Uy Uz tbl ix z p) [0..P cfg - 1])
             [0..q2 cfg - q1 cfg] t = Inr t'" and "shaped3D (e0, e1, e2, e3) t"
      then show "shaped3D (e0, e1, e2, e3) t'"
      proof (rule foldM_preserves)
        fix q t t'
        assume "foldM (gather_write3D cfg Ux Uy Uz tbl ix z q) [0..P cfg - 1] t = Inr t'"
          and "shaped3D (e0, e1, e2, e3) t"
        then show "shaped3D (e0, e1, e2, e3) t'"
          by (rule foldM_preserves) (rule gather_write3D_shape)
      qed
    qed
  qed
  then have "shape4 pll0 = (e0, e1, e2, e3)" "shape4 perp0 = (e0, e1, e2, e3)"
    by (simp_all add: shaped3D_def)
  then show ?thesis
    using zero_origin4_origin [OF z(1) _ p] zero_origin4_origin [OF z(2) _ p] by simp
qed

lemma SF_scalar_2D_origin:
  assumes run: "SF_scalar_2D cfg T S = Inr S'"
    and sh: "shape3 S = (e0, e2, e3)" and p: "0 \<le> p" "p < e3"
  shows "elems3 S' (0, 0, p) = Fin 0"
proof -
  from run obtain c tbl S0 where
    fold: "foldM (\<lambda>ix. foldM (\<lambda>p.
             foldM (gather_write_scalar_2D cfg T tbl ix p) [0..P cfg - 1])
             [0..q2 cfg - q1 cfg]) [0..c - 1] S = Inr S0"
    and z: "zero_origin3 S0 = Inr S'"
    unfolding SF_scalar_2D_def by (auto simp: thn_Inr_iff)
  have "shape3 S0 = (e0, e2, e3)"
    using fold sh
  proof (rule foldM_preserves)
    fix ix t t'
    assume "foldM (\<lambda>p. foldM (gather_write_scalar_2D cfg T tbl ix p) [0..P cfg - 1])
             [0..q2 cfg - q1 cfg] t = Inr t'" and "shape3 t = (e0, e2, e3)"
    then show "shape3 t' = (e0, e2, e3)"
    proof (rule foldM_preserves)
      fix q t t'
      assume "foldM (gather_write_scalar_2D cfg T tbl ix q) [0..P cfg - 1] t = Inr t'"
        and "shape3 t = (e0, e2, e3)"
      then show "shape3 t' = (e0, e2, e3)"
        by (rule foldM_preserves) (simp add: gather_write_scalar_2D_shape)
    qed
  qed
  then show ?thesis using zero_origin3_origin [OF z _ p] by simp
qed

lemma fold3_preserves:
  assumes "foldM (\<lambda>a. foldM (\<lambda>b. foldM (f a b) cs) bs) as s = Inr s'" and "Q s"
    and "\<And>a b c t t'. f a b c t = Inr t' \<Longrightarrow> Q t \<Longrightarrow> Q t'"
  shows "Q s'"
  using assms(1,2)
proof (rule foldM_preserves)
  fix a t t'
  assume "foldM (\<lambda>b. foldM (f a b) cs) bs t = Inr t'" and "Q t"
  then show "Q t'"
  proof (rule foldM_preserves)
    fix b t t'
    assume "foldM (f a b) cs t = Inr t'" and "Q t"
    then show "Q t'" by (rule foldM_preserves) (rule assms(3))
  qed
qed

lemma fold4_preserves:
  assumes "foldM (\<lambda>a. foldM (\<lambda>b. foldM (\<lambda>c. foldM (f a b c) ds) cs) bs) as s = Inr s'" and "Q s"
    and "\<And>a b c d t t'. f a b c d t = Inr t' \<Longrightarrow> Q t \<Longrightarrow> Q t'"
  shows "Q s'"
  using assms(1,2)
proof (rule foldM_preserves)
  fix a t t'
  assume "foldM (\<lambda>b. foldM (\<lambda>c. foldM (f a b c) ds) cs) bs t = Inr t'" and "Q t"
  then show "Q t'" by (rule fold3_preserves) (rule assms(3))
qed

lemma gather_write_long_3D_shape:
  assumes "gather_write_long_3D cfg Ux Uy Uz tbl ix z p i S = Inr S'"
  shows "shape4 S' = shape4 S"
  using assms unfolding gather_write_long_3D_def
  by (auto simp: thn_Inr_iff split: if_splits dest: put4_shape)

lemma gather_write_scalar_3D_shape:
  assumes "gather_write_scalar_3D cfg T tbl ix z p i S = Inr S'"
  shows "shape4 S' = shape4 S"
  using assms unfolding gather_write_scalar_3D_def
  by (auto simp: thn_Inr_iff split: if_splits dest: put4_shape)

lemma gather_write_long_2D_shape:
  assumes "gather_write_long_2D cfg Ux Uz tbl ix p i S = Inr S'"
  shows "shape3 S' = shape3 S"
  using assms unfolding gather_write_long_2D_def
  by (auto simp: thn_Inr_iff split: if_splits dest: put3_shape)

lemma gather_write2D_shape:
  assumes "gather_write2D cfg Ux Uz tbl ix p i (pll, perp) = Inr (pll', perp')"
  shows "shape3 pll' = shape3 pll \<and> shape3 perp' = shape3 perp"
  using assms unfolding gather_write2D_def
  by (auto simp: thn_Inr_iff split: if_splits dest: put3_shape)

lemma SFunc_long_3D_origin:
  assumes run: "SFunc_long_3D cfg Ux Uy Uz S = Inr S'"
    and sh: "shape4 S = (e0, e1, e2, e3)" and p: "0 \<le> p" "p < e3"
  shows "elems4 S' (0, 0, 0, p) = Fin 0"
proof -
  from run obtain c tbl S0 where
    fold: "foldM (\<lambda>ix. foldM (\<lambda>z. foldM (\<lambda>p.
             foldM (gather_write_long_3D cfg Ux Uy Uz tbl ix z p) [0..P cfg - 1])
             [0..q2 cfg - q1 cfg]) [0..tdiv (Nz cfg) 2 - 1]) [0..c - 1] S = Inr S0"
    and z: "zero_origin4 S0 = Inr S'"
    unfolding SFunc_long_3D_def by (auto simp: thn_Inr_iff)
  have "shape4 S0 = (e0, e1, e2, e3)"
    using fold sh by (rule fold4_preserves) (simp add: gather_write_long_3D_shape)
  then show ?thesis using zero_origin4_origin [OF z _ p] by simp
qed

lemma SF_scalar_3D_origin:
  assumes run: "SF_scalar_3D cfg T S = Inr S'"
    and sh: "shape4 S = (e0, e1, e2, e3)" and p: "0 \<le> p" "p < e3"
  shows "elems4 S' (0, 0, 0, p) = Fin 0"
proof -
  from run obtain c tbl S0 where
    fold: "foldM (\<lambda>ix. foldM (\<lambda>z. foldM (\<lambda>p.
             foldM (gather_write_scalar_3D cfg T tbl ix z p) [0..P cfg - 1])
             [0..q2 cfg - q1 cfg]) [0..tdiv (Nz cfg) 2 - 1]) [0..c - 1] S = Inr S0"
    and z: "zero_origin4 S0 = Inr S'"
    unfolding SF_scalar_3D_def by (auto simp: thn_Inr_iff)
  have "shape4 S0 = (e0, e1, e2, e3)"
    using fold sh by (rule fold4_preserves) (simp add: gather_write_scalar_3D_shape)
  then show ?thesis using zero_origin4_origin [OF z _ p] by simp
qed

lemma SFunc_long_2D_origin:
  assumes run: "SFunc_long_2D cfg Ux Uz S = Inr S'"
    and sh: "shape3 S = (e0, e2, e3)" and p: "0 \<le> p" "p < e3"
  shows "elems3 S' (0, 0, p) = Fin 0"
proof -
  from run obtain c tbl S0 where
    fold: "foldM (\<lambda>ix. foldM (\<lambda>p.
             foldM (gather_write_long_2D cfg Ux Uz tbl ix p) [0..P cfg - 1])
             [0..q2 cfg - q1 cfg]) [0..c - 1] S = Inr S0"
    and z: "zero_origin3 S0 = Inr S'"
    unfolding SFunc_long_2D_def by (auto simp: thn_Inr_iff)
  have "shape3 S0 = (e0, e2, e3)"
    using fold sh by (rule fold3_preserves) (simp add: gather_write_long_2D_shape)
  then show ?thesis using zero_origin3_origin [OF z _ p] by simp
qed

lemma SFunc2D_origin:
  assumes run: "SFunc2D cfg Ux Uz (pll, perp) = Inr (pll', perp')"
    and sh: "shape3 pll = (e0, e2, e3)" "shape3 perp = (e0, e2, e3)" and p: "0 \<le> p" "p < e3"
  shows "elems3 pll' (0, 0, p) = Fin 0 \<and> elems3 perp' (0, 0, p) = Fin 0"
proof -
  from run obtain c tbl pll0 perp0 where
    fold: "foldM (\<lambda>ix. foldM (\<lambda>p.
             foldM (gather_write2D cfg Ux Uz tbl ix p) [0..P cfg - 1])
             [0..q2 cfg - q1 cfg]) [0..c - 1] (pll, perp) = Inr (pll0, perp0)"
    and z: "zero_origin3 pll0 = Inr pll'" "zero_origin3 perp0 = Inr perp'"
    unfolding SFunc2D_def by (auto simp: thn_Inr_iff)
  define Q where "Q SF \<longleftrightarrow> shape3 (fst SF) = (e0, e2, e3) \<and> shape3 (snd SF) = (e0, e2, e3)"
    for SF :: "tensor3 \<times> tensor3"
  have "Q (pll, perp)" using sh by (simp add: Q_def)
  with fold have "Q (pll0, perp0)"
  proof (rule fold3_preserves)
    fix a b c and t t' :: "tensor3 \<times> tensor3"
    assume "gather_write2D cfg Ux Uz tbl a b c t = Inr t'" and "Q t"
    then show "Q t'"
      using gather_write2D_shape [of cfg Ux Uz tbl a b c "fst t" "snd t" "fst t'" "snd t'"]
      by (simp add: Q_def)
  qed
  then have "shape3 pll0 = (e0, e2, e3)" "shape3 perp0 = (e0, e2, e3)" by (simp_all add: Q_def)
  then show ?thesis
    using zero_origin3_origin [OF z(1) _ p] zero_origin3_origin [OF z(2) _ p] by simp
qed

lemma present_Inr: "present v = Inr t \<longleftrightarrow> v = Some t"
  by (cases v) (simp_all add: present_def)

lemma main_compute_cases:
  assumes "main_compute cfg T V1 V2 V3 T_2D V1_2D V3_2D = Inr out"
  shows "(\<not> two_dimension_switch cfg \<and> scalar_switch cfg \<and>
            (\<exists>t S. resize_SF4 cfg = Inr t \<and> SF_scalar_3D cfg T t = Inr S \<and>
                   out = no_outputs\<lparr>SF_Grid_scalar := Some S\<rparr>)) \<or>
         (\<not> two_dimension_switch cfg \<and> \<not> scalar_switch cfg \<and> longitudinal cfg \<and>
            (\<exists>t S. resize_SF4 cfg = Inr t \<and> SFunc_long_3D cfg V1 V2 V3 t = Inr S \<and>
                   out = no_outputs\<lparr>SF_Grid_pll := Some S\<rparr>)) \<or>
         (\<not> two_dimension_switch cfg \<and> \<not> scalar_switch cfg \<and> \<not> longitudinal cfg \<and>
            (\<exists>t pll perp. resize_SF4 cfg = Inr t \<and> SFunc3D cfg V1 V2 V3 (t, t) = Inr (pll, perp) \<and>
                   out = no_outputs\<lparr>SF_Grid_pll := Some pll, SF_Grid_perp := Some perp\<rparr>)) \<or>
         (two_dimension_switch cfg \<and> scalar_switch cfg \<and>
            (\<exists>t S. resize_SF3 cfg = Inr t \<and> SF_scalar_2D cfg T_2D t = Inr S \<and>
                   out = no_outputs\<lparr>SF_Grid2D_scalar := Some S\<rparr>)) \<or>
         (two_dimension_switch cfg \<and> \<not> scalar_switch cfg \<and> longitudinal cfg \<and>
            (\<exists>t S. resize_SF3 cfg = Inr t \<and> SFunc_long_2D cfg V1_2D V3_2D t = Inr S \<and>
                   out = no_outputs\<lparr>SF_Grid2D_pll := Some S\<rparr>)) \<or>
         (two_dimension_switch cfg \<and> \<not> scalar_switch cfg \<and> \<not> longitudinal cfg \<and>
            (\<exists>t pll perp. resize_SF3 cfg = Inr t \<and> SFunc2D cfg V1_2D V3_2D (t, t) = Inr (pll, perp) \<and>
                   out = no_outputs\<lparr>SF_Grid2D_pll := Some pll, SF_Grid2D_perp := Some perp\<rparr>))"
proof -
  from assms obtain o1 where r: "resize_SFs cfg = Inr o1"
    and c: "calc_SFs cfg T V1 V2 V3 T_2D V1_2D V3_2D o1 = Inr out"
    unfolding main_compute_def by (auto simp: thn_Inr_iff)
  show ?thesis
  proof (cases "two_dimension_switch cfg")
    case d2: True
    show ?thesis
    proof (cases "scalar_switch cfg")
      case True
      with d2 r c show ?thesis
        by (auto simp: resize_SFs_def calc_SFs_def thn_Inr_iff present_Inr no_outputs_def)
    next
      case sc: False
      show ?thesis
      proof (cases "longitudinal cfg")
        case True
        with d2 sc r c show ?thesis
          by (auto simp: resize_SFs_def calc_SFs_def thn_Inr_iff present_Inr no_outputs_def)
      next
        case False
        with d2 sc r c show ?thesis
          by (auto simp: resize_SFs_def calc_SFs_def thn_Inr_iff present_Inr no_outputs_def)
      qed
    qed
  next
    case d2: False
    show ?thesis
    proof (cases "scalar_switch cfg")
      case True
      with d2 r c show ?thesis
        by (auto simp: resize_SFs_def calc_SFs_def thn_Inr_iff present_Inr no_outputs_def)
    next
      case sc: False
      show ?thesis
      proof (cases "longitudinal cfg")
        case True
        with d2 sc r c show ?thesis
          by (auto simp: resize_SFs_def calc_SFs_def thn_Inr_iff present_Inr no_outputs_def)
      next
        case False
        with d2 sc r c show ?thesis
          by (auto simp: resize_SFs_def calc_SFs_def thn_Inr_iff present_Inr no_outputs_def)
      qed
    qed
  qed
qed

lemma main_compute_vector_3D:
  assumes "\<not> two_dimension_switch cfg" "\<not> scalar_switch cfg" "\<not> longitudinal cfg"
  shows "main_compute cfg T V1 V2 V3 T_2D V1_2D V3_2D =
           thn (run_SFunc3D cfg V1 V2 V3) (\<lambda>(pll, perp).
             Inr (no_outputs\<lparr>SF_Grid_pll := Some pll, SF_Grid_perp := Some perp\<rparr>))"
proof (cases "resize_SF4 cfg")
  case (Inl e)
  then show ?thesis
    using assms by (simp add: main_compute_def resize_SFs_def run_SFunc3D_def)
next
  case (Inr t)
  then show ?thesis
    using assms
    by (cases "SFunc3D cfg V1 V2 V3 (t, t)")
       (auto simp: main_compute_def resize_SFs_def run_SFunc3D_def calc_SFs_def present_def
                   no_outputs_def)
qed

lemma main_compute_scalar_2D:
  assumes "two_dimension_switch cfg" "scalar_switch cfg"
  shows "main_compute cfg T V1 V2 V3 T_2D V1_2D V3_2D =
           thn (run_SF_scalar_2D cfg T_2D) (\<lambda>S. Inr (no_outputs\<lparr>SF_Grid2D_scalar := Some S\<rparr>))"
proof (cases "resize_SF3 cfg")
  case (Inl e)
  then show ?thesis
    using assms by (simp add: main_compute_def resize_SFs_def run_SF_scalar_2D_def)
next
  case (Inr t)
  then show ?thesis
    using assms
    by (cases "SF_scalar_2D cfg T_2D t")
       (auto simp: main_compute_def resize_SFs_def run_SF_scalar_2D_def calc_SFs_def present_def
                   no_outputs_def)
qed

lemma main_compute_produces:
  assumes "main_compute cfg T V1 V2 V3 T_2D V1_2D V3_2D = Inr out"
  shows "(SF_Grid_pll out \<noteq> None) = (\<not> two_dimension_switch cfg \<and> \<not> scalar_switch cfg)"
    and "(SF_Grid_perp out \<noteq> None) =
           (\<not> two_dimension_switch cfg \<and> \<not> scalar_switch cfg \<and> \<not> longitudinal cfg)"
    and "(SF_Grid_scalar out \<noteq> None) = (\<not> two_dimension_switch cfg \<and> scalar_switch cfg)"
    and "(SF_Grid2D_pll out \<noteq> None) = (two_dimension_switch cfg \<and> \<not> scalar_switch cfg)"
    and "(SF_Grid2D_perp out \<noteq> None) =
           (two_dimension_switch cfg \<and> \<not> scalar_switch cfg \<and> \<not> longitudinal cfg)"
    and "(SF_Grid2D_scalar out \<noteq> None) = (two_dimension_switch cfg \<and> scalar_switch cfg)"
  using main_compute_cases [OF assms] by (auto simp: no_outputs_def)

text \<open>
  Claim C4. Whenever \<open>resize_SFs(); calc_SFs();\<close> completes, in any of the six modes of the
  program, every result tensor that the run produced holds 0 at the origin displacement for
  every order index \<open>p\<close> in \<open>0 .. q2 - q1\<close>, whatever the fields are and whatever the kernel
  computed there. (Which tensors a run produces is \<open>main_compute_produces\<close>; that a run
  completes on an even grid that meets the pre-run constraints is \<open>main_compute_3D_total\<close>
  and \<open>main_compute_2D_total\<close> below.)
\<close>

theorem origin_is_zero_after_compute:
  assumes run: "main_compute cfg T V1 V2 V3 T_2D V1_2D V3_2D = Inr out"
    and p: "0 \<le> p" "p \<le> q2 cfg - q1 cfg"
  shows "(\<forall>t. SF_Grid_pll out = Some t \<longrightarrow> elems4 t (0, 0, 0, p) = Fin 0) \<and>
         (\<forall>t. SF_Grid_perp out = Some t \<longrightarrow> elems4 t (0, 0, 0, p) = Fin 0) \<and>
         (\<forall>t. SF_Grid_scalar out = Some t \<longrightarrow> elems4 t (0, 0, 0, p) = Fin 0) \<and>
         (\<forall>t. SF_Grid2D_pll out = Some t \<longrightarrow> elems3 t (0, 0, p) = Fin 0) \<and>
         (\<forall>t. SF_Grid2D_perp out = Some t \<longrightarrow> elems3 t (0, 0, p) = Fin 0) \<and>
         (\<forall>t. SF_Grid2D_scalar out = Some t \<longrightarrow> elems3 t (0, 0, p) = Fin 0)"
proof -
  have p': "p < q2 cfg - q1 cfg + 1" using p by linarith
  note o4 = resize_SF4_shape and o3 = resize_SF3_shape
  from main_compute_cases [OF run] show ?thesis
  proof (elim disjE conjE exE)
    fix t S
    assume "resize_SF4 cfg = Inr t" "SF_scalar_3D cfg T t = Inr S"
      and out: "out = no_outputs\<lparr>SF_Grid_scalar := Some S\<rparr>"
    then have "elems4 S (0, 0, 0, p) = Fin 0"
      using SF_scalar_3D_origin [OF _ o4 p(1) p'] by blast
    then show ?thesis by (simp add: out no_outputs_def)
  next
    fix t S
    assume "resize_SF4 cfg = Inr t" "SFunc_long_3D cfg V1 V2 V3 t = Inr S"
      and out: "out = no_outputs\<lparr>SF_Grid_pll := Some S\<rparr>"
    then have "elems4 S (0, 0, 0, p) = Fin 0"
      using SFunc_long_3D_origin [OF _ o4 p(1) p'] by blast
    then show ?thesis by (simp add: out no_outputs_def)
  next
    fix t pll perp
    assume t: "resize_SF4 cfg = Inr t" and r: "SFunc3D cfg V1 V2 V3 (t, t) = Inr (pll, perp)"
      and out: "out = no_outputs\<lparr>SF_Grid_pll := Some pll, SF_Grid_perp := Some perp\<rparr>"
    have "shaped3D (tdiv (Nx cfg) 2, tdiv (Ny cfg) 2, tdiv (Nz cfg) 2, q2 cfg - q1 cfg + 1) (t, t)"
      using o4 [OF t] by (simp add: shaped3D_def)
    then have "elems4 pll (0, 0, 0, p) = Fin 0 \<and> elems4 perp (0, 0, 0, p) = Fin 0"
      using p(1) p' by (rule SFunc3D_origin [OF r])
    then show ?thesis by (simp add: out no_outputs_def)
  next
    fix t S
    assume "resize_SF3 cfg = Inr t" "SF_scalar_2D cfg T_2D t = Inr S"
      and out: "out = no_outputs\<lparr>SF_Grid2D_scalar := Some S\<rparr>"
    then have "elems3 S (0, 0, p) = Fin 0"
      using SF_scalar_2D_origin [OF _ o3 p(1) p'] by blast
    then show ?thesis by (simp add: out no_outputs_def)
  next
    fix t S
    assume "resize_SF3 cfg = Inr t" "SFunc_long_2D cfg V1_2D V3_2D t = Inr S"
      and out: "out = no_outputs\<lparr>SF_Grid2D_pll := Some S\<rparr>"
    then have "elems3 S (0, 0, p) = Fin 0"
      using SFunc_long_2D_origin [OF _ o3 p(1) p'] by blast
    then show ?thesis by (simp add: out no_outputs_def)
  next
    fix t pll perp
    assume t: "resize_SF3 cfg = Inr t" and r: "SFunc2D cfg V1_2D V3_2D (t, t) = Inr (pll, perp)"
      and out: "out = no_outputs\<lparr>SF_Grid2D_pll := Some pll, SF_Grid2D_perp := Some perp\<rparr>"
    have "elems3 pll (0, 0, p) = Fin 0 \<and> elems3 perp (0, 0, p) = Fin 0"
      using p(1) p' by (rule SFunc2D_origin [OF r o3 [OF t] o3 [OF t]])
    then show ?thesis by (simp add: out no_outputs_def)
  qed
qed

section \<open>Complete runs, the origin, and the linear test field\<close>

lemma run_SFunc3D_ok:
  assumes ok: "decomposition_ok cfg (Nx cfg) (Ny cfg)" and ev: "even (Nx cfg)" "even (Ny cfg)"
    and nz: "2 \<le> Nz cfg" and q: "q1 cfg \<le> q2 cfg"
  shows "\<exists>pll perp. run_SFunc3D cfg Ux Uy Uz = Inr (pll, perp) \<and>
           (\<forall>x y z p. 0 \<le> x \<and> x < Nx cfg div 2 \<and> 0 \<le> y \<and> y < Ny cfg div 2 \<and>
                    0 \<le> z \<and> z < Nz cfg div 2 \<and> 0 \<le> p \<and> p \<le> q2 cfg - q1 cfg \<longrightarrow>
              elems4 pll (x, y, z, p) =
                (if x = 0 \<and> y = 0 \<and> z = 0 then Fin 0 else Spll3 cfg Ux Uy Uz x y z p) \<and>
              elems4 perp (x, y, z, p) =
                (if x = 0 \<and> y = 0 \<and> z = 0 then Fin 0 else Sperp3 cfg Ux Uy Uz x y z p))"
proof -
  from ok have N: "0 \<le> Nx cfg" "0 \<le> Ny cfg" by (simp_all add: decomposition_ok_def)
  define t0 where "t0 = \<lparr>shape4 = (Nx cfg div 2, Ny cfg div 2, Nz cfg div 2, q2 cfg - q1 cfg + 1),
                          elems4 = (\<lambda>idx. Fin 0)\<rparr>"
  have "\<not> Nx cfg div 2 < 0" "\<not> Ny cfg div 2 < 0" "\<not> Nz cfg div 2 < 0" "\<not> q2 cfg - q1 cfg + 1 < 0"
    using N nz q by simp_all
  then have r: "resize_SF4 cfg = Inr t0"
    using N nz by (simp add: resize_SF4_def Let_def tdiv_nonneg t0_def)
  have "shaped3D (Nx cfg div 2, Ny cfg div 2, Nz cfg div 2, q2 cfg - q1 cfg + 1) (t0, t0)"
    by (simp add: shaped3D_def t0_def)
  from SFunc3D_ok [OF ok ev nz this, of Ux Uy Uz] show ?thesis
    by (auto simp: run_SFunc3D_def r)
qed

lemma run_SF_scalar_2D_ok:
  assumes ok: "decomposition_ok cfg (Nx cfg) (Nz cfg)" and ev: "even (Nx cfg)" "even (Nz cfg)"
    and q: "q1 cfg \<le> q2 cfg"
  shows "\<exists>S. run_SF_scalar_2D cfg T = Inr S \<and>
           (\<forall>x z p. 0 \<le> x \<and> x < Nx cfg div 2 \<and> 0 \<le> z \<and> z < Nz cfg div 2 \<and>
                    0 \<le> p \<and> p \<le> q2 cfg - q1 cfg \<longrightarrow>
              elems3 S (x, z, p) = (if x = 0 \<and> z = 0 then Fin 0 else St2 cfg T x z p))"
proof -
  from ok have N: "0 \<le> Nx cfg" "0 \<le> Nz cfg" by (simp_all add: decomposition_ok_def)
  define t0 where "t0 = \<lparr>shape3 = (Nx cfg div 2, Nz cfg div 2, q2 cfg - q1 cfg + 1),
                          elems3 = (\<lambda>idx. Fin 0)\<rparr>"
  have "\<not> Nx cfg div 2 < 0" "\<not> Nz cfg div 2 < 0" "\<not> q2 cfg - q1 cfg + 1 < 0"
    using N q by simp_all
  then have r: "resize_SF3 cfg = Inr t0"
    using N by (simp add: resize_SF3_def Let_def tdiv_nonneg t0_def)
  have "shape3 t0 = (Nx cfg div 2, Nz cfg div 2, q2 cfg - q1 cfg + 1)"
    by (simp add: t0_def)
  from SF_scalar_2D_ok [OF ok ev this, of T] show ?thesis
    by (auto simp: run_SF_scalar_2D_def r)
qed

lemma is_pow2_2: "is_pow2 2"
  using is_pow2_def [of 2] by (metis power_one_right)


lemma cfg4_ok: "decomposition_ok cfg4 4 4"
  using is_pow2_2 by (simp add: decomposition_ok_def cfg4_def)

lemma foldM_total:
  assumes "Inv s"
    and "\<And>j t. j \<in> set xs \<Longrightarrow> Inv t \<Longrightarrow> \<exists>t'. f j t = Inr t' \<and> Inv t'"
  shows "\<exists>s'. foldM f xs s = Inr s' \<and> Inv s'"
  using assms
proof (induction xs arbitrary: s)
  case Nil
  then show ?case by simp
next
  case (Cons x xs)
  obtain t where t: "f x s = Inr t" "Inv t"
    using Cons.prems(2) [of x s] Cons.prems(1) by auto
  obtain s' where "foldM f xs t = Inr s'" "Inv s'"
    using Cons.IH [OF t(2)] Cons.prems(2) by (metis list.set_intros(2))
  then show ?case using t(1) by simp
qed

lemma fold3_total:
  assumes "Inv s"
    and "\<And>a b c t. a \<in> set as \<Longrightarrow> b \<in> set bs \<Longrightarrow> c \<in> set cs \<Longrightarrow> Inv t \<Longrightarrow>
           \<exists>t'. f a b c t = Inr t' \<and> Inv t'"
  shows "\<exists>s'. foldM (\<lambda>a. foldM (\<lambda>b. foldM (f a b) cs) bs) as s = Inr s' \<and> Inv s'"
  using assms(1)
proof (rule foldM_total)
  fix a t
  assume a: "a \<in> set as" and "Inv t"
  from this(2) show "\<exists>t'. foldM (\<lambda>b. foldM (f a b) cs) bs t = Inr t' \<and> Inv t'"
  proof (rule foldM_total)
    fix b t
    assume b: "b \<in> set bs" and "Inv t"
    from this(2) show "\<exists>t'. foldM (f a b) cs t = Inr t' \<and> Inv t'"
      by (rule foldM_total) (rule assms(2) [OF a b])
  qed
qed

lemma fold4_total:
  assumes "Inv s"
    and "\<And>a b c d t. a \<in> set as \<Longrightarrow> b \<in> set bs \<Longrightarrow> c \<in> set cs \<Longrightarrow> d \<in> set ds \<Longrightarrow> Inv t \<Longrightarrow>
           \<exists>t'. f a b c d t = Inr t' \<and> Inv t'"
  shows "\<exists>s'. foldM (\<lambda>a. foldM (\<lambda>b. foldM (\<lambda>c. foldM (f a b c) ds) cs) bs) as s = Inr s' \<and> Inv s'"
  using assms(1)
proof (rule foldM_total)
  fix a t
  assume a: "a \<in> set as" and "Inv t"
  from this(2) show "\<exists>t'. foldM (\<lambda>b. foldM (\<lambda>c. foldM (f a b c) ds) cs) bs t = Inr t' \<and> Inv t'"
    by (rule fold3_total) (rule assms(2) [OF a])
qed

lemma table_rows:
  assumes ok: "decomposition_ok cfg N1 N2" and ev: "even N1" "even N2"
  shows "\<exists>tbl L. compute_index_list3 cfg N1 N2 = Inr tbl \<and> idiv (N1 * N2) (4 * P cfg) = Inr L \<and>
           (\<forall>ix i. ix \<in> set [0..L - 1] \<and> i \<in> set [0..P cfg - 1] \<longrightarrow>
              (\<exists>x y. rank_pair tbl ix i = Inr (x, y) \<and>
                     0 \<le> x \<and> x < N1 div 2 \<and> 0 \<le> y \<and> y < N2 div 2))"
proof -
  define L where "L = N1 * N2 div (4 * P cfg)"
  define tv where "tv = table_value cfg N1 N2"
  note sz = decomposition_sizes [OF ok ev]
  from ok have p: "0 < px cfg" "0 < P cfg" and N: "0 \<le> N1" "0 \<le> N2"
    by (simp_all add: decomposition_ok_def)
  have Lnn: "L = (N1 div 2 div px cfg) * (N2 div 2 div (P cfg div px cfg))"
    using sz(4) by (simp add: L_def)
  obtain tbl where tbl: "compute_index_list3 cfg N1 N2 = Inr tbl"
      "extent3 tbl = (L, 2, P cfg)"
      "\<forall>ix c q. cells3 tbl (ix, c, q) =
              (if 0 \<le> q \<and> q < P cfg \<and> 0 \<le> ix \<and> ix < L \<and> (c = 0 \<or> c = 1)
               then Some (tv ix c q) else None)"
    using compute_index_list3_ok [OF ok ev] unfolding L_def tv_def by blast
  have a: "idiv (N1 * N2) (4 * P cfg) = Inr L"
    using p N by (simp add: idiv_def tdiv_nonneg L_def)
  have "\<exists>x y. rank_pair tbl ix i = Inr (x, y) \<and> 0 \<le> x \<and> x < N1 div 2 \<and> 0 \<le> y \<and> y < N2 div 2"
    if "ix \<in> set [0..L - 1] \<and> i \<in> set [0..P cfg - 1]" for ix i
  proof -
    from that have b: "0 \<le> ix" "ix < L" "0 \<le> i" "i < P cfg" by simp_all
    have rp: "rank_pair tbl ix i = Inr (tv ix 0 i, tv ix 1 i)"
      by (rule rank_pair_table [OF tbl(2,3) b])
    have "0 \<le> tv ix 0 i \<and> tv ix 0 i < N1 div 2 \<and> 0 \<le> tv ix 1 i \<and> tv ix 1 i < N2 div 2"
      unfolding tv_def using b by (intro table_range [OF ok]) (simp_all add: Lnn)
    with rp show ?thesis by blast
  qed
  with tbl(1) a show ?thesis by blast
qed

lemma zero_origin4_ok:
  assumes "shape4 t = (e0, e1, e2, e3)" "0 < e0" "0 < e1" "0 < e2"
  shows "\<exists>t'. zero_origin4 t = Inr t'"
  using assms by (simp add: zero_origin4_def)

lemma zero_origin3_ok:
  assumes "shape3 t = (e0, e2, e3)" "0 < e0" "0 < e2"
  shows "\<exists>t'. zero_origin3 t = Inr t'"
  using assms by (simp add: zero_origin3_def)

lemma SFunc_long_3D_ok:
  assumes ok: "decomposition_ok cfg (Nx cfg) (Ny cfg)" and ev: "even (Nx cfg)" "even (Ny cfg)"
    and nz: "2 \<le> Nz cfg"
    and sh: "shape4 S = (Nx cfg div 2, Ny cfg div 2, Nz cfg div 2, q2 cfg - q1 cfg + 1)"
  shows "\<exists>S'. SFunc_long_3D cfg Ux Uy Uz S = Inr S'"
proof -
  define shp where "shp = (Nx cfg div 2, Ny cfg div 2, Nz cfg div 2, q2 cfg - q1 cfg + 1)"
  obtain tbl L where tbl: "compute_index_list3 cfg (Nx cfg) (Ny cfg) = Inr tbl"
    and L: "idiv (Nx cfg * Ny cfg) (4 * P cfg) = Inr L"
    and rows: "\<forall>ix i. ix \<in> set [0..L - 1] \<and> i \<in> set [0..P cfg - 1] \<longrightarrow>
              (\<exists>x y. rank_pair tbl ix i = Inr (x, y) \<and>
                     0 \<le> x \<and> x < Nx cfg div 2 \<and> 0 \<le> y \<and> y < Ny cfg div 2)"
    using table_rows [OF ok ev] by blast
  have t2: "tdiv (Nz cfg) 2 = Nz cfg div 2" using nz by (simp add: tdiv_nonneg)
  have "shape4 S = shp" using sh by (simp add: shp_def)
  then have "\<exists>U. foldM (\<lambda>ix. foldM (\<lambda>z. foldM (\<lambda>p.
               foldM (gather_write_long_3D cfg Ux Uy Uz tbl ix z p) [0..P cfg - 1])
               [0..q2 cfg - q1 cfg]) [0..Nz cfg div 2 - 1]) [0..L - 1] S = Inr U \<and> shape4 U = shp"
  proof (rule fold4_total)
    fix ix z p i and t :: tensor4
    assume a: "ix \<in> set [0..L - 1]" "z \<in> set [0..Nz cfg div 2 - 1]" "p \<in> set [0..q2 cfg - q1 cfg]"
      "i \<in> set [0..P cfg - 1]" "shape4 t = shp"
    obtain x y where xy: "rank_pair tbl ix i = Inr (x, y)"
        "0 \<le> x" "x < Nx cfg div 2" "0 \<le> y" "y < Ny cfg div 2"
      using rows a(1,4) by blast
    have "x < Nx cfg" "y < Ny cfg" "0 \<le> z" "z < Nz cfg" using xy a(2) by simp_all linarith+
    then have "slices_ok3 cfg x y z" using xy by (simp add: slices_ok3_def)
    then show "\<exists>t'. gather_write_long_3D cfg Ux Uy Uz tbl ix z p i t = Inr t' \<and> shape4 t' = shp"
      using xy a by (auto simp: gather_write_long_3D_def put4_def shp_def)
  qed
  then obtain U where U: "foldM (\<lambda>ix. foldM (\<lambda>z. foldM (\<lambda>p.
               foldM (gather_write_long_3D cfg Ux Uy Uz tbl ix z p) [0..P cfg - 1])
               [0..q2 cfg - q1 cfg]) [0..Nz cfg div 2 - 1]) [0..L - 1] S = Inr U" "shape4 U = shp"
    by blast
  have "0 < Nz cfg div 2" using nz by simp
  then obtain S' where "zero_origin4 U = Inr S'"
    using zero_origin4_ok [OF U(2) [unfolded shp_def] half_sizes_pos [OF ok]] by blast
  then show ?thesis by (simp add: SFunc_long_3D_def L tbl t2 U(1))
qed

lemma SF_scalar_3D_ok:
  assumes ok: "decomposition_ok cfg (Nx cfg) (Ny cfg)" and ev: "even (Nx cfg)" "even (Ny cfg)"
    and nz: "2 \<le> Nz cfg"
    and sh: "shape4 S = (Nx cfg div 2, Ny cfg div 2, Nz cfg div 2, q2 cfg - q1 cfg + 1)"
  shows "\<exists>S'. SF_scalar_3D cfg T S = Inr S'"
proof -
  define shp where "shp = (Nx cfg div 2, Ny cfg div 2, Nz cfg div 2, q2 cfg - q1 cfg + 1)"
  obtain tbl L where tbl: "compute_index_list3 cfg (Nx cfg) (Ny cfg) = Inr tbl"
    and L: "idiv (Nx cfg * Ny cfg) (4 * P cfg) = Inr L"
    and rows: "\<forall>ix i. ix \<in> set [0..L - 1] \<and> i \<in> set [0..P cfg - 1] \<longrightarrow>
              (\<exists>x y. rank_pair tbl ix i = Inr (x, y) \<and>
                     0 \<le> x \<and> x < Nx cfg div 2 \<and> 0 \<le> y \<and> y < Ny cfg div 2)"
    using table_rows [OF ok ev] by blast
  have t2: "tdiv (Nz cfg) 2 = Nz cfg div 2" using nz by (simp add: tdiv_nonneg)
  have "shape4 S = shp" using sh by (simp add: shp_def)
  then have "\<exists>U. foldM (\<lambda>ix. foldM (\<lambda>z. foldM (\<lambda>p.
               foldM (gather_write_scalar_3D cfg T tbl ix z p) [0..P cfg - 1])
               [0..q2 cfg - q1 cfg]) [0..Nz cfg div 2 - 1]) [0..L - 1] S = Inr U \<and> shape4 U = shp"
  proof (rule fold4_total)
    fix ix z p i and t :: tensor4
    assume a: "ix \<in> set [0..L - 1]" "z \<in> set [0..Nz cfg div 2 - 1]" "p \<in> set [0..q2 cfg - q1 cfg]"
      "i \<in> set [0..P cfg - 1]" "shape4 t = shp"
    obtain x y where xy: "rank_pair tbl ix i = Inr (x, y)"
        "0 \<le> x" "x < Nx cfg div 2" "0 \<le> y" "y < Ny cfg div 2"
      using rows a(1,4) by blast
    have "x < Nx cfg" "y < Ny cfg" "0 \<le> z" "z < Nz cfg" using xy a(2) by simp_all linarith+
    then have "slices_ok3 cfg x y z" using xy by (simp add: slices_ok3_def)
    then show "\<exists>t'. gather_write_scalar_3D cfg T tbl ix z p i t = Inr t' \<and> shape4 t' = shp"
      using xy a by (auto simp: gather_write_scalar_3D_def put4_def shp_def)
  qed
  then obtain U where U: "foldM (\<lambda>ix. foldM (\<lambda>z. foldM (\<lambda>p.
               foldM (gather_write_scalar_3D cfg T tbl ix z p) [0..P cfg - 1])
               [0..q2 cfg - q1 cfg]) [0..Nz cfg div 2 - 1]) [0..L - 1] S = Inr U" "shape4 U = shp"
    by blast
  have "0 < Nz cfg div 2" using nz by simp
  then obtain S' where "zero_origin4 U = Inr S'"
    using zero_origin4_ok [OF U(2) [unfolded shp_def] half_sizes_pos [OF ok]] by blast
  then show ?thesis by (simp add: SF_scalar_3D_def L tbl t2 U(1))
qed

lemma SFunc_long_2D_ok:
  assumes ok: "decomposition_ok cfg (Nx cfg) (Nz cfg)" and ev: "even (Nx cfg)" "even (Nz cfg)"
    and sh: "shape3 S = (Nx cfg div 2, Nz cfg div 2, q2 cfg - q1 cfg + 1)"
  shows "\<exists>S'. SFunc_long_2D cfg Ux Uz S = Inr S'"
proof -
  define shp where "shp = (Nx cfg div 2, Nz cfg div 2, q2 cfg - q1 cfg + 1)"
  obtain tbl L where tbl: "compute_index_list3 cfg (Nx cfg) (Nz cfg) = Inr tbl"
    and L: "idiv (Nx cfg * Nz cfg) (4 * P cfg) = Inr L"
    and rows: "\<forall>ix i. ix \<in> set [0..L - 1] \<and> i \<in> set [0..P cfg - 1] \<longrightarrow>
              (\<exists>x z. rank_pair tbl ix i = Inr (x, z) \<and>
                     0 \<le> x \<and> x < Nx cfg div 2 \<and> 0 \<le> z \<and> z < Nz cfg div 2)"
    using table_rows [OF ok ev] by blast
  have "shape3 S = shp" using sh by (simp add: shp_def)
  then have "\<exists>U. foldM (\<lambda>ix. foldM (\<lambda>p.
               foldM (gather_write_long_2D cfg Ux Uz tbl ix p) [0..P cfg - 1])
               [0..q2 cfg - q1 cfg]) [0..L - 1] S = Inr U \<and> shape3 U = shp"
  proof (rule fold3_total)
    fix ix p i and t :: tensor3
    assume a: "ix \<in> set [0..L - 1]" "p \<in> set [0..q2 cfg - q1 cfg]"
      "i \<in> set [0..P cfg - 1]" "shape3 t = shp"
    obtain x z where xz: "rank_pair tbl ix i = Inr (x, z)"
        "0 \<le> x" "x < Nx cfg div 2" "0 \<le> z" "z < Nz cfg div 2"
      using rows a(1,3) by blast
    have "x < Nx cfg" "z < Nz cfg" using xz by linarith+
    then have "slices_ok2 cfg x z" using xz by (simp add: slices_ok2_def)
    then show "\<exists>t'. gather_write_long_2D cfg Ux Uz tbl ix p i t = Inr t' \<and> shape3 t' = shp"
      using xz a by (auto simp: gather_write_long_2D_def put3_def shp_def)
  qed
  then obtain U where U: "foldM (\<lambda>ix. foldM (\<lambda>p.
               foldM (gather_write_long_2D cfg Ux Uz tbl ix p) [0..P cfg - 1])
               [0..q2 cfg - q1 cfg]) [0..L - 1] S = Inr U" "shape3 U = shp"
    by blast
  obtain S' where "zero_origin3 U = Inr S'"
    using zero_origin3_ok [OF U(2) [unfolded shp_def] half_sizes_pos [OF ok]] by blast
  then show ?thesis by (simp add: SFunc_long_2D_def L tbl U(1))
qed

lemma SFunc2D_ok:
  assumes ok: "decomposition_ok cfg (Nx cfg) (Nz cfg)" and ev: "even (Nx cfg)" "even (Nz cfg)"
    and sh: "shape3 pll = (Nx cfg div 2, Nz cfg div 2, q2 cfg - q1 cfg + 1)"
      "shape3 perp = (Nx cfg div 2, Nz cfg div 2, q2 cfg - q1 cfg + 1)"
  shows "\<exists>SF'. SFunc2D cfg Ux Uz (pll, perp) = Inr SF'"
proof -
  define shp where "shp = (Nx cfg div 2, Nz cfg div 2, q2 cfg - q1 cfg + 1)"
  define Inv where "Inv SF \<longleftrightarrow> shape3 (fst SF) = shp \<and> shape3 (snd SF) = shp"
    for SF :: "tensor3 \<times> tensor3"
  obtain tbl L where tbl: "compute_index_list3 cfg (Nx cfg) (Nz cfg) = Inr tbl"
    and L: "idiv (Nx cfg * Nz cfg) (4 * P cfg) = Inr L"
    and rows: "\<forall>ix i. ix \<in> set [0..L - 1] \<and> i \<in> set [0..P cfg - 1] \<longrightarrow>
              (\<exists>x z. rank_pair tbl ix i = Inr (x, z) \<and>
                     0 \<le> x \<and> x < Nx cfg div 2 \<and> 0 \<le> z \<and> z < Nz cfg div 2)"
    using table_rows [OF ok ev] by blast
  have "Inv (pll, perp)" using sh by (simp add: shp_def Inv_def)
  then have "\<exists>U. foldM (\<lambda>ix. foldM (\<lambda>p.
               foldM (gather_write2D cfg Ux Uz tbl ix p) [0..P cfg - 1])
               [0..q2 cfg - q1 cfg]) [0..L - 1] (pll, perp) = Inr U \<and> Inv U"
  proof (rule fold3_total)
    fix ix p i and t :: "tensor3 \<times> tensor3"
    assume a: "ix \<in> set [0..L - 1]" "p \<in> set [0..q2 cfg - q1 cfg]"
      "i \<in> set [0..P cfg - 1]" "Inv t"
    obtain t1 t2 where t: "t = (t1, t2)" by (cases t)
    obtain x z where xz: "rank_pair tbl ix i = Inr (x, z)"
        "0 \<le> x" "x < Nx cfg div 2" "0 \<le> z" "z < Nz cfg div 2"
      using rows a(1,3) by blast
    have "x < Nx cfg" "z < Nz cfg" using xz by linarith+
    then have "slices_ok2 cfg x z" using xz by (simp add: slices_ok2_def)
    then show "\<exists>t'. gather_write2D cfg Ux Uz tbl ix p i t = Inr t' \<and> Inv t'"
      using xz a unfolding t by (auto simp: gather_write2D_def put3_def shp_def Inv_def)
  qed
  then obtain U1 U2 where U: "foldM (\<lambda>ix. foldM (\<lambda>p.
               foldM (gather_write2D cfg Ux Uz tbl ix p) [0..P cfg - 1])
               [0..q2 cfg - q1 cfg]) [0..L - 1] (pll, perp) = Inr (U1, U2)"
     "shape3 U1 = shp" "shape3 U2 = shp"
    by (auto simp: Inv_def)
  obtain S1 where S1: "zero_origin3 U1 = Inr S1"
    using zero_origin3_ok [OF U(2) [unfolded shp_def] half_sizes_pos [OF ok]] by blast
  obtain S2 where S2: "zero_origin3 U2 = Inr S2"
    using zero_origin3_ok [OF U(3) [unfolded shp_def] half_sizes_pos [OF ok]] by blast
  show ?thesis by (simp add: SFunc2D_def L tbl U(1) S1 S2)
qed

lemma resize_SF4_ok:
  assumes "0 \<le> Nx cfg" "0 \<le> Ny cfg" "0 \<le> Nz cfg" "q1 cfg \<le> q2 cfg"
  shows "\<exists>t. resize_SF4 cfg = Inr t \<and>
           shape4 t = (Nx cfg div 2, Ny cfg div 2, Nz cfg div 2, q2 cfg - q1 cfg + 1)"
proof -
  have "\<not> Nx cfg div 2 < 0" "\<not> Ny cfg div 2 < 0" "\<not> Nz cfg div 2 < 0" "\<not> q2 cfg - q1 cfg + 1 < 0"
    using assms by simp_all
  then show ?thesis using assms by (simp add: resize_SF4_def Let_def tdiv_nonneg)
qed

lemma resize_SF3_ok:
  assumes "0 \<le> Nx cfg" "0 \<le> Nz cfg" "q1 cfg \<le> q2 cfg"
  shows "\<exists>t. resize_SF3 cfg = Inr t \<and> shape3 t = (Nx cfg div 2, Nz cfg div 2, q2 cfg - q1 cfg + 1)"
proof -
  have "\<not> Nx cfg div 2 < 0" "\<not> Nz cfg div 2 < 0" "\<not> q2 cfg - q1 cfg + 1 < 0"
    using assms by simp_all
  then show ?thesis using assms by (simp add: resize_SF3_def Let_def tdiv_nonneg)
qed

lemma main_compute_3D_total:
  assumes sw: "\<not> two_dimension_switch cfg"
    and ok: "decomposition_ok cfg (Nx cfg) (Ny cfg)" and ev: "even (Nx cfg)" "even (Ny cfg)"
    and nz: "2 \<le> Nz cfg" and q: "q1 cfg \<le> q2 cfg"
  shows "\<exists>out. main_compute cfg T V1 V2 V3 T_2D V1_2D V3_2D = Inr out"
proof -
  from ok have N: "0 \<le> Nx cfg" "0 \<le> Ny cfg" by (simp_all add: decomposition_ok_def)
  have "0 \<le> Nz cfg" using nz by simp
  from resize_SF4_ok [OF N this q] obtain t where t: "resize_SF4 cfg = Inr t"
    "shape4 t = (Nx cfg div 2, Ny cfg div 2, Nz cfg div 2, q2 cfg - q1 cfg + 1)" by blast
  have "shaped3D (Nx cfg div 2, Ny cfg div 2, Nz cfg div 2, q2 cfg - q1 cfg + 1) (t, t)"
    using t(2) by (simp add: shaped3D_def)
  from SFunc3D_ok [OF ok ev nz this, of V1 V2 V3]
  obtain pll perp where a: "SFunc3D cfg V1 V2 V3 (t, t) = Inr (pll, perp)" by blast
  from SFunc_long_3D_ok [OF ok ev nz t(2), of V1 V2 V3]
  obtain S1 where b: "SFunc_long_3D cfg V1 V2 V3 t = Inr S1" by blast
  from SF_scalar_3D_ok [OF ok ev nz t(2), of T]
  obtain S2 where c: "SF_scalar_3D cfg T t = Inr S2" by blast
  show ?thesis
    using sw by (simp add: main_compute_def resize_SFs_def calc_SFs_def t(1) present_def
        no_outputs_def a b c)
qed

lemma main_compute_2D_total:
  assumes sw: "two_dimension_switch cfg"
    and ok: "decomposition_ok cfg (Nx cfg) (Nz cfg)" and ev: "even (Nx cfg)" "even (Nz cfg)"
    and q: "q1 cfg \<le> q2 cfg"
  shows "\<exists>out. main_compute cfg T V1 V2 V3 T_2D V1_2D V3_2D = Inr out"
proof -
  from ok have N: "0 \<le> Nx cfg" "0 \<le> Nz cfg" by (simp_all add: decomposition_ok_def)
  from resize_SF3_ok [OF N q] obtain t where t: "resize_SF3 cfg = Inr t"
    "shape3 t = (Nx cfg div 2, Nz cfg div 2, q2 cfg - q1 cfg + 1)" by blast
  from SFunc2D_ok [OF ok ev t(2) t(2), of V1_2D V3_2D]
  obtain pll perp where a: "SFunc2D cfg V1_2D V3_2D (t, t) = Inr (pll, perp)" by force
  from SFunc_long_2D_ok [OF ok ev t(2), of V1_2D V3_2D]
  obtain S1 where b: "SFunc_long_2D cfg V1_2D V3_2D t = Inr S1" by blast
  from SF_scalar_2D_ok [OF ok ev t(2), of T_2D]
  obtain S2 where c: "SF_scalar_2D cfg T_2D t = Inr S2" by blast
  show ?thesis
    using sw by (simp add: main_compute_def resize_SFs_def calc_SFs_def t(1) present_def
        no_outputs_def a b c)
qed

theorem origin_is_zero_after_compute_witness:
  "\<exists>pll perp S.
     main_compute cfg4 (\<lambda>i j k. 0) (\<lambda>i j k. real_of_int (i * j)) (\<lambda>i j k. 1) (\<lambda>i j k. real_of_int k)
        (\<lambda>i k. 0) (\<lambda>i k. 0) (\<lambda>i k. 0) =
       Inr (no_outputs\<lparr>SF_Grid_pll := Some pll, SF_Grid_perp := Some perp\<rparr>) \<and>
     elems4 pll (0, 0, 0, 1) = Fin 0 \<and> elems4 perp (0, 0, 0, 1) = Fin 0 \<and>
     main_compute (cfg4\<lparr>two_dimension_switch := True, scalar_switch := True\<rparr>)
        (\<lambda>i j k. 0) (\<lambda>i j k. 0) (\<lambda>i j k. 0) (\<lambda>i j k. 0)
        (\<lambda>i k. real_of_int (i + k)) (\<lambda>i k. 0) (\<lambda>i k. 0) =
       Inr (no_outputs\<lparr>SF_Grid2D_scalar := Some S\<rparr>) \<and>
     elems3 S (0, 0, 1) = Fin 0"
proof -
  define cfgs where "cfgs = cfg4\<lparr>two_dimension_switch := True, scalar_switch := True\<rparr>"
  have ok: "decomposition_ok cfg4 (Nx cfg4) (Ny cfg4)" "decomposition_ok cfgs (Nx cfgs) (Nz cfgs)"
    using cfg4_ok by (simp_all add: cfg4_def cfgs_def decomposition_ok_def)
  have side: "even (Nx cfg4)" "even (Ny cfg4)" "2 \<le> Nz cfg4" "q1 cfg4 \<le> q2 cfg4"
      "even (Nx cfgs)" "even (Nz cfgs)" "q1 cfgs \<le> q2 cfgs"
    by (simp_all add: cfg4_def cfgs_def)
  have sw: "\<not> two_dimension_switch cfg4" "\<not> scalar_switch cfg4" "\<not> longitudinal cfg4"
      "two_dimension_switch cfgs" "scalar_switch cfgs"
    by (simp_all add: cfg4_def cfgs_def)
  obtain pll perp where
    "run_SFunc3D cfg4 (\<lambda>i j k. real_of_int (i * j)) (\<lambda>i j k. 1) (\<lambda>i j k. real_of_int k) = Inr (pll, perp)"
    using run_SFunc3D_ok [OF ok(1) side(1-4)] by blast
  then have r3: "main_compute cfg4 (\<lambda>i j k. 0) (\<lambda>i j k. real_of_int (i * j)) (\<lambda>i j k. 1)
        (\<lambda>i j k. real_of_int k) (\<lambda>i k. 0) (\<lambda>i k. 0) (\<lambda>i k. 0) =
       Inr (no_outputs\<lparr>SF_Grid_pll := Some pll, SF_Grid_perp := Some perp\<rparr>)"
    by (simp add: main_compute_vector_3D [OF sw(1-3)])
  obtain S where "run_SF_scalar_2D cfgs (\<lambda>i k. real_of_int (i + k)) = Inr S"
    using run_SF_scalar_2D_ok [OF ok(2) side(5-7)] by blast
  then have r2: "main_compute cfgs (\<lambda>i j k. 0) (\<lambda>i j k. 0) (\<lambda>i j k. 0) (\<lambda>i j k. 0)
        (\<lambda>i k. real_of_int (i + k)) (\<lambda>i k. 0) (\<lambda>i k. 0) = Inr (no_outputs\<lparr>SF_Grid2D_scalar := Some S\<rparr>)"
    by (simp add: main_compute_scalar_2D [OF sw(4,5)])
  have q: "0 \<le> (1::int)" "1 \<le> q2 cfg4 - q1 cfg4" "1 \<le> q2 cfgs - q1 cfgs"
    by (simp_all add: cfg4_def cfgs_def)
  have "elems4 pll (0, 0, 0, 1) = Fin 0 \<and> elems4 perp (0, 0, 0, 1) = Fin 0"
    using origin_is_zero_after_compute [OF r3 q(1,2)] by (simp add: no_outputs_def)
  moreover have "elems3 S (0, 0, 1) = Fin 0"
    using origin_is_zero_after_compute [OF r2 q(1,3)] by (simp add: no_outputs_def)
  ultimately show ?thesis using r3 r2 unfolding cfgs_def by blast
qed






lemma length_upto0: "length [0..n - 1] = nat n"
  by simp


















section \<open>The tensors against the averages of the spec\<close>

lemma set_upto0: "set [0..n - 1] = {i. 0 \<le> i \<and> i < n}"
  by auto





















end
